(* ===== verification/Prelude.thy ===== *)
theory Prelude
  imports Main "HOL-Library.Word" "HOL-Library.Sublist" "HOL-Library.Multiset"
begin

text \<open>
  Shared vocabulary of the development: the machine integer types of Go, panics and errors
  as values, iteration over a Go map as an explicit enumeration of it, and the generic
  lemmas on lists and maps that the component theories share.
\<close>

section \<open>Integers, errors and panics\<close>

text \<open>
  Go's \<open>int32\<close>, \<open>int64\<close> and \<open>int\<close> (64 bits on the supported platforms). Arithmetic wraps;
  signed comparisons go through \<open>sint\<close>. A \<open>time.Duration\<close> is an \<open>int64\<close> of nanoseconds and
  an \<open>error\<close> value is its message.
\<close>

type_synonym int32 = "32 word"
type_synonym int64 = "64 word"
type_synonym gint = "64 word"
type_synonym duration = "64 word"
type_synonym float32 = "32 word"
type_synonym bytes = "8 word list"
type_synonym err = string

text \<open>
  A call either returns or panics (nil dereference, index out of range). An error return is
  a value of \<^typ>\<open>err + 'a\<close> or of \<^typ>\<open>err option\<close>.
\<close>

datatype 'a go = Ret 'a | Panic

primrec returns :: "'a go \<Rightarrow> bool" where
  "returns (Ret x) = True"
| "returns Panic = False"

primrec bind_go :: "'a go \<Rightarrow> ('a \<Rightarrow> 'b go) \<Rightarrow> 'b go" where
  "bind_go (Ret x) f = f x"
| "bind_go Panic f = Panic"

lemma bind_go_Ret_iff: "bind_go m f = Ret y \<longleftrightarrow> (\<exists>x. m = Ret x \<and> f x = Ret y)"
  by (cases m) auto

named_theorems go_defs
named_theorems field_simps_go

subsection \<open>Conversions between \<open>int\<close> and \<open>int32\<close>\<close>

text \<open>\<open>int32(x)\<close> truncates, \<open>int(x)\<close> sign-extends.\<close>

definition to_int32 :: "gint \<Rightarrow> int32" where
  "to_int32 x = ucast x"

definition of_int32 :: "int32 \<Rightarrow> gint" where
  "of_int32 x = scast x"

definition fits_int32 :: "gint \<Rightarrow> bool" where
  "fits_int32 x \<longleftrightarrow> - (2 ^ 31) \<le> sint x \<and> sint x < 2 ^ 31"

lemma to_of_int32 [simp]: "to_int32 (of_int32 x) = x"
proof -
  have "LENGTH(32) \<le> LENGTH(64)" by simp
  then show ?thesis
    unfolding to_int32_def of_int32_def
    by (metis down_cast_same is_down scast_down_scast_id is_up source_size_def
        ucast_down_ucast_id target_size_def word_size)
qed

lemma sint_of_int32 [simp]: "sint (of_int32 x) = sint x"
  unfolding of_int32_def
  by (rule sint_up_scast) (simp add: is_up)

lemma of_to_int32:
  assumes "fits_int32 x"
  shows "of_int32 (to_int32 x) = x"
proof -
  have "sint (ucast x :: int32) = signed_take_bit 31 (uint x)"
    by (simp add: signed_ucast_eq)
  also have "\<dots> = signed_take_bit 31 (signed_take_bit 63 (uint x))"
    by simp
  also have "signed_take_bit 63 (uint x) = sint x"
    by (simp add: sint_uint)
  also have "signed_take_bit 31 (sint x) = sint x"
    using assms by (intro signed_take_bit_int_eq_self) (auto simp: fits_int32_def)
  finally have "sint (to_int32 x) = sint x"
    by (simp add: to_int32_def)
  then show ?thesis
    by (metis sint_of_int32 signed_word_eqI)
qed

lemma fits_of_int32 [simp]: "fits_int32 (of_int32 x)"
  using sint_range_size [of x] by (simp add: fits_int32_def word_size)

section \<open>Iteration over a Go map\<close>

text \<open>
  Go visits the entries of a map in an unspecified order, a new one for every loop. A map is
  \<^typ>\<open>'k \<rightharpoonup> 'v\<close>; a loop over it takes the visited entries as a list \<open>es\<close> with
  \<open>enumerates es m\<close>, so that a theorem about every such list holds for every order.
\<close>

definition enumerates :: "('k \<times> 'v) list \<Rightarrow> ('k \<rightharpoonup> 'v) \<Rightarrow> bool" where
  "enumerates es m \<longleftrightarrow> distinct (map fst es) \<and> map_of es = m"

lemma enumerates_distinct [dest]: "enumerates es m \<Longrightarrow> distinct (map fst es)"
  by (simp add: enumerates_def)

lemma enumerates_mem:
  assumes "enumerates es m"
  shows "(k, v) \<in> set es \<longleftrightarrow> m k = Some v"
  using assms by (auto simp: enumerates_def)

lemma enumerates_dom:
  assumes "enumerates es m"
  shows "fst ` set es = dom m"
  using assms by (simp add: enumerates_def dom_map_of_conv_image_fst [symmetric])

lemma enumerates_ran:
  assumes "enumerates es m"
  shows "snd ` set es = ran m"
  using enumerates_mem [OF assms] by (force simp: ran_def)

lemma enumerates_finite: "enumerates es m \<Longrightarrow> finite (dom m)"
  by (auto simp: enumerates_def finite_dom_map_of)

lemma enumerates_set_eq:
  assumes "enumerates es m" and "enumerates fs m"
  shows "set es = set fs"
  using enumerates_mem [OF assms(1)] enumerates_mem [OF assms(2)] by auto

lemma enumerates_perm:
  assumes "enumerates es m" and "enumerates fs m"
  shows "mset es = mset fs"
proof -
  have "distinct es" "distinct fs"
    using assms by (auto simp: enumerates_def distinct_map)
  then show ?thesis
    using enumerates_set_eq [OF assms] by (simp add: set_eq_iff_mset_eq_distinct)
qed

lemma enumerates_map_of: "distinct (map fst es) \<Longrightarrow> enumerates es (map_of es)"
  by (simp add: enumerates_def)

section \<open>Loops that stop at the first error\<close>

fun first_error :: "('a \<Rightarrow> err option) \<Rightarrow> 'a list \<Rightarrow> err option" where
  "first_error f [] = None"
| "first_error f (x # xs) = (case f x of Some e \<Rightarrow> Some e | None \<Rightarrow> first_error f xs)"

lemma first_error_None [simp]: "first_error f xs = None \<longleftrightarrow> (\<forall>x \<in> set xs. f x = None)"
  by (induction xs) (auto split: option.splits)

lemma first_error_Some: "first_error f xs = Some e \<Longrightarrow> \<exists>x \<in> set xs. f x = Some e"
  by (induction xs) (auto split: option.splits)

fun traverse :: "('a \<Rightarrow> err + 'b) \<Rightarrow> 'a list \<Rightarrow> err + 'b list" where
  "traverse f [] = Inr []"
| "traverse f (x # xs) =
     (case f x of Inl e \<Rightarrow> Inl e
      | Inr y \<Rightarrow> (case traverse f xs of Inl e \<Rightarrow> Inl e | Inr ys \<Rightarrow> Inr (y # ys)))"

lemma traverse_Inr: "traverse f xs = Inr ys \<longleftrightarrow> map f xs = map Inr ys"
proof (induction xs arbitrary: ys)
  case Nil
  then show ?case by auto
next
  case (Cons x xs)
  then show ?case by (cases ys) (force split: sum.splits)+
qed

lemma traverse_ok_iff: "(\<exists>ys. traverse f xs = Inr ys) \<longleftrightarrow> (\<forall>x \<in> set xs. \<exists>y. f x = Inr y)"
  by (induction xs) (auto split: sum.splits)

section \<open>Lists\<close>

lemma images_meet_iff: "f ` A \<inter> f ` B \<noteq> {} \<longleftrightarrow> (\<exists>a \<in> A. \<exists>b \<in> B. f a = f b)"
  by blast

lemma mem_filter_iff: "(\<exists>a \<in> set (filter Q xs). R a) \<longleftrightarrow> (\<exists>a \<in> set xs. Q a \<and> R a)"
  by auto

fun before :: "'a list \<Rightarrow> 'a \<Rightarrow> 'a \<Rightarrow> bool" where
  "before [] a b = False"
| "before (x # xs) a b = ((x = a \<and> b \<in> set xs) \<or> before xs a b)"

lemma before_mem: "before xs a b \<Longrightarrow> a \<in> set xs \<and> b \<in> set xs"
  by (induction xs) auto

lemma before_map: "before xs a b \<Longrightarrow> before (map f xs) (f a) (f b)"
  by (induction xs) auto

lemma before_map_inj:
  assumes "inj_on f (insert a (insert b (set xs)))"
  shows "before (map f xs) (f a) (f b) \<longleftrightarrow> before xs a b"
  using assms
proof (induction xs)
  case Nil
  then show ?case by simp
next
  case (Cons x xs)
  have inj: "inj_on f (insert a (insert b (set xs)))"
    using Cons.prems by (rule inj_on_subset) auto
  have "f b \<in> f ` set xs \<longleftrightarrow> b \<in> set xs"
    using inj by (auto dest: inj_onD)
  moreover have "f x = f a \<longleftrightarrow> x = a"
    using inj_on_eq_iff [OF Cons.prems, of x a] by simp
  ultimately show ?case
    using Cons.IH [OF inj] by auto
qed

lemma before_append: "before (xs @ ys) a b \<longleftrightarrow>
    before xs a b \<or> before ys a b \<or> (a \<in> set xs \<and> b \<in> set ys)"
  by (induction xs) auto

lemma before_asym: "distinct xs \<Longrightarrow> before xs a b \<Longrightarrow> \<not> before xs b a"
  by (induction xs) (auto dest: before_mem)

end
