(* ===== verification/Go_Std.thy ===== *)
theory Go_Std
  imports Prelude
begin

text \<open>
  The functions of Go's standard library that the program calls on strings, paths and
  addresses: \<open>strconv.Itoa\<close> and \<open>%d\<close>, \<open>%q\<close>, \<open>strings.Contains\<close>, \<open>strings.Fields\<close>,
  \<open>strconv.ParseUint\<close>, \<open>net.JoinHostPort\<close>, \<open>net.SplitHostPort\<close>, and the lexical part of
  \<open>path/filepath\<close> on Unix (\<open>Clean\<close>, \<open>Join\<close>, \<open>Base\<close>, \<open>Dir\<close>). Strings are lists of bytes.
\<close>

section \<open>Decimal numbers\<close>

fun nat_dec :: "nat \<Rightarrow> string" where
  "nat_dec n = (if n < 10 then [''0123456789'' ! n]
                else nat_dec (n div 10) @ [''0123456789'' ! (n mod 10)])"

declare nat_dec.simps [simp del]

definition int_dec :: "int \<Rightarrow> string" where
  "int_dec i = (if i < 0 then ''-'' @ nat_dec (nat (- i)) else nat_dec (nat i))"

definition dec32 :: "int32 \<Rightarrow> string" where
  "dec32 x = int_dec (sint x)"

definition dec64 :: "gint \<Rightarrow> string" where
  "dec64 x = int_dec (sint x)"

definition dec_val :: "string \<Rightarrow> nat" where
  "dec_val s = foldl (\<lambda>a c. a * 10 + (of_char c - 48)) 0 s"

lemma digit_val: "d < 10 \<Longrightarrow> of_char (''0123456789'' ! d) = (48 + d :: nat)"
  by (auto simp: less_Suc_eq numeral_eq_Suc)

lemma digit_not_special:
  "d < 10 \<Longrightarrow> ''0123456789'' ! d \<notin> {CHR '':'', CHR ''-'', CHR ''['', CHR '']'', CHR ''/''}"
  by (auto simp: less_Suc_eq numeral_eq_Suc)

lemma dec_val_snoc: "dec_val (s @ [c]) = dec_val s * 10 + (of_char c - 48)"
  by (simp add: dec_val_def)

lemma dec_val_nat_dec: "dec_val (nat_dec n) = n"
proof (induction n rule: nat_dec.induct)
  case (1 n)
  show ?case
  proof (cases "n < 10")
    case True
    then show ?thesis
      by (subst nat_dec.simps) (simp add: dec_val_def digit_val)
  next
    case False
    then show ?thesis
      using "1.IH" by (subst nat_dec.simps) (simp add: dec_val_snoc digit_val)
  qed
qed

lemma nat_dec_inject [simp]: "nat_dec m = nat_dec n \<longleftrightarrow> m = n"
  by (metis dec_val_nat_dec)

lemma nat_dec_chars: "set (nat_dec n) \<inter> {CHR '':'', CHR ''-'', CHR ''['', CHR '']'', CHR ''/''} = {}"
proof (induction n rule: nat_dec.induct)
  case (1 n)
  show ?case
  proof (cases "n < 10")
    case True
    then show ?thesis
      using digit_not_special [of n] by (subst nat_dec.simps) auto
  next
    case False
    then show ?thesis
      using "1.IH" digit_not_special [of "n mod 10"] by (subst nat_dec.simps) auto
  qed
qed

lemma nat_dec_nonempty [simp]: "nat_dec n \<noteq> []"
  by (subst nat_dec.simps) simp

lemma int_dec_inject [simp]: "int_dec i = int_dec j \<longleftrightarrow> i = j"
proof -
  have no: "\<And>n s. nat_dec n \<noteq> CHR ''-'' # s"
    using nat_dec_chars by (metis IntI empty_iff insertI1 insertI2 list.set_intros(1))
  then show ?thesis
    using no [symmetric] by (auto simp: int_dec_def)
qed

lemma dec32_inject [simp]: "dec32 x = dec32 y \<longleftrightarrow> x = y"
  by (auto simp: dec32_def signed_word_eqI)

lemma int_dec_chars: "set (int_dec i) \<inter> {CHR '':'', CHR ''['', CHR '']''} = {}"
  using nat_dec_chars [of "nat i"] nat_dec_chars [of "nat (- i)"]
  by (auto simp: int_dec_def)

lemma dec32_chars: "set (dec32 x) \<inter> {CHR '':'', CHR ''['', CHR '']''} = {}"
  using int_dec_chars by (simp add: dec32_def)

section \<open>Quoting, searching and splitting\<close>

text \<open>
  \<open>%q\<close> (\<open>strconv.Quote\<close>), exact on ASCII; the bytes of printable multi-byte runes stay.
\<close>

definition hex_digit :: "nat \<Rightarrow> char" where
  "hex_digit d = ''0123456789abcdef'' ! d"

definition quote_char :: "char \<Rightarrow> string" where
  "quote_char c =
    (if c = CHR 0x22 then [CHR 0x5C, CHR 0x22]
     else if c = CHR 0x5C then [CHR 0x5C, CHR 0x5C]
     else if c = CHR 0x07 then [CHR 0x5C, CHR ''a'']
     else if c = CHR 0x08 then [CHR 0x5C, CHR ''b'']
     else if c = CHR 0x0C then [CHR 0x5C, CHR ''f'']
     else if c = CHR 0x0A then [CHR 0x5C, CHR ''n'']
     else if c = CHR 0x0D then [CHR 0x5C, CHR ''r'']
     else if c = CHR 0x09 then [CHR 0x5C, CHR ''t'']
     else if c = CHR 0x0B then [CHR 0x5C, CHR ''v'']
     else if of_char c < (32 :: nat) \<or> c = CHR 0x7F
       then [CHR 0x5C, CHR ''x'', hex_digit (of_char c div 16), hex_digit (of_char c mod 16)]
     else [c])"

definition quote :: "string \<Rightarrow> string" where
  "quote s = [CHR 0x22] @ concat (map quote_char s) @ [CHR 0x22]"

fun str_contains :: "string \<Rightarrow> string \<Rightarrow> bool" where
  "str_contains s sub = (prefix sub s \<or> (case s of [] \<Rightarrow> False | _ # cs \<Rightarrow> str_contains cs sub))"

declare str_contains.simps [simp del]

lemma str_contains_iff: "str_contains s sub \<longleftrightarrow> (\<exists>us vs. s = us @ sub @ vs)"
proof (induction s)
  case Nil
  then show ?case by (subst str_contains.simps) auto
next
  case (Cons c s)
  then show ?case
    by (subst str_contains.simps) (auto simp: prefix_def Cons_eq_append_conv)
qed

definition is_space :: "char \<Rightarrow> bool" where
  "is_space c \<longleftrightarrow> c \<in> {CHR 0x20, CHR 0x09, CHR 0x0A, CHR 0x0B, CHR 0x0C, CHR 0x0D}"

function Fields :: "string \<Rightarrow> string list" where
  "Fields s =
    (let t = dropWhile is_space s
     in if t = [] then []
        else takeWhile (\<lambda>c. \<not> is_space c) t # Fields (dropWhile (\<lambda>c. \<not> is_space c) t))"
  by pat_completeness auto
termination
proof (relation "measure length", simp)
  fix s t :: string
  assume t: "t = dropWhile is_space s" and "t \<noteq> []"
  then have "\<not> is_space (hd t)"
    using hd_dropWhile by blast
  then have "length (dropWhile (\<lambda>c. \<not> is_space c) t) < length t"
    using \<open>t \<noteq> []\<close> by (cases t) (auto simp: le_imp_less_Suc length_dropWhile_le)
  also have "length t \<le> length s"
    using t by (simp add: length_dropWhile_le)
  finally show "(dropWhile (\<lambda>c. \<not> is_space c) t, s) \<in> measure length"
    by simp
qed

declare Fields.simps [simp del]

definition is_digit :: "char \<Rightarrow> bool" where
  "is_digit c \<longleftrightarrow> 48 \<le> (of_char c :: nat) \<and> (of_char c :: nat) \<le> 57"

definition parse_uint64 :: "string \<Rightarrow> err + int64" where
  "parse_uint64 s =
    (if s = [] \<or> \<not> list_all is_digit s
     then Inl (''strconv.ParseUint: parsing '' @ quote s @ '': invalid syntax'')
     else if dec_val s < 2 ^ 64 then Inr (of_nat (dec_val s))
     else Inl (''strconv.ParseUint: parsing '' @ quote s @ '': value out of range''))"

section \<open>Network addresses\<close>

definition JoinHostPort :: "string \<Rightarrow> string \<Rightarrow> string" where
  "JoinHostPort host port =
    (if CHR '':'' \<in> set host then ''['' @ host @ '']:'' @ port else host @ '':'' @ port)"

definition after_last_colon :: "string \<Rightarrow> string" where
  "after_last_colon s = rev (takeWhile (\<lambda>c. c \<noteq> CHR '':'') (rev s))"

text \<open>\<open>None\<close> stands for the error result, whose text no caller looks at.\<close>

definition SplitHostPort :: "string \<Rightarrow> (string \<times> string) option" where
  "SplitHostPort s =
    (if CHR '':'' \<notin> set s then None
     else let port = after_last_colon s; i = length s - length port - 1 in
       if s ! 0 = CHR ''[''
       then (if CHR '']'' \<notin> set s then None
             else let e = length (takeWhile (\<lambda>c. c \<noteq> CHR '']'') s) in
               if e + 1 \<noteq> i then None
               else if CHR ''['' \<in> set (drop 1 s) \<or> CHR '']'' \<in> set (drop (e + 1) s) then None
               else Some (take (e - 1) (drop 1 s), port))
       else (let host = take i s in
         if CHR '':'' \<in> set host then None
         else if CHR ''['' \<in> set s \<or> CHR '']'' \<in> set s then None
         else Some (host, port)))"

lemma after_last_colon_append:
  assumes "CHR '':'' \<notin> set p"
  shows "after_last_colon (h @ CHR '':'' # p) = p"
proof -
  have "takeWhile (\<lambda>c. c \<noteq> CHR '':'') (rev p) = rev p"
    using assms by (auto simp: takeWhile_eq_all_conv)
  then show ?thesis
    by (simp only: after_last_colon_def rev_append rev.simps append_assoc append_Cons
        append_Nil takeWhile_tail rev_rev_ident simp_thms)
qed

lemma append_colon_cancel:
  assumes "CHR '':'' \<notin> set p" "CHR '':'' \<notin> set q"
  shows "g @ CHR '':'' # p = h @ CHR '':'' # q \<longleftrightarrow> g = h \<and> p = q"
  using after_last_colon_append [OF assms(1), of g] after_last_colon_append [OF assms(2), of h]
  by (metis append_same_eq)

lemma JoinHostPort_inject:
  assumes p: "CHR '':'' \<notin> set p" and q: "CHR '':'' \<notin> set q"
  shows "JoinHostPort g p = JoinHostPort h q \<longleftrightarrow> g = h \<and> p = q"
proof -
  have eq: "JoinHostPort x r =
      (if CHR '':'' \<in> set x then ''['' @ x @ '']'' else x) @ CHR '':'' # r" for x r
    by (simp add: JoinHostPort_def)
  have "(if CHR '':'' \<in> set g then ''['' @ g @ '']'' else g)
      = (if CHR '':'' \<in> set h then ''['' @ h @ '']'' else h) \<longleftrightarrow> g = h"
    by (auto split: if_splits)
  then show ?thesis
    unfolding eq append_colon_cancel [OF p q] by blast
qed

lemma SplitHostPort_JoinHostPort:
  assumes h: "set h \<inter> {CHR ''['', CHR '']''} = {}"
    and p: "set p \<inter> {CHR '':'', CHR ''['', CHR '']''} = {}"
  shows "SplitHostPort (JoinHostPort h p) = Some (h, p)"
proof (cases "CHR '':'' \<in> set h")
  case True
  let ?s = "(CHR ''['' # h @ [CHR '']'']) @ CHR '':'' # p"
  have j: "JoinHostPort h p = ?s"
    using True by (simp add: JoinHostPort_def)
  have a: "after_last_colon ?s = p"
    using p by (intro after_last_colon_append) auto
  have "takeWhile (\<lambda>c. c \<noteq> CHR '']'') ?s = CHR ''['' # h"
    using h by (auto simp: takeWhile_append)
  then have "length (takeWhile (\<lambda>c. c \<noteq> CHR '']'') ?s) = Suc (length h)"
    by simp
  then show ?thesis
    unfolding j SplitHostPort_def a Let_def using h p by simp
next
  case False
  let ?s = "h @ CHR '':'' # p"
  have j: "JoinHostPort h p = ?s"
    using False by (simp add: JoinHostPort_def)
  have a: "after_last_colon ?s = p"
    using p by (intro after_last_colon_append) auto
  have "?s ! 0 \<noteq> CHR ''[''"
    using h by (cases h) auto
  then show ?thesis
    unfolding j SplitHostPort_def a Let_def using h p False by auto
qed

section \<open>File paths\<close>

text \<open>The components between slashes, empty ones included.\<close>

fun split_slash :: "string \<Rightarrow> string list" where
  "split_slash [] = [[]]"
| "split_slash (c # s) =
     (if c = CHR ''/'' then [] # split_slash s
      else (case split_slash s of [] \<Rightarrow> [[c]] | x # xs \<Rightarrow> (c # x) # xs))"

fun join_slash :: "string list \<Rightarrow> string" where
  "join_slash [] = []"
| "join_slash [x] = x"
| "join_slash (x # xs) = x @ CHR ''/'' # join_slash xs"

text \<open>\<open>out\<close> is the reversed list of the components kept so far.\<close>

fun clean_step :: "bool \<Rightarrow> string list \<Rightarrow> string \<Rightarrow> string list" where
  "clean_step rooted out x =
    (if x = [] \<or> x = ''.'' then out
     else if x = ''..''
       then (case out of
               [] \<Rightarrow> if rooted then [] else [''..'']
             | y # ys \<Rightarrow> if y = ''..'' then ''..'' # out else ys)
     else x # out)"

definition is_rooted :: "string \<Rightarrow> bool" where
  "is_rooted p \<longleftrightarrow> (case p of [] \<Rightarrow> False | c # _ \<Rightarrow> c = CHR ''/'')"

definition Clean :: "string \<Rightarrow> string" where
  "Clean p =
    (if p = [] then ''.''
     else let out = rev (foldl (clean_step (is_rooted p)) [] (split_slash p)) in
       if is_rooted p then CHR ''/'' # join_slash out
       else if out = [] then ''.'' else join_slash out)"

definition Join2 :: "string \<Rightarrow> string \<Rightarrow> string" where
  "Join2 a b =
    (if a \<noteq> [] then Clean (a @ CHR ''/'' # b) else if b \<noteq> [] then Clean b else [])"

definition Base :: "string \<Rightarrow> string" where
  "Base p =
    (if p = [] then ''.''
     else let q = rev (dropWhile (\<lambda>c. c = CHR ''/'') (rev p)) in
       if q = [] then ''/''
       else rev (takeWhile (\<lambda>c. c \<noteq> CHR ''/'') (rev q)))"

definition Dir :: "string \<Rightarrow> string" where
  "Dir p = Clean (rev (dropWhile (\<lambda>c. c \<noteq> CHR ''/'') (rev p)))"

text \<open>A plain name: one component, neither \<open>.\<close> nor \<open>..\<close>.\<close>

definition plain_name :: "string \<Rightarrow> bool" where
  "plain_name n \<longleftrightarrow> n \<noteq> [] \<and> n \<noteq> ''.'' \<and> n \<noteq> ''..'' \<and> CHR ''/'' \<notin> set n"

lemma split_slash_no_slash: "CHR ''/'' \<notin> set n \<Longrightarrow> split_slash n = [n]"
  by (induction n) auto

lemma split_slash_nonempty [simp]: "split_slash s \<noteq> []"
  by (induction s) (auto split: list.splits)

lemma split_slash_append:
  "split_slash (a @ CHR ''/'' # b) = split_slash a @ split_slash b"
  by (induction a) (auto split: list.splits)

lemma join_slash_snoc:
  "xs \<noteq> [] \<Longrightarrow> join_slash (xs @ [x]) = join_slash xs @ CHR ''/'' # x"
  by (induction xs rule: join_slash.induct) auto

text \<open>Joining a plain name to a directory names an entry of that directory.\<close>

lemma is_rooted_append [simp]: "a \<noteq> [] \<Longrightarrow> is_rooted (a @ b) = is_rooted a"
  by (cases a) (auto simp: is_rooted_def)

lemma Join2_plain:
  assumes "plain_name n" "d \<noteq> []" "Clean d \<noteq> ''/''" "Clean d \<noteq> ''.''"
  shows "Join2 d n = Clean d @ CHR ''/'' # n"
proof -
  define out where "out = rev (foldl (clean_step (is_rooted d)) [] (split_slash d))"
  have clean_d: "Clean d = (if is_rooted d then CHR ''/'' # join_slash out
      else if out = [] then ''.'' else join_slash out)"
    using assms(2) by (simp add: Clean_def out_def Let_def)
  then have "out \<noteq> []"
    using assms(3,4) by (auto split: if_splits)
  have "rev (foldl (clean_step (is_rooted d)) [] (split_slash (d @ CHR ''/'' # n))) = out @ [n]"
    using assms(1)
    by (simp add: split_slash_append split_slash_no_slash plain_name_def out_def)
  then have "Clean (d @ CHR ''/'' # n) =
      (if is_rooted d then CHR ''/'' # join_slash (out @ [n]) else join_slash (out @ [n]))"
    using assms(2) by (simp add: Clean_def Let_def)
  then show ?thesis
    using assms(2) \<open>out \<noteq> []\<close> clean_d by (simp add: Join2_def join_slash_snoc)
qed

end
