(* ===== verification/Pb_Types.thy ===== *)
theory Pb_Types
  imports Go_Std
begin

text \<open>
  The messages of \<open>api/v1/spec.proto\<close> as the daemon handles them (the structs of
  \<open>pkg/api/v1/spec.pb.go\<close>), the getters the program calls, and the constants of
  \<open>internal/constants\<close>. A pointer to a message is an option (\<open>nil\<close> is \<open>None\<close>); the bookkeeping
  fields of the protobuf runtime are left out. A \<open>float32\<close> is its bit pattern. The
  wrappers of the \<open>oneof\<close> always hold a message, as they do in every message that came
  over the wire and in every one the program builds.
\<close>

section \<open>Constants\<close>

definition Millisecond :: int where "Millisecond = 1000000"
definition Second :: int where "Second = 1000000000"

definition DefaultListenAddress :: string where "DefaultListenAddress = ''127.0.0.1''"
definition LogDirPrefix :: string where "LogDirPrefix = ''tunneld-logs''"
definition DefaultStartupTimeout :: duration where "DefaultStartupTimeout = of_int (30 * Second)"
definition DefaultShutdownTimeout :: duration where "DefaultShutdownTimeout = of_int (5 * Second)"
definition DefaultHealthInterval :: duration where "DefaultHealthInterval = of_int (2 * Second)"
definition DefaultHealthTimeout :: duration where "DefaultHealthTimeout = of_int (2 * Second)"
definition DefaultWaitTimeout :: duration where "DefaultWaitTimeout = of_int (30 * Second)"

lemmas time_defs [go_defs] =
  Millisecond_def Second_def DefaultStartupTimeout_def DefaultShutdownTimeout_def
  DefaultHealthInterval_def DefaultHealthTimeout_def DefaultWaitTimeout_def

datatype perm = PermDirPrivate | PermDirPublic | PermFilePrivate | PermFilePublic | PermSocketPrivate

fun perm_bits :: "perm \<Rightarrow> nat" where
  "perm_bits PermDirPrivate = 7 * 64"
| "perm_bits PermDirPublic = 7 * 64 + 5 * 8 + 5"
| "perm_bits PermFilePrivate = 6 * 64"
| "perm_bits PermFilePublic = 6 * 64 + 4 * 8 + 4"
| "perm_bits PermSocketPrivate = 6 * 64 + 6 * 8"

section \<open>Protobuf durations\<close>

text \<open>
  \<open>google.protobuf.Duration\<close> and the two conversions of the \<open>durationpb\<close> package, which is
  not part of the repository: \<open>dnew\<close> is \<open>durationpb.New\<close>, \<open>das\<close> is \<open>AsDuration\<close>, defined on
  a nil message as well. The code relies on the documented laws: a duration survives the
  conversion to a message and back, and the nil message is the zero duration.
\<close>

record pb_duration =
  dur_Seconds :: int64
  dur_Nanos :: int32

record duration_ops =
  dnew :: "duration \<Rightarrow> pb_duration"
  das :: "pb_duration option \<Rightarrow> duration"

definition duration_laws :: "duration_ops \<Rightarrow> bool" where
  "duration_laws D \<longleftrightarrow> (\<forall>d. das D (Some (dnew D d)) = d) \<and> das D None = 0"

lemma das_dnew [simp]: "duration_laws D \<Longrightarrow> das D (Some (dnew D d)) = d"
  by (simp add: duration_laws_def)

lemma das_None [simp]: "duration_laws D \<Longrightarrow> das D None = 0"
  by (simp add: duration_laws_def)

text \<open>
  An instance of the laws, for the witnesses: it keeps the nanoseconds of durations in the
  seconds field.
\<close>

definition demo_durations :: duration_ops where
  "demo_durations =
    \<lparr>dnew = (\<lambda>d. \<lparr>dur_Seconds = d, dur_Nanos = 0\<rparr>),
     das = (\<lambda>m. case m of None \<Rightarrow> 0 | Some p \<Rightarrow> dur_Seconds p)\<rparr>"

lemma demo_durations_laws: "duration_laws demo_durations"
  by (simp add: duration_laws_def demo_durations_def)

section \<open>Messages\<close>

record SSHForward =
  sf_ListenAddress :: string
  sf_ListenPort :: int32
  sf_TargetHost :: string
  sf_TargetPort :: int32

record SSHSpec =
  ssh_User :: string
  ssh_Host :: string
  ssh_Port :: int32
  ssh_IdentityKeyFile :: string
  ssh_LocalForwards :: "SSHForward list"
  ssh_Options :: "string \<rightharpoonup> string"
  ssh_IdentityKeyRef :: string

record KubectlForward =
  kf_LocalAddress :: string
  kf_LocalPort :: int32
  kf_RemotePort :: int32

record KubectlSpec =
  kc_KubeconfigRef :: string
  kc_Context :: string
  kc_Namespace :: string
  kc_Resource :: string
  kc_Forwards :: "KubectlForward list"
  kc_ApiServer :: string
  kc_InsecureSkipTlsVerify :: bool
  kc_KubeconfigFile :: string

record HealthCheckSpec =
  hc_Type :: string
  hc_Address :: string
  hc_Interval :: "pb_duration option"
  hc_Timeout :: "pb_duration option"
  hc_StartupTimeout :: "pb_duration option"

record BackoffSpec =
  bo_Multiplier :: float32
  bo_MaxDelay :: "pb_duration option"

record RestartPolicySpec =
  rp_Policy :: string
  rp_Delay :: "pb_duration option"
  rp_MaxAttempts :: int32
  rp_Backoff :: "BackoffSpec option"

datatype tunnel_type = TunnelSpec_Ssh SSHSpec | TunnelSpec_Kubectl KubectlSpec

record TunnelSpec =
  ts_Name :: string
  ts_DependsOn :: "string list"
  ts_Type :: "tunnel_type option"
  ts_Health :: "HealthCheckSpec option"
  ts_Restart :: "RestartPolicySpec option"
  ts_StartupTimeout :: "pb_duration option"
  ts_ShutdownTimeout :: "pb_duration option"

record ResolvedForward =
  rf_LocalAddress :: string
  rf_ConfiguredPort :: int32
  rf_ActualPort :: int32
  rf_RemotePort :: int32

section \<open>Getters\<close>

fun GetSsh :: "TunnelSpec \<Rightarrow> SSHSpec option" where
  "GetSsh x = (case ts_Type x of Some (TunnelSpec_Ssh s) \<Rightarrow> Some s | _ \<Rightarrow> None)"

fun GetKubectl :: "TunnelSpec \<Rightarrow> KubectlSpec option" where
  "GetKubectl x = (case ts_Type x of Some (TunnelSpec_Kubectl k) \<Rightarrow> Some k | _ \<Rightarrow> None)"

definition GetInterval :: "HealthCheckSpec option \<Rightarrow> pb_duration option" where
  "GetInterval x = (case x of None \<Rightarrow> None | Some h \<Rightarrow> hc_Interval h)"

definition GetTimeout :: "HealthCheckSpec option \<Rightarrow> pb_duration option" where
  "GetTimeout x = (case x of None \<Rightarrow> None | Some h \<Rightarrow> hc_Timeout h)"

definition GetStartupTimeout :: "HealthCheckSpec option \<Rightarrow> pb_duration option" where
  "GetStartupTimeout x = (case x of None \<Rightarrow> None | Some h \<Rightarrow> hc_StartupTimeout h)"

lemma GetSsh_Kubectl_exclusive: "GetSsh p = None \<or> GetKubectl p = None"
  by (auto split: option.splits tunnel_type.splits)

end
