(* ===== verification/Os.thy ===== *)
theory Os
  imports Pb_Types
begin

text \<open>
  The operating system as the program sees it: a state of an arbitrary type \<open>'w\<close> and the
  calls of \<open>os\<close>, \<open>net\<close> and \<open>os/exec\<close> that read or change it. Every definition that calls the
  system takes this record as an argument; nothing is assumed of it here.
  \<open>mem_os\<close> is an in-memory instance for the witnesses.
\<close>

section \<open>System calls\<close>

datatype file_err = NotExist err | FileErr err

fun file_err_msg :: "file_err \<Rightarrow> err" where
  "file_err_msg (NotExist e) = e"
| "file_err_msg (FileErr e) = e"

fun is_not_exist :: "file_err \<Rightarrow> bool" where
  "is_not_exist (NotExist e) = True"
| "is_not_exist (FileErr e) = False"

record 'w os =
  os_listen :: "'w \<Rightarrow> string \<Rightarrow> (err + gint) \<times> 'w"
  os_close_listener :: "'w \<Rightarrow> gint \<Rightarrow> 'w"
  os_mkdirall :: "'w \<Rightarrow> string \<Rightarrow> perm \<Rightarrow> err option \<times> 'w"
  os_writefile :: "'w \<Rightarrow> string \<Rightarrow> bytes \<Rightarrow> perm \<Rightarrow> err option \<times> 'w"
  os_openappend :: "'w \<Rightarrow> string \<Rightarrow> perm \<Rightarrow> err option \<times> 'w"
  os_stat :: "'w \<Rightarrow> string \<Rightarrow> err option"
  os_openread :: "'w \<Rightarrow> string \<Rightarrow> file_err option"
  os_readfile :: "'w \<Rightarrow> string \<Rightarrow> file_err + bytes"
  os_readdir :: "'w \<Rightarrow> string \<Rightarrow> file_err + (string \<times> bool) list"
  os_remove :: "'w \<Rightarrow> string \<Rightarrow> file_err option \<times> 'w"
  os_pipe :: "'w \<Rightarrow> err option \<times> 'w"
  os_spawn :: "'w \<Rightarrow> string \<Rightarrow> string list \<Rightarrow> err option \<times> 'w"
  os_tempdir :: string
  os_homedir :: string

section \<open>An in-memory system\<close>

text \<open>Files by path, the ports handed out next, and the commands started so far.\<close>

record mem =
  mem_files :: "(string \<times> bytes) list"
  mem_ports :: "gint list"
  mem_spawned :: "(string \<times> string list) list"

definition mem_listen :: "mem \<Rightarrow> string \<Rightarrow> (err + gint) \<times> mem" where
  "mem_listen w a =
    (case mem_ports w of [] \<Rightarrow> (Inl ''no port'', w) | p # ps \<Rightarrow> (Inr p, w\<lparr>mem_ports := ps\<rparr>))"

definition mem_os :: "mem os" where
  "mem_os =
    \<lparr>os_listen = mem_listen,
     os_close_listener = (\<lambda>w p. w),
     os_mkdirall = (\<lambda>w d m. (None, w)),
     os_writefile = (\<lambda>w f b m. (None, w\<lparr>mem_files := (f, b) # mem_files w\<rparr>)),
     os_openappend = (\<lambda>w f m. (None, w)),
     os_stat = (\<lambda>w f. if map_of (mem_files w) f = None then Some ''no such file'' else None),
     os_openread = (\<lambda>w f. if map_of (mem_files w) f = None then Some (NotExist ''no such file'') else None),
     os_readfile = (\<lambda>w f. case map_of (mem_files w) f of
        None \<Rightarrow> Inl (NotExist ''no such file'') | Some b \<Rightarrow> Inr b),
     os_readdir = (\<lambda>w d. Inr (map (\<lambda>f. (drop (length d + 1) f, False))
        (filter (prefix (d @ ''/'')) (remdups (map fst (mem_files w)))))),
     os_remove = (\<lambda>w f. if map_of (mem_files w) f = None then (Some (NotExist ''no such file''), w)
        else (None, w\<lparr>mem_files := filter (\<lambda>e. fst e \<noteq> f) (mem_files w)\<rparr>)),
     os_pipe = (\<lambda>w. (None, w)),
     os_spawn = (\<lambda>w c as. (None, w\<lparr>mem_spawned := mem_spawned w @ [(c, as)]\<rparr>)),
     os_tempdir = ''/tmp'',
     os_homedir = ''/root''\<rparr>"

definition mem0 :: mem where
  "mem0 = \<lparr>mem_files = [], mem_ports = [40001, 40002, 40003], mem_spawned = []\<rparr>"

lemma mem_os_simps [simp]:
  "os_listen mem_os = mem_listen"
  "os_close_listener mem_os w p = w"
  "os_mkdirall mem_os w d m = (None, w)"
  "os_writefile mem_os w f b m = (None, w\<lparr>mem_files := (f, b) # mem_files w\<rparr>)"
  "os_openappend mem_os w f m = (None, w)"
  "os_stat mem_os w f = (if map_of (mem_files w) f = None then Some ''no such file'' else None)"
  "os_openread mem_os w f = (if map_of (mem_files w) f = None then Some (NotExist ''no such file'') else None)"
  "os_pipe mem_os w = (None, w)"
  "os_spawn mem_os w c as = (None, w\<lparr>mem_spawned := mem_spawned w @ [(c, as)]\<rparr>)"
  "os_tempdir mem_os = ''/tmp''"
  "os_homedir mem_os = ''/root''"
  by (simp_all add: mem_os_def)

end
