(* ===== verification/Ports.thy ===== *)
theory Ports
  imports Os
begin

text \<open>
  \<open>internal/tunnel/ports.go\<close>: resolution of dynamic ports and the address keys by which
  port conflicts are found.
\<close>

section \<open>Definitions\<close>

record PortMapping =
  pm_LocalAddress :: string
  pm_ConfiguredPort :: int32
  pm_ActualPort :: int32
  pm_RemotePort :: int32

definition allocatePort :: "'w os \<Rightarrow> 'w \<Rightarrow> string \<Rightarrow> (err + int32) \<times> 'w" where
  "allocatePort S w addr =
    (case os_listen S w (JoinHostPort addr ''0'') of
       (Inl e, w') \<Rightarrow> (Inl e, w')
     | (Inr port, w') \<Rightarrow> (Inr (to_int32 port), os_close_listener S w' port))"

definition default_addr :: "string \<Rightarrow> string" where
  "default_addr a = (if a = '''' then DefaultListenAddress else a)"

definition resolve_port :: "'w os \<Rightarrow> 'w \<Rightarrow> string \<Rightarrow> int32 \<Rightarrow> (err + int32) \<times> 'w" where
  "resolve_port S w addr configured =
    (if configured = 0 then allocatePort S w addr else (Inr configured, w))"

text \<open>The two loops of \<open>ResolvePortsInProto\<close>: the forwards as changed and their mappings.\<close>

fun resolve_ssh :: "'w os \<Rightarrow> 'w \<Rightarrow> SSHForward list \<Rightarrow> (err + SSHForward list \<times> PortMapping list) \<times> 'w" where
  "resolve_ssh S w [] = (Inr ([], []), w)"
| "resolve_ssh S w (f # fs) =
    (let addr = default_addr (sf_ListenAddress f); configured = sf_ListenPort f in
     case resolve_port S w addr configured of
       (Inl e, w1) \<Rightarrow> (Inl (''port alloc for ssh forward: '' @ e), w1)
     | (Inr actual, w1) \<Rightarrow>
        (case resolve_ssh S w1 fs of
           (Inl e, w2) \<Rightarrow> (Inl e, w2)
         | (Inr (fs', ms), w2) \<Rightarrow>
            (Inr (f\<lparr>sf_ListenPort := actual\<rparr> # fs',
                  \<lparr>pm_LocalAddress = addr, pm_ConfiguredPort = configured,
                   pm_ActualPort = actual, pm_RemotePort = sf_TargetPort f\<rparr> # ms), w2)))"

fun resolve_kubectl :: "'w os \<Rightarrow> 'w \<Rightarrow> KubectlForward list \<Rightarrow> (err + KubectlForward list \<times> PortMapping list) \<times> 'w" where
  "resolve_kubectl S w [] = (Inr ([], []), w)"
| "resolve_kubectl S w (f # fs) =
    (let addr = default_addr (kf_LocalAddress f); configured = kf_LocalPort f in
     case resolve_port S w addr configured of
       (Inl e, w1) \<Rightarrow> (Inl (''port alloc for kubectl forward: '' @ e), w1)
     | (Inr actual, w1) \<Rightarrow>
        (case resolve_kubectl S w1 fs of
           (Inl e, w2) \<Rightarrow> (Inl e, w2)
         | (Inr (fs', ms), w2) \<Rightarrow>
            (Inr (f\<lparr>kf_LocalPort := actual\<rparr> # fs',
                  \<lparr>pm_LocalAddress = addr, pm_ConfiguredPort = configured,
                   pm_ActualPort = actual, pm_RemotePort = kf_RemotePort f\<rparr> # ms), w2)))"

text \<open>
  Values are immutable here, so the clone is the argument itself. At most one of the two
  parts of a spec is present.
\<close>

definition ResolvePortsInProto :: "'w os \<Rightarrow> 'w \<Rightarrow> TunnelSpec \<Rightarrow> (err + TunnelSpec \<times> PortMapping list) \<times> 'w" where
  "ResolvePortsInProto S w spec =
    (case GetSsh spec of
       Some s \<Rightarrow>
        (case resolve_ssh S w (ssh_LocalForwards s) of
           (Inl e, w') \<Rightarrow> (Inl e, w')
         | (Inr (fs, ms), w') \<Rightarrow>
            (Inr (spec\<lparr>ts_Type := Some (TunnelSpec_Ssh (s\<lparr>ssh_LocalForwards := fs\<rparr>))\<rparr>, ms), w'))
     | None \<Rightarrow>
        (case GetKubectl spec of
           Some k \<Rightarrow>
            (case resolve_kubectl S w (kc_Forwards k) of
               (Inl e, w') \<Rightarrow> (Inl e, w')
             | (Inr (fs, ms), w') \<Rightarrow>
                (Inr (spec\<lparr>ts_Type := Some (TunnelSpec_Kubectl (k\<lparr>kc_Forwards := fs\<rparr>))\<rparr>, ms), w'))
         | None \<Rightarrow> (Inr (spec, []), w)))"

definition port_key :: "string \<Rightarrow> int32 \<Rightarrow> string" where
  "port_key addr port = JoinHostPort (default_addr addr) (dec32 port)"

definition ssh_keys :: "SSHForward list \<Rightarrow> string list" where
  "ssh_keys fs = map (\<lambda>f. port_key (sf_ListenAddress f) (sf_ListenPort f))
     (filter (\<lambda>f. sf_ListenPort f \<noteq> 0) fs)"

definition kubectl_keys :: "KubectlForward list \<Rightarrow> string list" where
  "kubectl_keys fs = map (\<lambda>f. port_key (kf_LocalAddress f) (kf_LocalPort f))
     (filter (\<lambda>f. kf_LocalPort f \<noteq> 0) fs)"

definition LocalPortKeys :: "TunnelSpec \<Rightarrow> string list" where
  "LocalPortKeys spec =
    (case GetSsh spec of Some s \<Rightarrow> ssh_keys (ssh_LocalForwards s) | None \<Rightarrow> [])
    @ (case GetKubectl spec of Some k \<Rightarrow> kubectl_keys (kc_Forwards k) | None \<Rightarrow> [])"

text \<open>
  The loops by which a configuration is searched for conflicts (in \<open>Config.Validate\<close> and in
  \<open>Supervisor.Run\<close>): \<open>seen\<close> maps a key to the tunnel that claimed it first, \<open>msg\<close> is the
  text of the error from the claimant, the owner and the key.
\<close>

fun claim_keys :: "(string \<Rightarrow> string \<Rightarrow> string \<Rightarrow> err) \<Rightarrow> string \<Rightarrow> string list \<Rightarrow>
    (string \<rightharpoonup> string) \<Rightarrow> err + (string \<rightharpoonup> string)" where
  "claim_keys msg nm [] seen = Inr seen"
| "claim_keys msg nm (k # ks) seen =
    (case seen k of
       Some owner \<Rightarrow> Inl (msg nm owner k)
     | None \<Rightarrow> claim_keys msg nm ks (seen(k \<mapsto> nm)))"

fun claim_all :: "(string \<Rightarrow> string \<Rightarrow> string \<Rightarrow> err) \<Rightarrow> (string \<times> string list) list \<Rightarrow>
    (string \<rightharpoonup> string) \<Rightarrow> err option" where
  "claim_all msg [] seen = None"
| "claim_all msg (x # xs) seen =
    (case claim_keys msg (fst x) (snd x) seen of
       Inl e \<Rightarrow> Some e
     | Inr seen' \<Rightarrow> claim_all msg xs seen')"

section \<open>Forwards of either kind\<close>

text \<open>
  A view of a forward that both kinds share, for the statements: its address after the
  default, its local port and its remote port.
\<close>

type_synonym fwd = "string \<times> int32 \<times> int32"

definition ssh_fwd :: "SSHForward \<Rightarrow> fwd" where
  "ssh_fwd f = (default_addr (sf_ListenAddress f), sf_ListenPort f, sf_TargetPort f)"

definition kubectl_fwd :: "KubectlForward \<Rightarrow> fwd" where
  "kubectl_fwd f = (default_addr (kf_LocalAddress f), kf_LocalPort f, kf_RemotePort f)"

definition forwards :: "TunnelSpec \<Rightarrow> fwd list" where
  "forwards spec =
    (case ts_Type spec of
       Some (TunnelSpec_Ssh s) \<Rightarrow> map ssh_fwd (ssh_LocalForwards s)
     | Some (TunnelSpec_Kubectl k) \<Rightarrow> map kubectl_fwd (kc_Forwards k)
     | None \<Rightarrow> [])"

text \<open>What a resolution may change: a zero port becomes the allocated one, nothing else.\<close>

definition resolves_to :: "fwd \<Rightarrow> fwd \<Rightarrow> PortMapping \<Rightarrow> bool" where
  "resolves_to f g m \<longleftrightarrow>
    fst g = fst f \<and> snd (snd g) = snd (snd f) \<and> (fst (snd f) \<noteq> 0 \<longrightarrow> fst (snd g) = fst (snd f)) \<and>
    m = \<lparr>pm_LocalAddress = fst f, pm_ConfiguredPort = fst (snd f),
         pm_ActualPort = fst (snd g), pm_RemotePort = snd (snd f)\<rparr>"

fun resolution :: "fwd list \<Rightarrow> fwd list \<Rightarrow> PortMapping list \<Rightarrow> bool" where
  "resolution [] [] [] = True"
| "resolution (f # fs) (g # gs) (m # ms) = (resolves_to f g m \<and> resolution fs gs ms)"
| "resolution _ _ _ = False"

section \<open>Lemmas\<close>

lemma resolve_port_nonzero: "p \<noteq> 0 \<Longrightarrow> resolve_port S w a p = (Inr p, w)"
  by (simp add: resolve_port_def)

lemma resolve_port_keeps: "resolve_port S w a p = (Inr q, w') \<Longrightarrow> p \<noteq> 0 \<Longrightarrow> q = p"
  by (simp add: resolve_port_def)

lemma resolve_ssh_ConsE:
  assumes "resolve_ssh S w (f # fs) = (Inr (gs, ms), w')"
  obtains q w1 hs ns where
    "resolve_port S w (default_addr (sf_ListenAddress f)) (sf_ListenPort f) = (Inr q, w1)"
    "resolve_ssh S w1 fs = (Inr (hs, ns), w')"
    "gs = f\<lparr>sf_ListenPort := q\<rparr> # hs"
    "ms = \<lparr>pm_LocalAddress = default_addr (sf_ListenAddress f), pm_ConfiguredPort = sf_ListenPort f,
           pm_ActualPort = q, pm_RemotePort = sf_TargetPort f\<rparr> # ns"
proof -
  obtain r1 w1 where r: "resolve_port S w (default_addr (sf_ListenAddress f)) (sf_ListenPort f) = (r1, w1)"
    by force
  with assms obtain q where q: "r1 = Inr q"
    by (cases r1) (auto simp: Let_def)
  obtain r2 w2 where r2: "resolve_ssh S w1 fs = (r2, w2)"
    by force
  with assms r q obtain hs ns where "r2 = Inr (hs, ns)"
    by (cases r2) (auto simp: Let_def)
  with assms r q r2 that show thesis
    by (auto simp: Let_def)
qed

lemma resolve_ssh_resolution:
  "resolve_ssh S w fs = (Inr (gs, ms), w') \<Longrightarrow>
     resolution (map ssh_fwd fs) (map ssh_fwd gs) ms"
proof (induction fs arbitrary: w gs ms)
  case (Cons f fs)
  from Cons.prems show ?case
    by (rule resolve_ssh_ConsE)
       (auto simp: resolves_to_def ssh_fwd_def dest: resolve_port_keeps Cons.IH)
qed simp

lemma resolve_kubectl_ConsE:
  assumes "resolve_kubectl S w (f # fs) = (Inr (gs, ms), w')"
  obtains q w1 hs ns where
    "resolve_port S w (default_addr (kf_LocalAddress f)) (kf_LocalPort f) = (Inr q, w1)"
    "resolve_kubectl S w1 fs = (Inr (hs, ns), w')"
    "gs = f\<lparr>kf_LocalPort := q\<rparr> # hs"
    "ms = \<lparr>pm_LocalAddress = default_addr (kf_LocalAddress f), pm_ConfiguredPort = kf_LocalPort f,
           pm_ActualPort = q, pm_RemotePort = kf_RemotePort f\<rparr> # ns"
proof -
  obtain r1 w1 where r: "resolve_port S w (default_addr (kf_LocalAddress f)) (kf_LocalPort f) = (r1, w1)"
    by force
  with assms obtain q where q: "r1 = Inr q"
    by (cases r1) (auto simp: Let_def)
  obtain r2 w2 where r2: "resolve_kubectl S w1 fs = (r2, w2)"
    by force
  with assms r q obtain hs ns where "r2 = Inr (hs, ns)"
    by (cases r2) (auto simp: Let_def)
  with assms r q r2 that show thesis
    by (auto simp: Let_def)
qed

lemma resolve_kubectl_resolution:
  "resolve_kubectl S w fs = (Inr (gs, ms), w') \<Longrightarrow>
     resolution (map kubectl_fwd fs) (map kubectl_fwd gs) ms"
proof (induction fs arbitrary: w gs ms)
  case (Cons f fs)
  from Cons.prems show ?case
    by (rule resolve_kubectl_ConsE)
       (auto simp: resolves_to_def kubectl_fwd_def dest: resolve_port_keeps Cons.IH)
qed simp

text \<open>Everything of a spec but the local ports of its forwards.\<close>

definition erase_ports :: "TunnelSpec \<Rightarrow> TunnelSpec" where
  "erase_ports spec =
    (case ts_Type spec of
       Some (TunnelSpec_Ssh s) \<Rightarrow> spec\<lparr>ts_Type := Some (TunnelSpec_Ssh
         (s\<lparr>ssh_LocalForwards := map (\<lambda>f. f\<lparr>sf_ListenPort := 0\<rparr>) (ssh_LocalForwards s)\<rparr>))\<rparr>
     | Some (TunnelSpec_Kubectl k) \<Rightarrow> spec\<lparr>ts_Type := Some (TunnelSpec_Kubectl
         (k\<lparr>kc_Forwards := map (\<lambda>f. f\<lparr>kf_LocalPort := 0\<rparr>) (kc_Forwards k)\<rparr>))\<rparr>
     | None \<Rightarrow> spec)"

lemma resolve_ssh_erase:
  "resolve_ssh S w fs = (Inr (gs, ms), w') \<Longrightarrow>
     map (\<lambda>f. f\<lparr>sf_ListenPort := 0\<rparr>) gs = map (\<lambda>f. f\<lparr>sf_ListenPort := 0\<rparr>) fs"
proof (induction fs arbitrary: w gs ms)
  case (Cons f fs)
  from Cons.prems show ?case
    by (rule resolve_ssh_ConsE) (auto dest: Cons.IH)
qed simp

lemma resolve_kubectl_erase:
  "resolve_kubectl S w fs = (Inr (gs, ms), w') \<Longrightarrow>
     map (\<lambda>f. f\<lparr>kf_LocalPort := 0\<rparr>) gs = map (\<lambda>f. f\<lparr>kf_LocalPort := 0\<rparr>) fs"
proof (induction fs arbitrary: w gs ms)
  case (Cons f fs)
  from Cons.prems show ?case
    by (rule resolve_kubectl_ConsE) (auto dest: Cons.IH)
qed simp

lemma resolve_ssh_static:
  "\<forall>f \<in> set fs. sf_ListenPort f \<noteq> 0 \<Longrightarrow> \<exists>ms. resolve_ssh S w fs = (Inr (fs, ms), w)"
  by (induction fs) (auto simp: Let_def resolve_port_nonzero)

lemma resolve_kubectl_static:
  "\<forall>f \<in> set fs. kf_LocalPort f \<noteq> 0 \<Longrightarrow> \<exists>ms. resolve_kubectl S w fs = (Inr (fs, ms), w)"
  by (induction fs) (auto simp: Let_def resolve_port_nonzero)

lemma ResolvePorts_cases:
  assumes "ResolvePortsInProto S w spec = (Inr (spec', ms), w')"
  obtains (ssh) s fs where "ts_Type spec = Some (TunnelSpec_Ssh s)"
      "resolve_ssh S w (ssh_LocalForwards s) = (Inr (fs, ms), w')"
      "spec' = spec\<lparr>ts_Type := Some (TunnelSpec_Ssh (s\<lparr>ssh_LocalForwards := fs\<rparr>))\<rparr>"
  | (kubectl) k fs where "ts_Type spec = Some (TunnelSpec_Kubectl k)"
      "resolve_kubectl S w (kc_Forwards k) = (Inr (fs, ms), w')"
      "spec' = spec\<lparr>ts_Type := Some (TunnelSpec_Kubectl (k\<lparr>kc_Forwards := fs\<rparr>))\<rparr>"
  | (none) "ts_Type spec = None" "spec' = spec" "ms = []" "w' = w"
proof (cases "ts_Type spec")
  case None
  with assms have "spec' = spec" "ms = []" "w' = w"
    by (simp_all add: ResolvePortsInProto_def)
  then show thesis
    by (rule none [OF None])
next
  case (Some t)
  show thesis
  proof (cases t)
    case (TunnelSpec_Ssh s)
    obtain r w2 where r: "resolve_ssh S w (ssh_LocalForwards s) = (r, w2)"
      by force
    with Some assms TunnelSpec_Ssh obtain fs where fs:
      "r = Inr (fs, ms)" "w2 = w'"
      "spec' = spec\<lparr>ts_Type := Some (TunnelSpec_Ssh (s\<lparr>ssh_LocalForwards := fs\<rparr>))\<rparr>"
      by (cases r) (auto simp: ResolvePortsInProto_def)
    from Some TunnelSpec_Ssh r fs show thesis
      by (intro ssh) simp_all
  next
    case (TunnelSpec_Kubectl k)
    obtain r w2 where r: "resolve_kubectl S w (kc_Forwards k) = (r, w2)"
      by force
    with Some assms TunnelSpec_Kubectl obtain fs where fs:
      "r = Inr (fs, ms)" "w2 = w'"
      "spec' = spec\<lparr>ts_Type := Some (TunnelSpec_Kubectl (k\<lparr>kc_Forwards := fs\<rparr>))\<rparr>"
      by (cases r) (auto simp: ResolvePortsInProto_def)
    from Some TunnelSpec_Kubectl r fs show thesis
      by (intro kubectl) simp_all
  qed
qed

lemma ResolvePorts_resolution:
  assumes "ResolvePortsInProto S w spec = (Inr (spec', ms), w')"
  shows "resolution (forwards spec) (forwards spec') ms"
  using assms
  by (cases rule: ResolvePorts_cases)
     (auto simp: forwards_def dest: resolve_ssh_resolution resolve_kubectl_resolution)

lemma ResolvePorts_erase:
  assumes "ResolvePortsInProto S w spec = (Inr (spec', ms), w')"
  shows "erase_ports spec' = erase_ports spec"
  using assms
proof (cases rule: ResolvePorts_cases)
  case (ssh s fs)
  then show ?thesis
    by (simp add: erase_ports_def resolve_ssh_erase [OF ssh(2)])
next
  case (kubectl k fs)
  then show ?thesis
    by (simp add: erase_ports_def resolve_kubectl_erase [OF kubectl(2)])
qed simp

lemma resolution_length:
  "resolution fs gs ms \<Longrightarrow> length gs = length fs \<and> length ms = length fs"
  by (induction fs gs ms rule: resolution.induct) auto

text \<open>The keys of a spec, through its forwards.\<close>

definition fwd_key :: "fwd \<Rightarrow> string" where
  "fwd_key f = JoinHostPort (fst f) (dec32 (fst (snd f)))"

lemma LocalPortKeys_forwards:
  "LocalPortKeys spec = map fwd_key (filter (\<lambda>f. fst (snd f) \<noteq> 0) (forwards spec))"
  by (auto simp: LocalPortKeys_def forwards_def ssh_keys_def kubectl_keys_def port_key_def
      fwd_key_def ssh_fwd_def kubectl_fwd_def filter_map comp_def
      split: option.splits tunnel_type.splits)

lemma fwd_key_inject: "fwd_key f = fwd_key g \<longleftrightarrow> fst f = fst g \<and> fst (snd f) = fst (snd g)"
  using dec32_chars [of "fst (snd f)"] dec32_chars [of "fst (snd g)"]
  by (simp add: fwd_key_def JoinHostPort_inject)

lemma claim_keys_ok:
  "claim_keys msg nm ks seen = Inr seen' \<longleftrightarrow>
     distinct ks \<and> set ks \<inter> dom seen = {} \<and> seen' = (\<lambda>k. if k \<in> set ks then Some nm else seen k)"
  by (induction ks arbitrary: seen) (auto split: option.splits simp: fun_eq_iff)

lemma claim_keys_dom: "claim_keys msg nm ks seen = Inr seen' \<Longrightarrow> dom seen' = set ks \<union> dom seen"
  by (auto simp: claim_keys_ok dom_def)

lemma claim_all_None:
  "claim_all msg xs seen = None \<longleftrightarrow>
     distinct (concat (map snd xs)) \<and> set (concat (map snd xs)) \<inter> dom seen = {}"
proof (induction xs arbitrary: seen)
  case (Cons x xs)
  show ?case
  proof (cases "claim_keys msg (fst x) (snd x) seen")
    case (Inl e)
    then have "\<not> (distinct (snd x) \<and> set (snd x) \<inter> dom seen = {})"
      using claim_keys_ok [of msg "fst x" "snd x" seen] by (metis sum.distinct(1))
    then show ?thesis
      using Inl by auto
  next
    case (Inr seen')
    then have "distinct (snd x)" "set (snd x) \<inter> dom seen = {}"
      by (simp_all add: claim_keys_ok)
    then show ?thesis
      using Inr Cons.IH [of seen'] claim_keys_dom [OF Inr] by auto
  qed
qed simp

lemma distinct_concat_iff:
  "distinct xs \<Longrightarrow> distinct (concat (map f xs)) \<longleftrightarrow>
     (\<forall>x \<in> set xs. distinct (f x)) \<and>
     (\<forall>x \<in> set xs. \<forall>y \<in> set xs. x \<noteq> y \<longrightarrow> set (f x) \<inter> set (f y) = {})"
proof (induction xs)
  case (Cons x xs)
  then have IH: "distinct (concat (map f xs)) \<longleftrightarrow> (\<forall>x \<in> set xs. distinct (f x)) \<and>
      (\<forall>x \<in> set xs. \<forall>y \<in> set xs. x \<noteq> y \<longrightarrow> set (f x) \<inter> set (f y) = {})"
    and x: "x \<notin> set xs"
    by auto
  have step: "distinct (concat (map f (x # xs))) \<longleftrightarrow>
      distinct (f x) \<and> distinct (concat (map f xs)) \<and> (\<forall>y \<in> set xs. set (f x) \<inter> set (f y) = {})"
    by auto
  have "x \<noteq> y" if "y \<in> set xs" for y
    using x that by auto
  then show ?case
    unfolding step IH by (simp add: Int_commute) blast
qed simp

section \<open>Properties\<close>

text \<open>
  a successful \<open>ResolvePortsInProto\<close> changes only the local ports of the forwards: a
  configured port stays, a zero port becomes the one the system gave, and there is one
  mapping per forward, in order, with the address after the default, the configured, the
  actual and the remote port.
\<close>

theorem ResolvePorts_correct:
  assumes "ResolvePortsInProto S w spec = (Inr (spec', ms), w')"
  shows "erase_ports spec' = erase_ports spec \<and> resolution (forwards spec) (forwards spec') ms"
  using ResolvePorts_erase [OF assms] ResolvePorts_resolution [OF assms] by simp

definition demo_ssh :: SSHSpec where
  "demo_ssh = \<lparr>ssh_User = ''u'', ssh_Host = ''h'', ssh_Port = 22, ssh_IdentityKeyFile = [],
     ssh_LocalForwards =
       [\<lparr>sf_ListenAddress = [], sf_ListenPort = 0, sf_TargetHost = ''t'', sf_TargetPort = 80\<rparr>,
        \<lparr>sf_ListenAddress = ''::1'', sf_ListenPort = 8080, sf_TargetHost = ''t'', sf_TargetPort = 81\<rparr>],
     ssh_Options = Map.empty, ssh_IdentityKeyRef = []\<rparr>"

definition demo_spec :: TunnelSpec where
  "demo_spec = \<lparr>ts_Name = ''a'', ts_DependsOn = [], ts_Type = Some (TunnelSpec_Ssh demo_ssh),
     ts_Health = None, ts_Restart = None, ts_StartupTimeout = None, ts_ShutdownTimeout = None\<rparr>"

theorem ResolvePorts_correct_witness:
  "\<exists>spec' ms w'. ResolvePortsInProto mem_os mem0 demo_spec = (Inr (spec', ms), w') \<and>
     map pm_ActualPort ms = [40001, 8080] \<and>
     erase_ports spec' = erase_ports demo_spec \<and> resolution (forwards demo_spec) (forwards spec') ms"
proof -
  have "\<exists>spec' ms w'. ResolvePortsInProto mem_os mem0 demo_spec = (Inr (spec', ms), w') \<and>
     map pm_ActualPort ms = [40001, 8080]" (is "\<exists>spec' ms w'. ?R spec' ms w' \<and> ?P ms")
    by (simp add: ResolvePortsInProto_def demo_spec_def demo_ssh_def Let_def resolve_port_def
        allocatePort_def mem_listen_def mem0_def to_int32_def)
  then obtain spec' ms w' where run: "?R spec' ms w'" and ports: "?P ms"
    by (elim exE conjE)
  show ?thesis
    by (intro exI conjI) (rule run, rule ports, use ResolvePorts_correct [OF run] in simp_all)
qed

text \<open>A system that never hands out port 0.\<close>

definition real_ports :: "'w os \<Rightarrow> bool" where
  "real_ports S \<longleftrightarrow> (\<forall>w a p w'. os_listen S w a = (Inr p, w') \<longrightarrow> to_int32 p \<noteq> 0)"

lemma resolve_port_assigned:
  assumes "real_ports S" and "resolve_port S w a p = (Inr q, w')"
  shows "q \<noteq> 0"
  using assms
  by (auto simp: resolve_port_def allocatePort_def real_ports_def split: if_splits prod.splits sum.splits)

lemma resolve_ssh_assigned:
  assumes "real_ports S"
  shows "resolve_ssh S w fs = (Inr (gs, ms), w') \<Longrightarrow> \<forall>g \<in> set gs. sf_ListenPort g \<noteq> 0"
proof (induction fs arbitrary: w gs ms)
  case (Cons f fs)
  from Cons.prems show ?case
    by (rule resolve_ssh_ConsE) (auto dest: Cons.IH resolve_port_assigned [OF assms])
qed simp

lemma resolve_kubectl_assigned:
  assumes "real_ports S"
  shows "resolve_kubectl S w fs = (Inr (gs, ms), w') \<Longrightarrow> \<forall>g \<in> set gs. kf_LocalPort g \<noteq> 0"
proof (induction fs arbitrary: w gs ms)
  case (Cons f fs)
  from Cons.prems show ?case
    by (rule resolve_kubectl_ConsE) (auto dest: Cons.IH resolve_port_assigned [OF assms])
qed simp

text \<open>
  where the system never hands out port 0, every forward of the resolved spec has a
  local port, and resolving the resolved spec again changes nothing and asks the system for
  nothing.
\<close>

theorem ResolvePorts_stable:
  assumes port: "real_ports S"
    and ok: "ResolvePortsInProto S w spec = (Inr (spec', ms), w')"
  shows "(\<forall>f \<in> set (forwards spec'). fst (snd f) \<noteq> 0) \<and>
    (\<exists>ms'. ResolvePortsInProto S v spec' = (Inr (spec', ms'), v))"
  using ok
proof (cases rule: ResolvePorts_cases)
  case (ssh s fs)
  from resolve_ssh_assigned [OF port ssh(2)] have nz: "\<forall>g \<in> set fs. sf_ListenPort g \<noteq> 0" .
  with ssh(3) show ?thesis
    using resolve_ssh_static [OF nz, of S v]
    by (auto simp: forwards_def ssh_fwd_def ResolvePortsInProto_def)
next
  case (kubectl k fs)
  from resolve_kubectl_assigned [OF port kubectl(2)] have nz: "\<forall>g \<in> set fs. kf_LocalPort g \<noteq> 0" .
  with kubectl(3) show ?thesis
    using resolve_kubectl_static [OF nz, of S v]
    by (auto simp: forwards_def kubectl_fwd_def ResolvePortsInProto_def)
next
  case none
  then show ?thesis
    by (simp add: forwards_def ResolvePortsInProto_def)
qed

text \<open>A system whose listener always gets port 40001.\<close>

definition const_os :: "mem os" where
  "const_os = mem_os\<lparr>os_listen := (\<lambda>w a. (Inr 40001, w))\<rparr>"

theorem ResolvePorts_stable_witness:
  "\<exists>spec' ms w'. ResolvePortsInProto const_os mem0 demo_spec = (Inr (spec', ms), w') \<and>
     (\<forall>f \<in> set (forwards spec'). fst (snd f) \<noteq> 0) \<and>
     (\<exists>ms'. ResolvePortsInProto const_os w' spec' = (Inr (spec', ms'), w'))"
proof -
  have "real_ports const_os"
    by (simp add: real_ports_def const_os_def to_int32_def)
  moreover have "\<exists>spec' ms w'. ResolvePortsInProto const_os mem0 demo_spec = (Inr (spec', ms), w')"
    by (simp add: ResolvePortsInProto_def demo_spec_def demo_ssh_def Let_def resolve_port_def
        allocatePort_def const_os_def to_int32_def)
  then obtain spec' ms w' where
    run: "ResolvePortsInProto const_os mem0 demo_spec = (Inr (spec', ms), w')"
    by blast
  ultimately show ?thesis
    using ResolvePorts_stable [OF _ run] by blast
qed

text \<open>
  two specs share a key of \<open>LocalPortKeys\<close> exactly when they claim the same local
  address, after the default, with the same non-zero port: the textual form of the key
  (\<open>JoinHostPort\<close> and decimal digits) neither merges nor splits claims.
\<close>

theorem LocalPortKeys_conflict_iff:
  "set (LocalPortKeys p) \<inter> set (LocalPortKeys q) \<noteq> {} \<longleftrightarrow>
   (\<exists>f \<in> set (forwards p). \<exists>g \<in> set (forwards q).
      fst f = fst g \<and> fst (snd f) = fst (snd g) \<and> fst (snd f) \<noteq> 0)"
proof -
  have "set (LocalPortKeys p) \<inter> set (LocalPortKeys q) \<noteq> {} \<longleftrightarrow>
    (\<exists>f \<in> set (forwards p). \<exists>g \<in> set (forwards q).
       fst (snd f) \<noteq> 0 \<and> fst (snd g) \<noteq> 0 \<and> fwd_key f = fwd_key g)"
    unfolding LocalPortKeys_forwards set_map images_meet_iff mem_filter_iff by metis
  also have "\<dots> \<longleftrightarrow> (\<exists>f \<in> set (forwards p). \<exists>g \<in> set (forwards q).
      fst f = fst g \<and> fst (snd f) = fst (snd g) \<and> fst (snd f) \<noteq> 0)"
    unfolding fwd_key_inject by (intro bex_cong refl) auto
  finally show ?thesis .
qed

end
