(* ===== verification/Tunnel_Specs.thy ===== *)
theory Tunnel_Specs
  imports Ports
begin

text \<open>
  \<open>internal/tunnel/spec.go\<close>, \<open>ssh.go\<close> and \<open>kubectl.go\<close>: the \<open>Spec\<close> interface, its two
  implementations and the command lines they build. The interface is a locale that both
  implementations interpret; a value of the interface type is \<open>Spec\<close>, whose method calls
  dispatch on the implementation.
\<close>

section \<open>Status\<close>

datatype Status = StatusStopped | StatusStarting | StatusRunning | StatusDegraded | StatusFailed

fun status_string :: "Status \<Rightarrow> string" where
  "status_string StatusStopped = ''stopped''"
| "status_string StatusStarting = ''starting''"
| "status_string StatusRunning = ''running''"
| "status_string StatusDegraded = ''degraded''"
| "status_string StatusFailed = ''failed''"

section \<open>The SSH implementation\<close>

type_synonym cmd = "string \<times> string list"

datatype SSHSpecS = SSHSpecS (ssh_pbSpec: TunnelSpec)

record SSHForwardArg =
  sfa_ListenAddress :: string
  sfa_ListenPort :: gint
  sfa_TargetHost :: string
  sfa_TargetPort :: gint

definition NewSSHSpec :: "duration_ops \<Rightarrow> string \<Rightarrow> string list \<Rightarrow> string \<Rightarrow> string \<Rightarrow> gint \<Rightarrow> string \<Rightarrow>
    string \<Rightarrow> SSHForwardArg list \<Rightarrow> (string \<rightharpoonup> string) \<Rightarrow> HealthCheckSpec option \<Rightarrow>
    RestartPolicySpec option \<Rightarrow> duration \<Rightarrow> duration \<Rightarrow> SSHSpecS" where
  "NewSSHSpec D nm dependsOn user host port identityKeyFile identityKeyRef fwds options health restart
     startup shutdown =
    SSHSpecS
     \<lparr>ts_Name = nm, ts_DependsOn = dependsOn,
      ts_Type = Some (TunnelSpec_Ssh
        \<lparr>ssh_User = user, ssh_Host = host, ssh_Port = to_int32 port,
         ssh_IdentityKeyFile = identityKeyFile,
         ssh_LocalForwards = map (\<lambda>f. \<lparr>sf_ListenAddress = sfa_ListenAddress f,
            sf_ListenPort = to_int32 (sfa_ListenPort f), sf_TargetHost = sfa_TargetHost f,
            sf_TargetPort = to_int32 (sfa_TargetPort f)\<rparr>) fwds,
         ssh_Options = options, ssh_IdentityKeyRef = identityKeyRef\<rparr>),
      ts_Health = health, ts_Restart = restart,
      ts_StartupTimeout = Some (dnew D startup), ts_ShutdownTimeout = Some (dnew D shutdown)\<rparr>"

definition SSHSpec_Name :: "SSHSpecS \<Rightarrow> string" where
  "SSHSpec_Name s = ts_Name (ssh_pbSpec s)"

definition SSHSpec_Type :: "SSHSpecS \<Rightarrow> string" where
  "SSHSpec_Type s = ''ssh''"

definition SSHSpec_Dependencies :: "SSHSpecS \<Rightarrow> string list" where
  "SSHSpec_Dependencies s = ts_DependsOn (ssh_pbSpec s)"

definition SSHSpec_HealthCheck :: "SSHSpecS \<Rightarrow> HealthCheckSpec option" where
  "SSHSpec_HealthCheck s = ts_Health (ssh_pbSpec s)"

definition SSHSpec_RestartPolicy :: "SSHSpecS \<Rightarrow> RestartPolicySpec option" where
  "SSHSpec_RestartPolicy s = ts_Restart (ssh_pbSpec s)"

definition SSHSpec_StartupTimeout :: "duration_ops \<Rightarrow> SSHSpecS \<Rightarrow> duration" where
  "SSHSpec_StartupTimeout D s = das D (ts_StartupTimeout (ssh_pbSpec s))"

definition SSHSpec_ShutdownTimeout :: "duration_ops \<Rightarrow> SSHSpecS \<Rightarrow> duration" where
  "SSHSpec_ShutdownTimeout D s = das D (ts_ShutdownTimeout (ssh_pbSpec s))"

definition SSHSpec_ToProto :: "SSHSpecS \<Rightarrow> TunnelSpec" where
  "SSHSpec_ToProto s = ssh_pbSpec s"

definition identity_path :: "string \<Rightarrow> SSHSpec \<Rightarrow> string" where
  "identity_path keyDir s =
    (if ssh_IdentityKeyFile s \<noteq> [] then ssh_IdentityKeyFile s
     else if ssh_IdentityKeyRef s \<noteq> [] then Join2 keyDir (ssh_IdentityKeyRef s)
     else [])"

definition ssh_forward_arg :: "SSHForward \<Rightarrow> string" where
  "ssh_forward_arg f =
    default_addr (sf_ListenAddress f) @ '':'' @ dec32 (sf_ListenPort f) @ '':''
      @ sf_TargetHost f @ '':'' @ dec32 (sf_TargetPort f)"

definition ssh_dest :: "SSHSpec \<Rightarrow> string" where
  "ssh_dest s = (if ssh_User s \<noteq> [] then ssh_User s @ ''@'' @ ssh_Host s else ssh_Host s)"

text \<open>\<open>opts\<close> is the order in which the loop over the options visits them.\<close>

definition ssh_args :: "string \<Rightarrow> (string \<times> string) list \<Rightarrow> SSHSpec \<Rightarrow> string list" where
  "ssh_args path opts s =
    [''-N'', ''-o'', ''BatchMode=yes'']
    @ (if \<exists>kv \<in> set opts. fst kv = ''StrictHostKeyChecking'' then []
       else [''-o'', ''StrictHostKeyChecking=accept-new''])
    @ (if ssh_Port s \<noteq> 0 \<and> ssh_Port s \<noteq> 22 then [''-p'', dec32 (ssh_Port s)] else [])
    @ (if path \<noteq> [] then [''-i'', path] else [])
    @ concat (map (\<lambda>kv. [''-o'', fst kv @ ''='' @ snd kv]) opts)
    @ concat (map (\<lambda>f. [''-L'', ssh_forward_arg f]) (ssh_LocalForwards s))
    @ [ssh_dest s]"

definition SSHSpec_BuildCommand ::
    "'w os \<Rightarrow> 'w \<Rightarrow> string \<Rightarrow> (string \<times> string) list \<Rightarrow> SSHSpecS \<Rightarrow> (err + cmd) go" where
  "SSHSpec_BuildCommand S w keyDir opts sp =
    (case GetSsh (ssh_pbSpec sp) of
       None \<Rightarrow> Panic
     | Some s \<Rightarrow>
        (let path = identity_path keyDir s in
         case (if path \<noteq> [] then os_stat S w path else None) of
           Some e \<Rightarrow> Ret (Inl (''identity key '' @ quote path @ '' not found: '' @ e))
         | None \<Rightarrow>
            (case (if path \<noteq> [] then os_openread S w path else None) of
               Some e \<Rightarrow> Ret (Inl (''identity key '' @ quote path @ '' is not readable: '' @ file_err_msg e))
             | None \<Rightarrow> Ret (Inr (''ssh'', ssh_args path opts s)))))"

section \<open>The kubectl implementation\<close>

datatype KubectlSpecS = KubectlSpecS (kubectl_pbSpec: TunnelSpec)

record KubectlForwardArg =
  kfa_LocalAddress :: string
  kfa_LocalPort :: gint
  kfa_RemotePort :: gint

definition NewKubectlSpec :: "duration_ops \<Rightarrow> string \<Rightarrow> string list \<Rightarrow> string \<Rightarrow> string \<Rightarrow> string \<Rightarrow> string \<Rightarrow>
    string \<Rightarrow> KubectlForwardArg list \<Rightarrow> string \<Rightarrow> bool \<Rightarrow> HealthCheckSpec option \<Rightarrow>
    RestartPolicySpec option \<Rightarrow> duration \<Rightarrow> duration \<Rightarrow> KubectlSpecS" where
  "NewKubectlSpec D nm dependsOn kubeconfigFile kubeconfigRef ctx namespace resource fwds apiServer
     skipTLS health restart startup shutdown =
    KubectlSpecS
     \<lparr>ts_Name = nm, ts_DependsOn = dependsOn,
      ts_Type = Some (TunnelSpec_Kubectl
        \<lparr>kc_KubeconfigRef = kubeconfigRef, kc_Context = ctx, kc_Namespace = namespace,
         kc_Resource = resource,
         kc_Forwards = map (\<lambda>f. \<lparr>kf_LocalAddress = kfa_LocalAddress f,
            kf_LocalPort = to_int32 (kfa_LocalPort f),
            kf_RemotePort = to_int32 (kfa_RemotePort f)\<rparr>) fwds,
         kc_ApiServer = apiServer, kc_InsecureSkipTlsVerify = skipTLS,
         kc_KubeconfigFile = kubeconfigFile\<rparr>),
      ts_Health = health, ts_Restart = restart,
      ts_StartupTimeout = Some (dnew D startup), ts_ShutdownTimeout = Some (dnew D shutdown)\<rparr>"

definition KubectlSpec_Name :: "KubectlSpecS \<Rightarrow> string" where
  "KubectlSpec_Name s = ts_Name (kubectl_pbSpec s)"

definition KubectlSpec_Type :: "KubectlSpecS \<Rightarrow> string" where
  "KubectlSpec_Type s = ''kubectl''"

definition KubectlSpec_Dependencies :: "KubectlSpecS \<Rightarrow> string list" where
  "KubectlSpec_Dependencies s = ts_DependsOn (kubectl_pbSpec s)"

definition KubectlSpec_HealthCheck :: "KubectlSpecS \<Rightarrow> HealthCheckSpec option" where
  "KubectlSpec_HealthCheck s = ts_Health (kubectl_pbSpec s)"

definition KubectlSpec_RestartPolicy :: "KubectlSpecS \<Rightarrow> RestartPolicySpec option" where
  "KubectlSpec_RestartPolicy s = ts_Restart (kubectl_pbSpec s)"

definition KubectlSpec_StartupTimeout :: "duration_ops \<Rightarrow> KubectlSpecS \<Rightarrow> duration" where
  "KubectlSpec_StartupTimeout D s = das D (ts_StartupTimeout (kubectl_pbSpec s))"

definition KubectlSpec_ShutdownTimeout :: "duration_ops \<Rightarrow> KubectlSpecS \<Rightarrow> duration" where
  "KubectlSpec_ShutdownTimeout D s = das D (ts_ShutdownTimeout (kubectl_pbSpec s))"

definition KubectlSpec_ToProto :: "KubectlSpecS \<Rightarrow> TunnelSpec" where
  "KubectlSpec_ToProto s = kubectl_pbSpec s"

definition kubeconfig_path :: "string \<Rightarrow> KubectlSpec \<Rightarrow> string" where
  "kubeconfig_path keyDir k =
    (if kc_KubeconfigFile k \<noteq> [] then kc_KubeconfigFile k
     else if kc_KubeconfigRef k \<noteq> [] then Join2 keyDir (kc_KubeconfigRef k)
     else [])"

definition kubectl_forward_arg :: "KubectlForward \<Rightarrow> string" where
  "kubectl_forward_arg f = dec32 (kf_LocalPort f) @ '':'' @ dec32 (kf_RemotePort f)"

definition kubectl_args :: "string \<Rightarrow> KubectlSpec \<Rightarrow> string list" where
  "kubectl_args path k =
    (if path \<noteq> [] then [''--kubeconfig'', path] else [])
    @ (if kc_Context k \<noteq> [] then [''--context'', kc_Context k] else [])
    @ (if kc_ApiServer k \<noteq> [] then [''--server'', kc_ApiServer k] else [])
    @ (if kc_InsecureSkipTlsVerify k then [''--insecure-skip-tls-verify=true''] else [])
    @ (if kc_Namespace k \<noteq> [] then [''-n'', kc_Namespace k] else [])
    @ [''port-forward'']
    @ (case kc_Forwards k of
         [] \<Rightarrow> []
       | f # _ \<Rightarrow> if kf_LocalAddress f \<noteq> [] then [''--address'', kf_LocalAddress f] else [])
    @ [kc_Resource k]
    @ map kubectl_forward_arg (kc_Forwards k)"

definition KubectlSpec_BuildCommand ::
    "'w os \<Rightarrow> 'w \<Rightarrow> string \<Rightarrow> (string \<times> string) list \<Rightarrow> KubectlSpecS \<Rightarrow> (err + cmd) go" where
  "KubectlSpec_BuildCommand S w keyDir opts sp =
    (case GetKubectl (kubectl_pbSpec sp) of
       None \<Rightarrow> Panic
     | Some k \<Rightarrow> Ret (Inr (''kubectl'', kubectl_args (kubeconfig_path keyDir k) k)))"

section \<open>Values of the interface\<close>

datatype Spec = SSH_Spec SSHSpecS | Kubectl_Spec KubectlSpecS

fun spec_Name :: "Spec \<Rightarrow> string" where
  "spec_Name (SSH_Spec s) = SSHSpec_Name s"
| "spec_Name (Kubectl_Spec s) = KubectlSpec_Name s"

fun spec_Type :: "Spec \<Rightarrow> string" where
  "spec_Type (SSH_Spec s) = SSHSpec_Type s"
| "spec_Type (Kubectl_Spec s) = KubectlSpec_Type s"

fun spec_Dependencies :: "Spec \<Rightarrow> string list" where
  "spec_Dependencies (SSH_Spec s) = SSHSpec_Dependencies s"
| "spec_Dependencies (Kubectl_Spec s) = KubectlSpec_Dependencies s"

fun spec_HealthCheck :: "Spec \<Rightarrow> HealthCheckSpec option" where
  "spec_HealthCheck (SSH_Spec s) = SSHSpec_HealthCheck s"
| "spec_HealthCheck (Kubectl_Spec s) = KubectlSpec_HealthCheck s"

fun spec_RestartPolicy :: "Spec \<Rightarrow> RestartPolicySpec option" where
  "spec_RestartPolicy (SSH_Spec s) = SSHSpec_RestartPolicy s"
| "spec_RestartPolicy (Kubectl_Spec s) = KubectlSpec_RestartPolicy s"

fun spec_StartupTimeout :: "duration_ops \<Rightarrow> Spec \<Rightarrow> duration" where
  "spec_StartupTimeout D (SSH_Spec s) = SSHSpec_StartupTimeout D s"
| "spec_StartupTimeout D (Kubectl_Spec s) = KubectlSpec_StartupTimeout D s"

fun spec_ShutdownTimeout :: "duration_ops \<Rightarrow> Spec \<Rightarrow> duration" where
  "spec_ShutdownTimeout D (SSH_Spec s) = SSHSpec_ShutdownTimeout D s"
| "spec_ShutdownTimeout D (Kubectl_Spec s) = KubectlSpec_ShutdownTimeout D s"

fun spec_ToProto :: "Spec \<Rightarrow> TunnelSpec" where
  "spec_ToProto (SSH_Spec s) = SSHSpec_ToProto s"
| "spec_ToProto (Kubectl_Spec s) = KubectlSpec_ToProto s"

fun spec_BuildCommand ::
    "'w os \<Rightarrow> 'w \<Rightarrow> string \<Rightarrow> (string \<times> string) list \<Rightarrow> Spec \<Rightarrow> (err + cmd) go" where
  "spec_BuildCommand S w keyDir opts (SSH_Spec s) = SSHSpec_BuildCommand S w keyDir opts s"
| "spec_BuildCommand S w keyDir opts (Kubectl_Spec s) = KubectlSpec_BuildCommand S w keyDir opts s"

definition FromProto :: "TunnelSpec \<Rightarrow> err + Spec" where
  "FromProto p =
    (case ts_Type p of
       Some (TunnelSpec_Ssh s) \<Rightarrow> Inr (SSH_Spec (SSHSpecS p))
     | Some (TunnelSpec_Kubectl k) \<Rightarrow> Inr (Kubectl_Spec (KubectlSpecS p))
     | None \<Rightarrow> Inl ''unknown tunnel type'')"

section \<open>The interface as a locale\<close>

text \<open>
  What the planner, the process and the supervisor rely on: a spec is a view of the message
  it was made from, and the message determines it. \<open>kind\<close> says which messages belong to the
  implementation, \<open>wrap\<close> and \<open>unwrap\<close> are its struct.
\<close>

locale spec_interface =
  fixes kind :: "TunnelSpec \<Rightarrow> bool"
    and wrap :: "TunnelSpec \<Rightarrow> 's"
    and unwrap :: "'s \<Rightarrow> TunnelSpec"
    and embed :: "'s \<Rightarrow> Spec"
    and D :: duration_ops
  assumes unwrap_wrap: "unwrap (wrap p) = p"
    and wrap_unwrap: "wrap (unwrap s) = s"
    and from_proto: "kind p \<Longrightarrow> FromProto p = Inr (embed (wrap p))"
    and to_proto: "spec_ToProto (embed s) = unwrap s"
    and nm: "spec_Name (embed s) = ts_Name (unwrap s)"
    and deps: "spec_Dependencies (embed s) = ts_DependsOn (unwrap s)"
    and health: "spec_HealthCheck (embed s) = ts_Health (unwrap s)"
    and restart: "spec_RestartPolicy (embed s) = ts_Restart (unwrap s)"
    and startup: "spec_StartupTimeout D (embed s) = das D (ts_StartupTimeout (unwrap s))"
    and shutdown: "spec_ShutdownTimeout D (embed s) = das D (ts_ShutdownTimeout (unwrap s))"
begin

lemma rebuild: "kind (unwrap s) \<Longrightarrow> FromProto (spec_ToProto (embed s)) = Inr (embed s)"
  by (simp add: to_proto from_proto wrap_unwrap)

lemma answers:
  assumes "kind p" "FromProto p = Inr t"
  shows "spec_ToProto t = p" "spec_Name t = ts_Name p" "spec_Dependencies t = ts_DependsOn p"
    "spec_HealthCheck t = ts_Health p" "spec_RestartPolicy t = ts_Restart p"
    "spec_StartupTimeout D t = das D (ts_StartupTimeout p)"
    "spec_ShutdownTimeout D t = das D (ts_ShutdownTimeout p)"
  using assms
  by (auto simp: from_proto to_proto nm deps health restart startup shutdown unwrap_wrap)

end

definition ssh_kind :: "TunnelSpec \<Rightarrow> bool" where
  "ssh_kind p \<longleftrightarrow> GetSsh p \<noteq> None"

definition kubectl_kind :: "TunnelSpec \<Rightarrow> bool" where
  "kubectl_kind p \<longleftrightarrow> GetKubectl p \<noteq> None"

lemmas ssh_methods =
  SSHSpec_Name_def SSHSpec_Type_def SSHSpec_Dependencies_def SSHSpec_HealthCheck_def
  SSHSpec_RestartPolicy_def SSHSpec_StartupTimeout_def SSHSpec_ShutdownTimeout_def
  SSHSpec_ToProto_def

lemmas kubectl_methods =
  KubectlSpec_Name_def KubectlSpec_Type_def KubectlSpec_Dependencies_def
  KubectlSpec_HealthCheck_def KubectlSpec_RestartPolicy_def KubectlSpec_StartupTimeout_def
  KubectlSpec_ShutdownTimeout_def KubectlSpec_ToProto_def

interpretation sshi: spec_interface ssh_kind SSHSpecS ssh_pbSpec SSH_Spec D for D
  by unfold_locales
     (auto simp: ssh_kind_def FromProto_def ssh_methods split: option.splits tunnel_type.splits)

interpretation kubectli: spec_interface kubectl_kind KubectlSpecS kubectl_pbSpec Kubectl_Spec D for D
  by unfold_locales
     (auto simp: kubectl_kind_def FromProto_def kubectl_methods split: option.splits tunnel_type.splits)

lemma FromProto_Inr_kind: "FromProto p = Inr t \<Longrightarrow> ssh_kind p \<or> kubectl_kind p"
  by (auto simp: FromProto_def ssh_kind_def kubectl_kind_def split: option.splits tunnel_type.splits)

lemma FromProto_Inr_iff: "(\<exists>t. FromProto p = Inr t) \<longleftrightarrow> ts_Type p \<noteq> None"
  by (auto simp: FromProto_def split: option.splits tunnel_type.splits)

lemma FromProto_answers:
  assumes "FromProto p = Inr t"
  shows FromProto_ToProto: "spec_ToProto t = p"
    and FromProto_Name: "spec_Name t = ts_Name p"
    and FromProto_Dependencies: "spec_Dependencies t = ts_DependsOn p"
    and FromProto_HealthCheck: "spec_HealthCheck t = ts_Health p"
    and FromProto_RestartPolicy: "spec_RestartPolicy t = ts_Restart p"
    and FromProto_ShutdownTimeout: "spec_ShutdownTimeout D t = das D (ts_ShutdownTimeout p)"
  using FromProto_Inr_kind [OF assms] sshi.answers [OF _ assms] kubectli.answers [OF _ assms]
  by blast+

lemma FromProto_BuildCommand_returns:
  assumes "FromProto p = Inr t"
  shows "\<exists>r. spec_BuildCommand S w keyDir opts t = Ret r"
  using assms
  by (auto simp: FromProto_def SSHSpec_BuildCommand_def KubectlSpec_BuildCommand_def Let_def
      split: option.splits tunnel_type.splits)

text \<open>A spec that the program may hold: its message has the part its type promises.\<close>

definition wf_spec :: "Spec \<Rightarrow> bool" where
  "wf_spec t \<longleftrightarrow> FromProto (spec_ToProto t) = Inr t"

lemma wf_spec_FromProto: "FromProto p = Inr t \<Longrightarrow> wf_spec t"
  by (simp add: wf_spec_def FromProto_ToProto)

section \<open>Properties\<close>

text \<open>
  \<open>FromProto\<close> accepts exactly the messages that carry one of the two types; the spec it
  returns answers every method from that message, gives the message back, and its
  \<open>BuildCommand\<close> never dereferences nil.
\<close>

theorem FromProto_faithful:
  "(ts_Type p = None \<longleftrightarrow> FromProto p = Inl ''unknown tunnel type'') \<and>
   (\<forall>t. FromProto p = Inr t \<longrightarrow>
      spec_ToProto t = p \<and> spec_Name t = ts_Name p \<and> spec_Dependencies t = ts_DependsOn p \<and>
      spec_HealthCheck t = ts_Health p \<and> spec_RestartPolicy t = ts_Restart p \<and>
      spec_ShutdownTimeout D t = das D (ts_ShutdownTimeout p) \<and>
      spec_BuildCommand S w keyDir opts t \<noteq> Panic)"
proof (intro conjI allI impI)
  show "ts_Type p = None \<longleftrightarrow> FromProto p = Inl ''unknown tunnel type''"
    by (simp add: FromProto_def split: option.splits tunnel_type.splits)
next
  fix t assume t: "FromProto p = Inr t"
  note FromProto_answers [OF t]
  then show "spec_ToProto t = p" "spec_Name t = ts_Name p" "spec_Dependencies t = ts_DependsOn p"
    "spec_HealthCheck t = ts_Health p" "spec_RestartPolicy t = ts_Restart p"
    "spec_ShutdownTimeout D t = das D (ts_ShutdownTimeout p)"
    by blast+
  show "spec_BuildCommand S w keyDir opts t \<noteq> Panic"
    using FromProto_BuildCommand_returns [OF t, of S w keyDir opts] by auto
qed

theorem FromProto_faithful_witness:
  "\<exists>t. FromProto demo_spec = Inr t \<and> spec_ToProto t = demo_spec \<and>
     spec_BuildCommand mem_os mem0 ''/k'' [] t \<noteq> Panic"
proof -
  obtain t where t: "FromProto demo_spec = Inr t"
    by (simp add: FromProto_def demo_spec_def)
  with FromProto_faithful [of demo_spec demo_durations mem_os mem0 "''/k''" "[]"] show ?thesis
    by blast
qed

lemma ssh_args_perm:
  assumes "mset o1 = mset o2"
  shows "mset (ssh_args path o1 s) = mset (ssh_args path o2 s)"
proof -
  have "set o1 = set o2"
    using assms by (rule mset_eq_setD)
  moreover have "mset (concat (map f o1)) = mset (concat (map f o2))" for f :: "_ \<Rightarrow> string list"
  proof -
    have "mset (concat (map f os)) = \<Sum>\<^sub># (image_mset (mset \<circ> f) (mset os))" for os
      by (induction os) auto
    then show ?thesis
      using assms by simp
  qed
  ultimately show ?thesis
    by (simp add: ssh_args_def)
qed

text \<open>
  the order in which Go happens to visit the options of an SSH tunnel decides neither
  whether its command is built nor what it holds: two orders give the same program and the
  same arguments up to permutation, with the fixed head \<open>-N -o BatchMode=yes\<close> and the
  destination last. \<open>StrictHostKeyChecking=accept-new\<close> is among them unless the options set
  that key.
\<close>

theorem SSH_BuildCommand_order:
  assumes "GetSsh (ssh_pbSpec sp) = Some s"
    and "enumerates o1 (ssh_Options s)" and "enumerates o2 (ssh_Options s)"
    and "SSHSpec_BuildCommand S w keyDir o1 sp = Ret (Inr (prog, args1))"
  shows "\<exists>args2. SSHSpec_BuildCommand S w keyDir o2 sp = Ret (Inr (prog, args2)) \<and>
     mset args2 = mset args1 \<and> prog = ''ssh'' \<and> take 3 args2 = [''-N'', ''-o'', ''BatchMode=yes''] \<and>
     last args2 = ssh_dest s \<and>
     (ssh_Options s ''StrictHostKeyChecking'' = None \<longrightarrow>
        ''StrictHostKeyChecking=accept-new'' \<in> set args2)"
proof -
  let ?path = "identity_path keyDir s"
  from assms(1,4) have args1: "args1 = ssh_args ?path o1 s" "prog = ''ssh''"
    and ok: "SSHSpec_BuildCommand S w keyDir o2 sp = Ret (Inr (''ssh'', ssh_args ?path o2 s))"
    by (auto simp: SSHSpec_BuildCommand_def Let_def split: option.splits if_splits)
  have "mset (ssh_args ?path o2 s) = mset args1"
    unfolding args1 by (rule ssh_args_perm) (rule enumerates_perm [OF assms(3,2)])
  moreover have "ssh_Options s ''StrictHostKeyChecking'' = None \<Longrightarrow>
      ''StrictHostKeyChecking=accept-new'' \<in> set (ssh_args ?path o2 s)"
    using enumerates_mem [OF assms(3), of "''StrictHostKeyChecking''"]
    by (auto simp: ssh_args_def)
  ultimately show ?thesis
    using ok args1 by (simp add: ssh_args_def)
qed

theorem SSH_BuildCommand_order_witness:
  "\<exists>args. SSHSpec_BuildCommand mem_os mem0 ''/k'' [(''B'', ''2''), (''A'', ''1'')]
      (SSHSpecS (demo_spec\<lparr>ts_Type := Some (TunnelSpec_Ssh
         (demo_ssh\<lparr>ssh_Options := [''A'' \<mapsto> ''1'', ''B'' \<mapsto> ''2'']\<rparr>))\<rparr>)) = Ret (Inr (''ssh'', args)) \<and>
     last args = ''u@h''"
proof -
  let ?s = "demo_ssh\<lparr>ssh_Options := [''A'' \<mapsto> ''1'', ''B'' \<mapsto> ''2'']\<rparr>"
  let ?sp = "SSHSpecS (demo_spec\<lparr>ts_Type := Some (TunnelSpec_Ssh ?s)\<rparr>)"
  let ?o1 = "[(''A'', ''1''), (''B'', ''2'')]" and ?o2 = "[(''B'', ''2''), (''A'', ''1'')]"
  have g: "GetSsh (ssh_pbSpec ?sp) = Some ?s"
    by simp
  have e: "enumerates ?o1 (ssh_Options ?s)" "enumerates ?o2 (ssh_Options ?s)"
    by (auto simp: enumerates_def)
  have p: "identity_path ''/k'' ?s = []"
    by (simp add: identity_path_def demo_ssh_def)
  have "SSHSpec_BuildCommand mem_os mem0 ''/k'' ?o1 ?sp = Ret (Inr (''ssh'', ssh_args [] ?o1 ?s))"
    unfolding SSHSpec_BuildCommand_def g option.case Let_def p by simp
  from SSH_BuildCommand_order [OF g e this] show ?thesis
    by (auto simp: ssh_dest_def demo_ssh_def)
qed

text \<open>
  the command of a kubectl tunnel depends on the local address of its first forward
  only: the addresses of the others can be changed at will without changing the command,
  although \<open>LocalPortKeys\<close> reserves each forward under its own address.
\<close>

theorem kubectl_later_addresses_ignored:
  "KubectlSpec_BuildCommand S w keyDir opts (KubectlSpecS
     (p\<lparr>ts_Type := Some (TunnelSpec_Kubectl (k\<lparr>kc_Forwards := f # map (\<lambda>g. g\<lparr>kf_LocalAddress := addr g\<rparr>) fs\<rparr>))\<rparr>))
   = KubectlSpec_BuildCommand S w keyDir opts (KubectlSpecS
     (p\<lparr>ts_Type := Some (TunnelSpec_Kubectl (k\<lparr>kc_Forwards := f # fs\<rparr>))\<rparr>))"
  by (simp add: KubectlSpec_BuildCommand_def kubectl_args_def kubeconfig_path_def
      kubectl_forward_arg_def comp_def)

end
