(* ===== verification/Graph_Lib.thy ===== *)
theory Graph_Lib
  imports Tunnel_Specs
begin

text \<open>
  The graph library the planner calls (\<open>gographs\<close>: \<open>AdjacencyList\<close>, \<open>TopologicalSort\<close>,
  \<open>Flood\<close>), which is not part of the repository: its calls as a record, its documented
  behaviour as the locale \<open>graph_library\<close>, in which \<open>edges\<close> is the edge relation of a
  graph. The last section is a verified implementation, an adjacency list with Kahn's
  algorithm and a worklist search, by which the contract is known to be satisfiable and the
  witnesses compute.
\<close>

section \<open>The interface\<close>

datatype graph_err = ErrCycleDetected | GraphErr err

record ('g, 'i) graph_ops =
  g_new :: 'g
  g_AddVertex :: "'g \<Rightarrow> Spec \<Rightarrow> 'i \<times> 'g"
  g_Connect :: "'g \<Rightarrow> 'i \<Rightarrow> 'i \<Rightarrow> graph_err + 'g"
  g_Vertex :: "'g \<Rightarrow> 'i \<Rightarrow> Spec option"
  g_TopologicalSort :: "'g \<Rightarrow> graph_err + 'i list"
  g_Flood :: "'g \<Rightarrow> 'i \<Rightarrow> 'i list"
  g_Error :: "graph_err \<Rightarrow> err"

text \<open>
  Nothing is assumed of an attempt to connect two vertices twice or a vertex to itself.
\<close>

locale graph_library =
  fixes G :: "('g, 'i) graph_ops"
    and edges :: "'g \<Rightarrow> ('i \<times> 'i) set"
  assumes new_vertex: "g_Vertex G (g_new G) i = None"
    and new_edges: "edges (g_new G) = {}"
    and add_fresh: "g_AddVertex G g v = (i, g') \<Longrightarrow> g_Vertex G g i = None"
    and add_vertex: "g_AddVertex G g v = (i, g') \<Longrightarrow> g_Vertex G g' = (g_Vertex G g)(i \<mapsto> v)"
    and add_edges: "g_AddVertex G g v = (i, g') \<Longrightarrow> edges g' = edges g"
    and connect_ok: "g_Vertex G g i \<noteq> None \<Longrightarrow> g_Vertex G g j \<noteq> None \<Longrightarrow> i \<noteq> j \<Longrightarrow>
        (i, j) \<notin> edges g \<Longrightarrow> \<exists>g'. g_Connect G g i j = Inr g'"
    and connect_vertex: "g_Connect G g i j = Inr g' \<Longrightarrow> g_Vertex G g' = g_Vertex G g"
    and connect_edges: "g_Connect G g i j = Inr g' \<Longrightarrow> edges g' = insert (i, j) (edges g)"
    and sort_perm: "finite (dom (g_Vertex G g)) \<Longrightarrow> edges g \<subseteq> dom (g_Vertex G g) \<times> dom (g_Vertex G g) \<Longrightarrow>
        g_TopologicalSort G g = Inr ord \<Longrightarrow> distinct ord \<and> set ord = dom (g_Vertex G g)"
    and sort_before: "finite (dom (g_Vertex G g)) \<Longrightarrow> edges g \<subseteq> dom (g_Vertex G g) \<times> dom (g_Vertex G g) \<Longrightarrow>
        g_TopologicalSort G g = Inr ord \<Longrightarrow> (i, j) \<in> edges g \<Longrightarrow> before ord i j"
    and sort_acyclic: "finite (dom (g_Vertex G g)) \<Longrightarrow> edges g \<subseteq> dom (g_Vertex G g) \<times> dom (g_Vertex G g) \<Longrightarrow>
        acyclic (edges g) \<Longrightarrow> \<exists>ord. g_TopologicalSort G g = Inr ord"
    and sort_cyclic: "finite (dom (g_Vertex G g)) \<Longrightarrow> edges g \<subseteq> dom (g_Vertex G g) \<times> dom (g_Vertex G g) \<Longrightarrow>
        \<not> acyclic (edges g) \<Longrightarrow> g_TopologicalSort G g = Inl ErrCycleDetected"
    and flood_set: "g_Vertex G g i \<noteq> None \<Longrightarrow> set (g_Flood G g i) = (edges g)\<^sup>* `` {i}"
    and flood_distinct: "distinct (g_Flood G g i)"

section \<open>Relations along an injection\<close>

lemma map_prod_imageI: "(a, b) \<in> r \<Longrightarrow> (f a, g b) \<in> map_prod f g ` r"
  by (rule image_eqI [where x = "(a, b)"]) simp_all

lemma map_prod_imageE:
  assumes "(x, y) \<in> map_prod f g ` r"
  obtains a b where "x = f a" "y = g b" "(a, b) \<in> r"
  using assms by auto

lemma trancl_map_prod_sound:
  assumes inj: "inj_on f A" and r: "r \<subseteq> A \<times> A" and xy: "(x, y) \<in> (map_prod f f ` r)\<^sup>+"
  shows "\<exists>a b. x = f a \<and> y = f b \<and> (a, b) \<in> r\<^sup>+"
  using xy
proof (induction rule: trancl_induct)
  case (base y)
  then show ?case by (blast elim: map_prod_imageE)
next
  case (step y z)
  from step.IH obtain a b where ab: "x = f a" "y = f b" "(a, b) \<in> r\<^sup>+" by blast
  from step.hyps(2) obtain c d where cd: "y = f c" "z = f d" "(c, d) \<in> r"
    by (rule map_prod_imageE)
  have "b \<in> A"
    using tranclD2 [OF ab(3)] r by blast
  moreover have "c \<in> A"
    using cd(3) r by blast
  moreover have "f b = f c"
    using ab(2) cd(1) by simp
  ultimately have "b = c"
    using inj by (simp add: inj_on_eq_iff)
  with ab(3) cd(3) have "(a, d) \<in> r\<^sup>+"
    by (simp add: trancl_into_trancl)
  with ab(1) cd(2) show ?case by blast
qed

lemma trancl_map_prod_complete: "(a, b) \<in> r\<^sup>+ \<Longrightarrow> (f a, f b) \<in> (map_prod f f ` r)\<^sup>+"
proof (induction rule: trancl_induct)
  case (base b)
  then show ?case by (intro r_into_trancl map_prod_imageI)
next
  case (step b c)
  show ?case
    by (rule trancl_into_trancl [OF step.IH]) (rule map_prod_imageI [OF step.hyps(2)])
qed

lemma trancl_map_prod_iff:
  assumes inj: "inj_on f A" and r: "r \<subseteq> A \<times> A"
  shows "(x, y) \<in> (map_prod f f ` r)\<^sup>+ \<longleftrightarrow> (\<exists>a b. x = f a \<and> y = f b \<and> (a, b) \<in> r\<^sup>+)"
  using trancl_map_prod_sound [OF assms] trancl_map_prod_complete by metis

lemma rtrancl_map_prod_iff:
  assumes inj: "inj_on f A" and r: "r \<subseteq> A \<times> A" and a: "a \<in> A"
  shows "(f a, y) \<in> (map_prod f f ` r)\<^sup>* \<longleftrightarrow> (\<exists>b. y = f b \<and> (a, b) \<in> r\<^sup>*)"
proof -
  have "(\<exists>c b. f a = f c \<and> y = f b \<and> (c, b) \<in> r\<^sup>+) \<longleftrightarrow> (\<exists>b. y = f b \<and> (a, b) \<in> r\<^sup>+)"
  proof -
    have "c = a" if "f a = f c" "(c, b) \<in> r\<^sup>+" for c b
      using that inj a r tranclD [OF that(2)] by (metis SigmaD1 inj_on_eq_iff subsetD)
    then show ?thesis by metis
  qed
  then show ?thesis
    unfolding rtrancl_eq_or_trancl [of _ _ "map_prod f f ` r"] trancl_map_prod_iff [OF inj r]
    by (auto simp: rtrancl_eq_or_trancl)
qed

lemma acyclic_map_prod_iff:
  assumes inj: "inj_on f A" and r: "r \<subseteq> A \<times> A"
  shows "acyclic (map_prod f f ` r) \<longleftrightarrow> acyclic r"
proof -
  have field: "a \<in> A" "b \<in> A" if "(a, b) \<in> r\<^sup>+" for a b
    using tranclD [OF that] tranclD2 [OF that] r by blast+
  have "(\<exists>x. (x, x) \<in> (map_prod f f ` r)\<^sup>+) \<longleftrightarrow> (\<exists>a. (a, a) \<in> r\<^sup>+)"
  proof
    assume "\<exists>x. (x, x) \<in> (map_prod f f ` r)\<^sup>+"
    then obtain a b where ab: "f a = f b" "(a, b) \<in> r\<^sup>+"
      unfolding trancl_map_prod_iff [OF assms] by metis
    then have "a = b"
      using inj field [OF ab(2)] by (simp add: inj_on_eq_iff)
    with ab(2) show "\<exists>a. (a, a) \<in> r\<^sup>+" by blast
  next
    assume "\<exists>a. (a, a) \<in> r\<^sup>+"
    then show "\<exists>x. (x, x) \<in> (map_prod f f ` r)\<^sup>+"
      using trancl_map_prod_complete by metis
  qed
  then show ?thesis
    unfolding acyclic_def by metis
qed

section \<open>An implementation\<close>

type_synonym adj = "Spec list \<times> (nat \<times> nat) list"

definition adj_vertex :: "adj \<Rightarrow> nat \<Rightarrow> Spec option" where
  "adj_vertex g i = (if i < length (fst g) then Some (fst g ! i) else None)"

definition adj_connect :: "adj \<Rightarrow> nat \<Rightarrow> nat \<Rightarrow> graph_err + adj" where
  "adj_connect g i j =
    (if i < length (fst g) \<and> j < length (fst g) then Inr (fst g, (i, j) # snd g)
     else Inl (GraphErr ''vertex not found''))"

definition free_of :: "(nat \<times> nat) list \<Rightarrow> nat list \<Rightarrow> nat \<Rightarrow> bool" where
  "free_of es vs v \<longleftrightarrow> (\<forall>e \<in> set es. snd e = v \<longrightarrow> fst e \<notin> set vs)"

function kahn :: "(nat \<times> nat) list \<Rightarrow> nat list \<Rightarrow> nat list option" where
  "kahn es vs =
    (if vs = [] then Some []
     else case find (free_of es vs) vs of
        None \<Rightarrow> None
      | Some v \<Rightarrow> map_option (Cons v) (kahn es (remove1 v vs)))"
  by pat_completeness auto
termination
proof (relation "measure (\<lambda>(es, vs). length vs)", simp)
  fix es vs v
  assume "vs \<noteq> []" and "find (free_of es vs) vs = Some v"
  then have "v \<in> set vs"
    by (auto simp: find_Some_iff)
  then show "((es, remove1 v vs), (es, vs)) \<in> measure (\<lambda>(es, vs). length vs)"
    using \<open>vs \<noteq> []\<close> by (auto simp: length_remove1)
qed

declare kahn.simps [simp del]

definition succs :: "(nat \<times> nat) list \<Rightarrow> nat \<Rightarrow> nat list" where
  "succs es x = map snd (filter (\<lambda>e. fst e = x) es)"

function flood_from :: "(nat \<times> nat) list \<Rightarrow> nat list \<Rightarrow> nat list \<Rightarrow> nat list" where
  "flood_from es [] vis = vis"
| "flood_from es (x # xs) vis =
    (if x \<in> set vis then flood_from es xs vis else flood_from es (succs es x @ xs) (x # vis))"
  by pat_completeness auto
termination
proof (relation "inv_image (finite_psubset <*lex*> less_than)
    (\<lambda>(es, xs, vis). (fst ` set es - set vis, length xs))")
  show "wf (inv_image (finite_psubset <*lex*> less_than)
    (\<lambda>(es :: (nat \<times> nat) list, xs :: nat list, vis). (fst ` set es - set vis, length xs)))"
    by auto
next
  fix es :: "(nat \<times> nat) list" and x :: nat and xs vis :: "nat list"
  assume new: "x \<notin> set vis"
  show "((es, succs es x @ xs, x # vis), es, x # xs, vis)
      \<in> inv_image (finite_psubset <*lex*> less_than) (\<lambda>(es, xs, vis). (fst ` set es - set vis, length xs))"
  proof (cases "x \<in> fst ` set es")
    case True
    then have "fst ` set es - set (x # vis) \<subset> fst ` set es - set vis"
      using new by auto
    then show ?thesis
      by (simp add: finite_psubset_def)
  next
    case False
    then have "succs es x = []" "fst ` set es - set (x # vis) = fst ` set es - set vis"
      by (auto simp: succs_def filter_empty_conv)
    then show ?thesis by simp
  qed
qed auto

definition adj_ops :: "(adj, nat) graph_ops" where
  "adj_ops =
    \<lparr>g_new = ([], []),
     g_AddVertex = (\<lambda>g v. (length (fst g), (fst g @ [v], snd g))),
     g_Connect = adj_connect,
     g_Vertex = adj_vertex,
     g_TopologicalSort = (\<lambda>g. case kahn (snd g) [0..<length (fst g)] of
        None \<Rightarrow> Inl ErrCycleDetected | Some ord \<Rightarrow> Inr ord),
     g_Flood = (\<lambda>g i. rev (flood_from (snd g) [i] [])),
     g_Error = (\<lambda>e. case e of ErrCycleDetected \<Rightarrow> ''cycle detected'' | GraphErr m \<Rightarrow> m)\<rparr>"

lemma kahn_step:
  assumes "kahn es vs = Some ord" and "vs \<noteq> []"
  obtains v ord' where "find (free_of es vs) vs = Some v" "kahn es (remove1 v vs) = Some ord'"
    "ord = v # ord'" "v \<in> set vs" "free_of es vs v"
proof -
  from assms obtain v where v: "find (free_of es vs) vs = Some v"
    by (subst (asm) kahn.simps) (auto split: option.splits)
  moreover from assms v obtain ord' where "kahn es (remove1 v vs) = Some ord'" "ord = v # ord'"
    by (subst (asm) kahn.simps) auto
  moreover from v have "v \<in> set vs \<and> free_of es vs v"
    by (auto simp: find_Some_iff)
  ultimately show thesis
    using that by blast
qed

lemma kahn_Some:
  "kahn es vs = Some ord \<Longrightarrow> distinct vs \<Longrightarrow>
     distinct ord \<and> set ord = set vs \<and>
     (\<forall>i j. (i, j) \<in> set es \<longrightarrow> i \<in> set vs \<longrightarrow> j \<in> set vs \<longrightarrow> before ord i j)"
proof (induction es vs arbitrary: ord rule: kahn.induct)
  case (1 es vs)
  show ?case
  proof (cases "vs = []")
    case True
    then show ?thesis using "1.prems" by (subst (asm) kahn.simps) auto
  next
    case False
    with "1.prems"(1) obtain v ord' where v: "find (free_of es vs) vs = Some v"
      and rest: "kahn es (remove1 v vs) = Some ord'" and ord: "ord = v # ord'"
      and mem: "v \<in> set vs" and free: "free_of es vs v"
      by (rule kahn_step)
    have "distinct (remove1 v vs)"
      using "1.prems"(2) by simp
    from "1.IH" [OF False v rest this] have IH: "distinct ord'" "set ord' = set (remove1 v vs)"
      "\<forall>i j. (i, j) \<in> set es \<longrightarrow> i \<in> set (remove1 v vs) \<longrightarrow> j \<in> set (remove1 v vs) \<longrightarrow> before ord' i j"
      by blast+
    have rem: "set (remove1 v vs) = set vs - {v}"
      using "1.prems"(2) by simp
    have "before ord i j" if e: "(i, j) \<in> set es" and i: "i \<in> set vs" and j: "j \<in> set vs" for i j
    proof -
      have "j \<noteq> v"
        using free e i by (auto simp: free_of_def)
      then show ?thesis
        using IH(2,3) e i j rem ord by auto
    qed
    moreover have "distinct ord" "set ord = set vs"
      using IH(1,2) rem ord mem by auto
    ultimately show ?thesis by blast
  qed
qed

lemma kahn_None:
  "kahn es vs = None \<Longrightarrow> distinct vs \<Longrightarrow> \<not> acyclic (set es)"
proof (induction es vs rule: kahn.induct)
  case (1 es vs)
  have ne: "vs \<noteq> []"
    using "1.prems" by (subst (asm) kahn.simps) auto
  show ?case
  proof (cases "find (free_of es vs) vs")
    case (Some v)
    with ne "1.prems" have "kahn es (remove1 v vs) = None"
      by (subst (asm) kahn.simps) (auto split: option.splits)
    with "1.IH" [OF ne Some] "1.prems"(2) show ?thesis
      by simp
  next
    case None
    show ?thesis
    proof
      assume "acyclic (set es)"
      then have "wf (set es)"
        by (simp add: finite_acyclic_wf)
      then obtain v where "v \<in> set vs" "\<forall>u. (u, v) \<in> set es \<longrightarrow> u \<notin> set vs"
        using ne by (metis wfE_min list.set_intros(1) neq_Nil_conv)
      then have "free_of es vs v"
        by (auto simp: free_of_def)
      then show False
        using None \<open>v \<in> set vs\<close> by (auto simp: find_None_iff)
    qed
  qed
qed

lemma succs_set: "y \<in> set (succs es x) \<longleftrightarrow> (x, y) \<in> set es"
  by (force simp: succs_def)

lemma flood_from_incl: "set vis \<union> set xs \<subseteq> set (flood_from es xs vis)"
  by (induction es xs vis rule: flood_from.induct) auto

lemma flood_from_sound: "set (flood_from es xs vis) \<subseteq> set vis \<union> (set es)\<^sup>* `` set xs"
proof (induction es xs vis rule: flood_from.induct)
  case (2 es x xs vis)
  show ?case
  proof (cases "x \<in> set vis")
    case False
    have "(set es)\<^sup>* `` set (succs es x @ xs) \<subseteq> (set es)\<^sup>* `` set (x # xs)"
    proof
      fix y
      assume "y \<in> (set es)\<^sup>* `` set (succs es x @ xs)"
      then obtain z where zy: "(z, y) \<in> (set es)\<^sup>*" and "z \<in> set (succs es x @ xs)"
        by blast
      then consider "(x, z) \<in> set es" | "z \<in> set xs"
        by (auto simp: succs_set)
      then show "y \<in> (set es)\<^sup>* `` set (x # xs)"
        by cases (use zy in \<open>auto intro: converse_rtrancl_into_rtrancl\<close>)
    qed
    moreover have "x \<in> (set es)\<^sup>* `` set (x # xs)"
      by auto
    ultimately show ?thesis
    proof -
      assume sub: "(set es)\<^sup>* `` set (succs es x @ xs) \<subseteq> (set es)\<^sup>* `` set (x # xs)"
        and x: "x \<in> (set es)\<^sup>* `` set (x # xs)"
      have "set (flood_from es (x # xs) vis) = set (flood_from es (succs es x @ xs) (x # vis))"
        using False by simp
      also have "\<dots> \<subseteq> set (x # vis) \<union> (set es)\<^sup>* `` set (succs es x @ xs)"
        by (rule "2.IH"(2) [OF False])
      finally have main: "set (flood_from es (x # xs) vis)
          \<subseteq> set (x # vis) \<union> (set es)\<^sup>* `` set (succs es x @ xs)" .
      show ?thesis
      proof
        fix y
        assume "y \<in> set (flood_from es (x # xs) vis)"
        with main have "y = x \<or> y \<in> set vis \<or> y \<in> (set es)\<^sup>* `` set (succs es x @ xs)"
          by (metis UnE set_ConsD subsetD)
        with sub x show "y \<in> set vis \<union> (set es)\<^sup>* `` set (x # xs)"
          by blast
      qed
    qed
  next
    case True
    with "2.IH"(1) [OF True] show ?thesis by auto
  qed
qed auto

lemma flood_from_closed:
  "set es `` set vis \<subseteq> set vis \<union> set xs \<Longrightarrow>
     set es `` set (flood_from es xs vis) \<subseteq> set (flood_from es xs vis)"
proof (induction es xs vis rule: flood_from.induct)
  case (2 es x xs vis)
  show ?case
  proof (cases "x \<in> set vis")
    case True
    then show ?thesis using 2 by auto
  next
    case False
    have "set es `` set (x # vis) \<subseteq> set (x # vis) \<union> set (succs es x @ xs)"
      using "2.prems" by (auto simp: succs_set)
    then show ?thesis
      using "2.IH"(2) [OF False] False by simp
  qed
qed simp

lemma flood_from_distinct: "distinct vis \<Longrightarrow> distinct (flood_from es xs vis)"
  by (induction es xs vis rule: flood_from.induct) auto

lemma flood_from_start: "set (flood_from es [i] []) = (set es)\<^sup>* `` {i}"
proof
  show "set (flood_from es [i] []) \<subseteq> (set es)\<^sup>* `` {i}"
    using flood_from_sound [of es "[i]" "[]"] by simp
  have closed: "set es `` set (flood_from es [i] []) \<subseteq> set (flood_from es [i] [])"
    by (rule flood_from_closed) simp
  have "i \<in> set (flood_from es [i] [])"
    using flood_from_incl [of "[]" "[i]" es] by simp
  then show "(set es)\<^sup>* `` {i} \<subseteq> set (flood_from es [i] [])"
    using Image_closed_trancl [OF closed] by blast
qed

lemma adj_dom: "dom (adj_vertex g) = {0..<length (fst g)}"
  by (auto simp: adj_vertex_def split: if_splits)

lemma before_trans: "distinct xs \<Longrightarrow> before xs a b \<Longrightarrow> before xs b c \<Longrightarrow> before xs a c"
  by (induction xs) (auto dest: before_mem)

lemma before_acyclic:
  assumes dist: "distinct ord" and bef: "\<And>i j. (i, j) \<in> r \<Longrightarrow> before ord i j"
  shows "acyclic r"
proof (rule acyclicI, rule allI, rule notI)
  fix x
  assume "(x, x) \<in> r\<^sup>+"
  moreover have "before ord x y" if "(x, y) \<in> r\<^sup>+" for y
    using that by (induction rule: trancl_induct) (auto intro: bef before_trans [OF dist])
  ultimately have "before ord x x" by blast
  then show False
    using before_asym [OF dist] by blast
qed

lemma adj_sort:
  assumes "set es \<subseteq> {0..<n} \<times> {0..<n}" and "kahn es [0..<n] = Some ord"
  shows "distinct ord" and "set ord = {0..<n}" and "(i, j) \<in> set es \<Longrightarrow> before ord i j"
  using kahn_Some [OF assms(2)] assms(1) by auto

interpretation adjg: graph_library adj_ops "\<lambda>g. set (snd g)"
proof
  fix g g' :: adj and v and ord :: "nat list" and i j :: nat
  let ?k = "kahn (snd g) [0..<length (fst g)]"
  have dom: "dom (g_Vertex adj_ops g) = {0..<length (fst g)}"
    by (simp add: adj_ops_def adj_dom)
  have sort: "g_TopologicalSort adj_ops g = Inr ord \<longleftrightarrow> ?k = Some ord" for ord
    by (auto simp: adj_ops_def split: option.splits)
  have cyc: "g_TopologicalSort adj_ops g = Inl ErrCycleDetected \<longleftrightarrow> ?k = None"
    by (auto simp: adj_ops_def split: option.splits)
  show "g_Vertex adj_ops (g_new adj_ops) i = None"
    by (simp add: adj_ops_def adj_vertex_def)
  show "set (snd (g_new adj_ops)) = {}"
    by (simp add: adj_ops_def)
  show "set (g_Flood adj_ops g i) = (set (snd g))\<^sup>* `` {i}"
    using flood_from_start [of "snd g" i] by (simp add: adj_ops_def del: flood_from.simps)
  show "distinct (g_Flood adj_ops g i)"
    by (simp add: adj_ops_def flood_from_distinct)
  show "g_Vertex adj_ops g i = None" if "g_AddVertex adj_ops g v = (i, g')"
    using that by (auto simp: adj_ops_def adj_vertex_def)
  show "g_Vertex adj_ops g' = (g_Vertex adj_ops g)(i \<mapsto> v)" if "g_AddVertex adj_ops g v = (i, g')"
    using that by (auto simp: adj_ops_def adj_vertex_def nth_append fun_eq_iff)
  show "set (snd g') = set (snd g)" if "g_AddVertex adj_ops g v = (i, g')"
    using that by (auto simp: adj_ops_def)
  show "\<exists>g'. g_Connect adj_ops g i j = Inr g'"
    if "g_Vertex adj_ops g i \<noteq> None" "g_Vertex adj_ops g j \<noteq> None"
    using that by (auto simp: adj_ops_def adj_vertex_def adj_connect_def split: if_splits)
  show "g_Vertex adj_ops g' = g_Vertex adj_ops g" if "g_Connect adj_ops g i j = Inr g'"
    using that by (auto simp: adj_ops_def adj_vertex_def adj_connect_def fun_eq_iff split: if_splits)
  show "set (snd g') = insert (i, j) (set (snd g))" if "g_Connect adj_ops g i j = Inr g'"
    using that by (auto simp: adj_ops_def adj_connect_def split: if_splits)
  assume sub: "set (snd g) \<subseteq> dom (g_Vertex adj_ops g) \<times> dom (g_Vertex adj_ops g)"
  note ok = adj_sort [OF sub [unfolded dom]]
  show "distinct ord \<and> set ord = dom (g_Vertex adj_ops g)" if "g_TopologicalSort adj_ops g = Inr ord"
    using ok(1,2) that unfolding sort dom by blast
  show "before ord i j" if "g_TopologicalSort adj_ops g = Inr ord" "(i, j) \<in> set (snd g)"
    using ok(3) that unfolding sort by blast
  show "\<exists>ord. g_TopologicalSort adj_ops g = Inr ord" if "acyclic (set (snd g))"
    using kahn_None [of "snd g" "[0..<length (fst g)]"] that unfolding sort by auto
  show "g_TopologicalSort adj_ops g = Inl ErrCycleDetected" if "\<not> acyclic (set (snd g))"
    using before_acyclic [OF ok(1) ok(3)] that unfolding cyc by (cases ?k) blast+
qed

lemma adj_library: "graph_library adj_ops (\<lambda>g. set (snd g))"
  by unfold_locales

end
