(* ===== verification/Planner.thy ===== *)
theory Planner
  imports Graph_Lib
begin

text \<open>
  \<open>internal/dependency/planner.go\<close>: the planner keeps the specs by name, rebuilds a graph of
  them on every \<open>Plan\<close> and answers with a topological order of it. The graph library is the
  parameter \<open>G\<close>; its contract, where a lemma needs it, is the locale \<open>graph_library\<close>. The two
  loops over the map of specs visit it in the orders \<open>es1\<close> and \<open>es2\<close>.
\<close>

section \<open>The code\<close>

record ('g, 'i) Planner =
  pl_specs :: "string \<rightharpoonup> Spec"
  pl_graph :: 'g
  pl_indices :: "string \<rightharpoonup> 'i"

definition NewPlanner :: "('g, 'i) graph_ops \<Rightarrow> (string \<rightharpoonup> Spec) \<Rightarrow> ('g, 'i) Planner" where
  "NewPlanner G specs = \<lparr>pl_specs = specs, pl_graph = g_new G, pl_indices = Map.empty\<rparr>"

definition AddSpec :: "Spec \<Rightarrow> ('g, 'i) Planner \<Rightarrow> ('g, 'i) Planner" where
  "AddSpec spec p = p\<lparr>pl_specs := (pl_specs p)(spec_Name spec \<mapsto> spec)\<rparr>"

definition RemoveSpec :: "string \<Rightarrow> ('g, 'i) Planner \<Rightarrow> ('g, 'i) Planner" where
  "RemoveSpec nm p = p\<lparr>pl_specs := (pl_specs p)(nm := None)\<rparr>"

fun add_vertices :: "('g, 'i) graph_ops \<Rightarrow> (string \<times> Spec) list \<Rightarrow> 'g \<Rightarrow> (string \<rightharpoonup> 'i) \<Rightarrow>
    'g \<times> (string \<rightharpoonup> 'i)" where
  "add_vertices G [] g ind = (g, ind)"
| "add_vertices G ((n, s) # es) g ind =
    (let (i, g') = g_AddVertex G g s in add_vertices G es g' (ind(n \<mapsto> i)))"

definition missing_dep :: "string \<Rightarrow> string \<Rightarrow> err" where
  "missing_dep n d = ''tunnel '' @ quote n @ '' depends on missing tunnel '' @ quote d"

text \<open>The graph is changed in place: it stays partly connected when the loop stops at an error.\<close>

fun connect_deps :: "('g, 'i) graph_ops \<Rightarrow> (string \<rightharpoonup> 'i) \<Rightarrow> string \<Rightarrow> string list \<Rightarrow> 'g \<Rightarrow>
    err option \<times> 'g" where
  "connect_deps G ind n [] g = (None, g)"
| "connect_deps G ind n (d # ds) g =
    (case ind d of
       None \<Rightarrow> (Some (missing_dep n d), g)
     | Some i \<Rightarrow>
        (case g_Connect G g i (the (ind n)) of
           Inl e \<Rightarrow> (Some (g_Error G e), g)
         | Inr g' \<Rightarrow> connect_deps G ind n ds g'))"

fun connect_all :: "('g, 'i) graph_ops \<Rightarrow> (string \<rightharpoonup> 'i) \<Rightarrow> (string \<times> Spec) list \<Rightarrow> 'g \<Rightarrow>
    err option \<times> 'g" where
  "connect_all G ind [] g = (None, g)"
| "connect_all G ind ((n, s) # es) g =
    (case connect_deps G ind n (spec_Dependencies s) g of
       (Some e, g') \<Rightarrow> (Some e, g')
     | (None, g') \<Rightarrow> connect_all G ind es g')"

definition plan_tail :: "('g, 'i) graph_ops \<Rightarrow> 'g \<Rightarrow> ('g, 'i) Planner \<Rightarrow>
    ((err + Spec list) \<times> ('g, 'i) Planner) go" where
  "plan_tail G g p =
    (case g_TopologicalSort G g of
       Inl ge \<Rightarrow>
         Ret (Inl (if ge = ErrCycleDetected then ''dependency cycle detected'' else g_Error G ge), p)
     | Inr ord \<Rightarrow>
         (case those (map (g_Vertex G g) ord) of
            None \<Rightarrow> Panic
          | Some ss \<Rightarrow> Ret (Inr ss, p)))"

definition Plan :: "('g, 'i) graph_ops \<Rightarrow> (string \<times> Spec) list \<Rightarrow> (string \<times> Spec) list \<Rightarrow>
    ('g, 'i) Planner \<Rightarrow> ((err + Spec list) \<times> ('g, 'i) Planner) go" where
  "Plan G es1 es2 p =
    (let (g, ind) = add_vertices G es1 (g_new G) Map.empty;
         (e, g') = connect_all G ind es2 g;
         p' = p\<lparr>pl_graph := g', pl_indices := ind\<rparr>
     in case e of
          Some m \<Rightarrow> Ret (Inl m, p')
        | None \<Rightarrow> plan_tail G g' p')"

definition DependentsOf :: "('g, 'i) graph_ops \<Rightarrow> ('g, 'i) Planner \<Rightarrow> string \<Rightarrow>
    (err + string list) go" where
  "DependentsOf G p nm =
    (case pl_indices p nm of
       None \<Rightarrow> Ret (Inl (''tunnel '' @ quote nm @ '' not found''))
     | Some st \<Rightarrow>
        (case those (map (g_Vertex G (pl_graph p)) (filter (\<lambda>i. i \<noteq> st) (g_Flood G (pl_graph p) st))) of
           None \<Rightarrow> Panic
         | Some ss \<Rightarrow> Ret (Inr (map spec_Name ss))))"

section \<open>What a plan is\<close>

definition dep_rel :: "(string \<rightharpoonup> Spec) \<Rightarrow> (string \<times> string) set" where
  "dep_rel m = {(d, n). \<exists>s. m n = Some s \<and> d \<in> set (spec_Dependencies s)}"

definition named :: "(string \<rightharpoonup> Spec) \<Rightarrow> bool" where
  "named m \<longleftrightarrow> (\<forall>n s. m n = Some s \<longrightarrow> spec_Name s = n)"

definition deps_present :: "(string \<rightharpoonup> Spec) \<Rightarrow> bool" where
  "deps_present m \<longleftrightarrow> Domain (dep_rel m) \<subseteq> dom m"

definition deps_distinct :: "(string \<rightharpoonup> Spec) \<Rightarrow> bool" where
  "deps_distinct m \<longleftrightarrow> (\<forall>s \<in> ran m. distinct (spec_Dependencies s))"

definition is_plan :: "(string \<rightharpoonup> Spec) \<Rightarrow> Spec list \<Rightarrow> bool" where
  "is_plan m ss \<longleftrightarrow> distinct ss \<and> set ss = ran m \<and>
    (\<forall>d n. (d, n) \<in> dep_rel m \<longrightarrow> before (map spec_Name ss) d n)"

lemma NewPlanner_specs [simp]: "pl_specs (NewPlanner G specs) = specs"
  by (simp add: NewPlanner_def)

lemma AddSpec_specs [simp]: "pl_specs (AddSpec s p) = (pl_specs p)(spec_Name s \<mapsto> s)"
  by (simp add: AddSpec_def)

lemma RemoveSpec_specs [simp]: "pl_specs (RemoveSpec n p) = (pl_specs p)(n := None)"
  by (simp add: RemoveSpec_def)

lemma AddSpec_graph [simp]: "pl_graph (AddSpec s p) = pl_graph p" "pl_indices (AddSpec s p) = pl_indices p"
  by (simp_all add: AddSpec_def)

lemma RemoveSpec_graph [simp]:
  "pl_graph (RemoveSpec n p) = pl_graph p" "pl_indices (RemoveSpec n p) = pl_indices p"
  by (simp_all add: RemoveSpec_def)

lemma named_upd [simp]: "named m \<Longrightarrow> named (m(spec_Name s \<mapsto> s))"
  by (auto simp: named_def)

lemma named_del [simp]: "named m \<Longrightarrow> named (m(n := None))"
  by (auto simp: named_def)

lemma those_eq_Some: "those xs = Some ys \<longleftrightarrow> xs = map Some ys"
  by (induction xs arbitrary: ys) (auto split: option.splits simp: Cons_eq_map_conv)

lemma those_map_defined: "\<forall>x \<in> set xs. f x \<noteq> None \<Longrightarrow> those (map f xs) = Some (map (the \<circ> f) xs)"
  by (simp add: those_eq_Some)

lemma Range_dep_rel: "Range (dep_rel m) \<subseteq> dom m"
  by (auto simp: dep_rel_def)

lemma dep_rel_field: "deps_present m \<Longrightarrow> dep_rel m \<subseteq> dom m \<times> dom m"
  using Range_dep_rel [of m] by (fastforce simp: deps_present_def)

section \<open>The graph represents the specs\<close>

definition dep_pairs :: "(string \<times> Spec) list \<Rightarrow> (string \<times> string) list" where
  "dep_pairs es = concat (map (\<lambda>(n, s). map (\<lambda>d. (d, n)) (spec_Dependencies s)) es)"

lemma dep_pairs_set:
  assumes "enumerates es m"
  shows "set (dep_pairs es) = dep_rel m"
  using enumerates_mem [OF assms] by (fastforce simp: dep_pairs_def dep_rel_def)

lemma dep_pairs_distinct:
  assumes "distinct (map fst es)" and "\<forall>e \<in> set es. distinct (spec_Dependencies (snd e))"
  shows "distinct (dep_pairs es)"
  using assms
proof (induction es)
  case Nil
  then show ?case by (simp add: dep_pairs_def)
next
  case (Cons e es)
  obtain n s where e: "e = (n, s)" by (cases e)
  have "snd ` set (dep_pairs es) \<subseteq> fst ` set es"
    by (force simp: dep_pairs_def)
  then have "(d, n) \<notin> set (dep_pairs es)" for d
    using Cons.prems(1) e by force
  moreover have "dep_pairs (e # es) = map (\<lambda>d. (d, n)) (spec_Dependencies s) @ dep_pairs es"
    by (simp add: dep_pairs_def e)
  moreover have "distinct (dep_pairs es)"
    using Cons by simp
  ultimately show ?case
    using Cons.prems(2) e by (auto simp: distinct_map inj_on_def)
qed

fun connect_pairs :: "('g, 'i) graph_ops \<Rightarrow> (string \<rightharpoonup> 'i) \<Rightarrow> (string \<times> string) list \<Rightarrow> 'g \<Rightarrow>
    err option \<times> 'g" where
  "connect_pairs G ind [] g = (None, g)"
| "connect_pairs G ind ((d, n) # ps) g =
    (case ind d of
       None \<Rightarrow> (Some (missing_dep n d), g)
     | Some i \<Rightarrow>
        (case g_Connect G g i (the (ind n)) of
           Inl e \<Rightarrow> (Some (g_Error G e), g)
         | Inr g' \<Rightarrow> connect_pairs G ind ps g'))"

lemma connect_pairs_append:
  "connect_pairs G ind (map (\<lambda>d. (d, n)) ds @ ps) g =
     (case connect_deps G ind n ds g of
        (Some e, g') \<Rightarrow> (Some e, g')
      | (None, g') \<Rightarrow> connect_pairs G ind ps g')"
  by (induction ds arbitrary: g) (auto split: option.splits sum.splits)

lemma connect_all_pairs: "connect_all G ind es g = connect_pairs G ind (dep_pairs es) g"
proof (induction es arbitrary: g)
  case Nil
  then show ?case by (simp add: dep_pairs_def)
next
  case (Cons e es)
  then show ?case
    using connect_pairs_append [of G ind "fst e" "spec_Dependencies (snd e)" "dep_pairs es" g]
    by (cases e) (simp add: dep_pairs_def split: option.splits prod.splits)
qed

text \<open>
  A graph \<open>g\<close> with index map \<open>ind\<close> represents the specs \<open>m\<close> when the indices are those of the
  vertices, one per name, and the edges are the dependencies \<open>r\<close> seen through them.
\<close>

abbreviation idx :: "(string \<rightharpoonup> 'i) \<Rightarrow> string \<times> string \<Rightarrow> 'i \<times> 'i" where
  "idx ind \<equiv> map_prod (\<lambda>n. the (ind n)) (\<lambda>n. the (ind n))"

definition represents :: "('g, 'i) graph_ops \<Rightarrow> ('g \<Rightarrow> ('i \<times> 'i) set) \<Rightarrow> 'g \<Rightarrow> (string \<rightharpoonup> 'i) \<Rightarrow>
    (string \<rightharpoonup> Spec) \<Rightarrow> (string \<times> string) set \<Rightarrow> bool" where
  "represents G edges g ind m r \<longleftrightarrow>
    dom ind = dom m \<and> inj_on (\<lambda>n. the (ind n)) (dom m) \<and>
    (\<forall>i s. g_Vertex G g i = Some s \<longleftrightarrow> (\<exists>n. ind n = Some i \<and> m n = Some s)) \<and>
    edges g = idx ind ` r"

context graph_library
begin

lemma add_vertices_represents:
  assumes "represents G edges g ind m {}" and "distinct (map fst es)" and "fst ` set es \<inter> dom m = {}"
    and "add_vertices G es g ind = (g', ind')"
  shows "represents G edges g' ind' (m ++ map_of es) {}"
  using assms
proof (induction es arbitrary: g ind m)
  case Nil
  then show ?case by simp
next
  case (Cons e es)
  obtain n s where e: "e = (n, s)" by (cases e)
  obtain i g1 where add: "g_AddVertex G g s = (i, g1)" by (cases "g_AddVertex G g s")
  have rep: "represents G edges g ind m {}" by (rule Cons.prems(1))
  have n: "n \<notin> dom m" "n \<notin> dom ind"
    using Cons.prems(3) e rep by (auto simp: represents_def)
  have fresh: "ind k \<noteq> Some i" for k
  proof
    assume "ind k = Some i"
    moreover from this have "k \<in> dom m"
      using rep by (metis domI represents_def)
    then obtain t where "m k = Some t" by blast
    ultimately have "g_Vertex G g i = Some t"
      using rep by (auto simp: represents_def)
    with add_fresh [OF add] show False by simp
  qed
  have "represents G edges g1 (ind(n \<mapsto> i)) (m(n \<mapsto> s)) {}"
    unfolding represents_def
  proof (intro conjI allI)
    show "dom (ind(n \<mapsto> i)) = dom (m(n \<mapsto> s))"
      using rep by (simp add: represents_def)
    show "inj_on (\<lambda>k. the ((ind(n \<mapsto> i)) k)) (dom (m(n \<mapsto> s)))"
    proof -
      have "inj_on (\<lambda>k. the (ind k)) (dom m)" and d: "dom ind = dom m"
        using rep by (auto simp: represents_def)
      moreover have "the (ind k) \<noteq> i" if "k \<in> dom m" for k
        using that fresh [of k] d by (metis domD option.sel)
      moreover have "dom (m(n \<mapsto> s)) = insert n (dom m)" and "\<And>k. k \<in> dom m \<Longrightarrow> k \<noteq> n"
        using n by auto
      ultimately show ?thesis
        by (simp add: inj_on_def) metis
    qed
    show "edges g1 = idx (ind(n \<mapsto> i)) ` {}"
      using add_edges [OF add] rep by (simp add: represents_def)
    fix j t
    show "(g_Vertex G g1 j = Some t) = (\<exists>k. (ind(n \<mapsto> i)) k = Some j \<and> (m(n \<mapsto> s)) k = Some t)"
    proof (cases "j = i")
      case True
      then show ?thesis
        using add_vertex [OF add] fresh by auto
    next
      case False
      then have "g_Vertex G g1 j = g_Vertex G g j"
        using add_vertex [OF add] by simp
      also have "(\<dots> = Some t) = (\<exists>k. ind k = Some j \<and> m k = Some t)"
        using rep by (simp add: represents_def)
      also have "\<dots> = (\<exists>k. (ind(n \<mapsto> i)) k = Some j \<and> (m(n \<mapsto> s)) k = Some t)"
        using n False by auto
      finally show ?thesis .
    qed
  qed
  moreover have "distinct (map fst es)" "fst ` set es \<inter> dom (m(n \<mapsto> s)) = {}"
    using Cons.prems(2,3) e by auto
  moreover have "add_vertices G es g1 (ind(n \<mapsto> i)) = (g', ind')"
    using Cons.prems(4) e add by simp
  ultimately have "represents G edges g' ind' (m(n \<mapsto> s) ++ map_of es) {}"
    by (rule Cons.IH)
  moreover have "m(n \<mapsto> s) ++ map_of es = m ++ map_of (e # es)"
  proof -
    have "map_of es n = None"
      using Cons.prems(2) e by (simp add: map_of_eq_None_iff)
    then show ?thesis
      using e by (auto simp: map_add_def fun_eq_iff split: option.splits)
  qed
  ultimately show ?case by (simp only:)
qed

lemma new_represents: "represents G edges (g_new G) Map.empty Map.empty {}"
  by (simp add: represents_def new_vertex new_edges)

lemma add_all_represents:
  assumes "enumerates es m" and "add_vertices G es (g_new G) Map.empty = (g, ind)"
  shows "represents G edges g ind m {}"
  using add_vertices_represents [OF new_represents _ _ assms(2)] assms(1)
  by (auto simp: enumerates_def)

lemma connect_pairs_edges:
  assumes "represents G edges g ind m r" and "connect_pairs G ind ps g = (None, g')"
  shows "represents G edges g' ind m (r \<union> set ps)" and "fst ` set ps \<subseteq> dom m"
  using assms
proof (induction ps arbitrary: g r)
  case (Cons p ps)
  obtain d n where p: "p = (d, n)" by (cases p)
  {
    case 1
    with p obtain i g1 where i: "ind d = Some i" and g1: "g_Connect G g i (the (ind n)) = Inr g1"
      and rest: "connect_pairs G ind ps g1 = (None, g')"
      by (auto split: option.splits sum.splits)
    have "represents G edges g1 ind m (insert p r)"
      using 1(1) connect_edges [OF g1] connect_vertex [OF g1] i p by (simp add: represents_def)
    from Cons.IH(1) [OF this rest] show ?case by simp
  next
    case 2
    with p obtain i g1 where i: "ind d = Some i" and g1: "g_Connect G g i (the (ind n)) = Inr g1"
      and rest: "connect_pairs G ind ps g1 = (None, g')"
      by (auto split: option.splits sum.splits)
    have "represents G edges g1 ind m (insert p r)"
      using 2(1) connect_edges [OF g1] connect_vertex [OF g1] i p by (simp add: represents_def)
    from Cons.IH(2) [OF this rest] show ?case
      using i p 2(1) by (auto simp: represents_def)
  }
qed auto

lemma connect_pairs_complete:
  assumes "represents G edges g ind m r" and "r \<subseteq> dom m \<times> dom m" and "distinct ps"
    and "set ps \<subseteq> dom m \<times> dom m" and "r \<inter> set ps = {}" and "\<forall>(d, n) \<in> set ps. d \<noteq> n"
  shows "\<exists>g'. connect_pairs G ind ps g = (None, g')"
  using assms
proof (induction ps arbitrary: g r)
  case (Cons p ps)
  obtain d n where p: "p = (d, n)" by (cases p)
  have mem: "d \<in> dom m" "n \<in> dom m" "d \<noteq> n" "(d, n) \<notin> r"
    using Cons.prems p by auto
  have inj: "inj_on (\<lambda>n. the (ind n)) (dom m)" and dom: "dom ind = dom m"
    using Cons.prems(1) by (auto simp: represents_def)
  obtain i j where i: "ind d = Some i" and j: "ind n = Some j"
    using mem dom by blast
  have "i \<noteq> j"
    using inj_onD [OF inj, of d n] mem i j by auto
  moreover have "(i, j) \<notin> edges g"
  proof
    assume "(i, j) \<in> edges g"
    then obtain d' n' where "(d', n') \<in> r" "i = the (ind d')" "j = the (ind n')"
      using Cons.prems(1) by (auto simp: represents_def)
    then have "d' = d" "n' = n"
      using inj_onD [OF inj, of d' d] inj_onD [OF inj, of n' n] Cons.prems(2) mem i j by auto
    with \<open>(d', n') \<in> r\<close> mem show False by simp
  qed
  moreover have "g_Vertex G g i \<noteq> None" "g_Vertex G g j \<noteq> None"
    using Cons.prems(1) i j mem by (force simp: represents_def)+
  ultimately obtain g1 where g1: "g_Connect G g i j = Inr g1"
    using connect_ok by blast
  have "represents G edges g1 ind m (insert p r)"
    using Cons.prems(1) connect_edges [OF g1] connect_vertex [OF g1] i j p by (simp add: represents_def)
  from Cons.IH [OF this] Cons.prems p have "\<exists>g'. connect_pairs G ind ps g1 = (None, g')"
    by auto
  then show ?case
    using g1 i j p by simp
qed auto

lemma connect_pairs_missing:
  assumes "represents G edges g ind m r" and "connect_pairs G ind ps g = (None, g')"
  shows "fst ` set ps \<subseteq> dom m"
  using connect_pairs_edges(2) [OF assms] .

lemma represents_graph:
  assumes rep: "represents G edges g ind m (dep_rel m)" and fin: "finite (dom m)"
    and pres: "deps_present m"
  shows "dom (g_Vertex G g) = (\<lambda>n. the (ind n)) ` dom m"
    and "finite (dom (g_Vertex G g))"
    and "edges g \<subseteq> dom (g_Vertex G g) \<times> dom (g_Vertex G g)"
    and "acyclic (edges g) \<longleftrightarrow> acyclic (dep_rel m)"
proof -
  have dom: "dom ind = dom m" and inj: "inj_on (\<lambda>n. the (ind n)) (dom m)"
    and ed: "edges g = idx ind ` dep_rel m"
    and vert: "\<And>i s. g_Vertex G g i = Some s \<longleftrightarrow> (\<exists>n. ind n = Some i \<and> m n = Some s)"
    using rep by (auto simp: represents_def)
  show d: "dom (g_Vertex G g) = (\<lambda>n. the (ind n)) ` dom m"
  proof (intro equalityI subsetI)
    fix i
    assume "i \<in> dom (g_Vertex G g)"
    then obtain n s where "ind n = Some i" "m n = Some s"
      using vert by blast
    then show "i \<in> (\<lambda>n. the (ind n)) ` dom m"
      by (intro image_eqI [of _ _ n]) auto
  next
    fix i
    assume "i \<in> (\<lambda>n. the (ind n)) ` dom m"
    then obtain n where n: "n \<in> dom m" "i = the (ind n)" by blast
    then obtain s where "m n = Some s" "ind n = Some i"
      using dom by (metis domD option.sel)
    then show "i \<in> dom (g_Vertex G g)"
      using vert by blast
  qed
  show "finite (dom (g_Vertex G g))"
    using fin by (simp add: d)
  show "edges g \<subseteq> dom (g_Vertex G g) \<times> dom (g_Vertex G g)"
    using dep_rel_field [OF pres] unfolding ed d by auto
  show "acyclic (edges g) \<longleftrightarrow> acyclic (dep_rel m)"
    unfolding ed by (rule acyclic_map_prod_iff [OF inj dep_rel_field [OF pres]])
qed

lemma represents_vertex:
  assumes "represents G edges g ind m r" and "m n = Some s"
  shows "g_Vertex G g (the (ind n)) = Some s" and "ind n = Some (the (ind n))"
proof -
  have "n \<in> dom ind"
    using assms by (metis domI represents_def)
  then show i: "ind n = Some (the (ind n))"
    by auto
  have "\<exists>k. ind k = Some (the (ind n)) \<and> m k = Some s"
    using i assms(2) by blast
  then show "g_Vertex G g (the (ind n)) = Some s"
    using assms(1) unfolding represents_def by blast
qed

lemma plan_of_order:
  assumes rep: "represents G edges g ind m (dep_rel m)" and fin: "finite (dom m)"
    and pres: "deps_present m" and nm: "named m"
    and sort: "g_TopologicalSort G g = Inr ord"
  shows "\<exists>ss. those (map (g_Vertex G g) ord) = Some ss \<and> is_plan m ss"
proof -
  note gr = represents_graph [OF rep fin pres]
  have ord: "distinct ord" "set ord = (\<lambda>n. the (ind n)) ` dom m"
    using sort_perm [OF gr(2,3) sort] gr(1) by auto
  let ?nm = "\<lambda>i. spec_Name (the (g_Vertex G g i))"
  let ?ss = "map (the \<circ> g_Vertex G g) ord"
  have vert: "g_Vertex G g (the (ind n)) = m n" if "n \<in> dom m" for n
    using that represents_vertex(1) [OF rep] by auto
  have name: "?nm (the (ind n)) = n" if "n \<in> dom m" for n
    using that vert [OF that] nm by (auto simp: named_def)
  have those: "those (map (g_Vertex G g) ord) = Some ?ss"
    by (rule those_map_defined) (use ord(2) gr(1) in blast)
  have names: "map spec_Name ?ss = map ?nm ord"
    by simp
  have "distinct (map ?nm ord)"
    using ord name by (auto simp: distinct_map inj_on_def)
  then have "distinct ?ss"
    using names distinct_map by metis
  moreover have "set ?ss = ran m"
  proof -
    have "set ?ss = (\<lambda>n. the (m n)) ` dom m"
      using ord(2) vert by (auto simp: image_image)
    also have "\<dots> = ran m"
      by (force simp: ran_def)
    finally show ?thesis .
  qed
  moreover have "before (map spec_Name ?ss) d n" if dn: "(d, n) \<in> dep_rel m" for d n
  proof -
    have mem: "d \<in> dom m" "n \<in> dom m"
      using dep_rel_field [OF pres] dn by auto
    have "(the (ind d), the (ind n)) \<in> edges g"
      using rep map_prod_imageI [OF dn] by (simp add: represents_def)
    from sort_before [OF gr(2,3) sort this] have "before ord (the (ind d)) (the (ind n))" .
    from before_map [OF this, of ?nm] show ?thesis
      using name mem by (simp only: names)
  qed
  ultimately have "is_plan m ?ss"
    by (simp add: is_plan_def)
  with those show ?thesis by blast
qed

text \<open>One call of \<open>Plan\<close>, up to the sort.\<close>

lemma Plan_cases:
  assumes es1: "enumerates es1 (pl_specs p)" and es2: "enumerates es2 (pl_specs p)"
  obtains g ind e g' where
    "represents G edges g ind (pl_specs p) {}"
    "connect_pairs G ind (dep_pairs es2) g = (e, g')"
    "\<And>msg. e = Some msg \<Longrightarrow>
       Plan G es1 es2 p = Ret (Inl msg, p\<lparr>pl_graph := g', pl_indices := ind\<rparr>)"
    "e = None \<Longrightarrow> represents G edges g' ind (pl_specs p) (dep_rel (pl_specs p)) \<and> deps_present (pl_specs p)"
    "e = None \<Longrightarrow> Plan G es1 es2 p = plan_tail G g' (p\<lparr>pl_graph := g', pl_indices := ind\<rparr>)"
proof -
  obtain g ind where v: "add_vertices G es1 (g_new G) Map.empty = (g, ind)"
    by (cases "add_vertices G es1 (g_new G) Map.empty")
  obtain e g' where c: "connect_pairs G ind (dep_pairs es2) g = (e, g')"
    by (cases "connect_pairs G ind (dep_pairs es2) g")
  have rep: "represents G edges g ind (pl_specs p) {}"
    by (rule add_all_represents [OF es1 v])
  show thesis
  proof (rule that [OF rep c])
    show "Plan G es1 es2 p = Ret (Inl msg, p\<lparr>pl_graph := g', pl_indices := ind\<rparr>)" if "e = Some msg" for msg
      using that c v by (simp add: Plan_def connect_all_pairs)
    show "Plan G es1 es2 p = plan_tail G g' (p\<lparr>pl_graph := g', pl_indices := ind\<rparr>)" if "e = None"
      using that c v by (simp add: Plan_def connect_all_pairs)
    assume "e = None"
    with c have c': "connect_pairs G ind (dep_pairs es2) g = (None, g')" by simp
    have "Domain (dep_rel (pl_specs p)) = fst ` set (dep_pairs es2)"
      by (simp add: dep_pairs_set [OF es2] Domain_fst)
    then show "represents G edges g' ind (pl_specs p) (dep_rel (pl_specs p)) \<and> deps_present (pl_specs p)"
      using connect_pairs_edges [OF rep c'] dep_pairs_set [OF es2] by (simp add: deps_present_def)
  qed
qed

lemma Plan_returns:
  assumes "enumerates es1 (pl_specs p)" and "enumerates es2 (pl_specs p)" and "named (pl_specs p)"
  obtains (rejected) e p' where "Plan G es1 es2 p = Ret (Inl e, p')" "pl_specs p' = pl_specs p"
  | (planned) ss p' where "Plan G es1 es2 p = Ret (Inr ss, p')" "pl_specs p' = pl_specs p"
      "is_plan (pl_specs p) ss" "deps_present (pl_specs p)" "acyclic (dep_rel (pl_specs p))"
      "represents G edges (pl_graph p') (pl_indices p') (pl_specs p) (dep_rel (pl_specs p))"
proof (rule Plan_cases [OF assms(1,2)])
  fix g ind e g'
  assume rej: "\<And>msg. e = Some msg \<Longrightarrow>
        Plan G es1 es2 p = Ret (Inl msg, p\<lparr>pl_graph := g', pl_indices := ind\<rparr>)"
    and rep: "e = None \<Longrightarrow> represents G edges g' ind (pl_specs p) (dep_rel (pl_specs p)) \<and>
        deps_present (pl_specs p)"
    and tail: "e = None \<Longrightarrow> Plan G es1 es2 p = plan_tail G g' (p\<lparr>pl_graph := g', pl_indices := ind\<rparr>)"
  show thesis
  proof (cases e)
    case (Some msg)
    show thesis by (rule rejected [OF rej [OF Some]]) simp
  next
    case None
    have fin: "finite (dom (pl_specs p))"
      by (rule enumerates_finite [OF assms(1)])
    note gr = represents_graph [OF conjunct1 [OF rep [OF None]] fin conjunct2 [OF rep [OF None]]]
    show thesis
    proof (cases "g_TopologicalSort G g'")
      case (Inl ge)
      show thesis
        by (rule rejected [OF tail [OF None, unfolded plan_tail_def Inl sum.case]]) simp
    next
      case (Inr ord)
      from plan_of_order [OF conjunct1 [OF rep [OF None]] fin conjunct2 [OF rep [OF None]] assms(3) Inr]
      obtain ss where ss: "those (map (g_Vertex G g') ord) = Some ss" "is_plan (pl_specs p) ss"
        by blast
      have "acyclic (edges g')"
        using sort_cyclic [OF gr(2,3)] Inr by auto
      then show thesis
        using planned [OF tail [OF None, unfolded plan_tail_def Inr sum.case ss(1) option.case]]
          ss(2) rep [OF None] gr(4) by simp
    qed
  qed
qed

lemma Plan_accepts:
  assumes es: "enumerates es1 (pl_specs p)" "enumerates es2 (pl_specs p)" and nm: "named (pl_specs p)"
    and dist: "deps_distinct (pl_specs p)" and irr: "irrefl (dep_rel (pl_specs p))"
    and pres: "deps_present (pl_specs p)"
  shows "acyclic (dep_rel (pl_specs p)) \<Longrightarrow> \<exists>ss p'. Plan G es1 es2 p = Ret (Inr ss, p')"
    and "\<not> acyclic (dep_rel (pl_specs p)) \<Longrightarrow>
      \<exists>p'. Plan G es1 es2 p = Ret (Inl ''dependency cycle detected'', p')"
proof -
  have "\<exists>r. Plan G es1 es2 p = Ret r \<and>
      (if acyclic (dep_rel (pl_specs p)) then \<exists>ss. fst r = Inr ss
       else fst r = Inl ''dependency cycle detected'')"
  proof (rule Plan_cases [OF es])
    fix g ind e g'
    assume rep0: "represents G edges g ind (pl_specs p) {}"
      and run: "connect_pairs G ind (dep_pairs es2) g = (e, g')"
      and rep: "e = None \<Longrightarrow> represents G edges g' ind (pl_specs p) (dep_rel (pl_specs p)) \<and>
          deps_present (pl_specs p)"
      and tail: "e = None \<Longrightarrow> Plan G es1 es2 p = plan_tail G g' (p\<lparr>pl_graph := g', pl_indices := ind\<rparr>)"
    have "distinct (dep_pairs es2)"
      using es(2) dist enumerates_ran [OF es(2)]
      by (intro dep_pairs_distinct) (auto simp: deps_distinct_def)
    with connect_pairs_complete [OF rep0, of "dep_pairs es2"] dep_rel_field [OF pres] irr
    have "e = None"
      using run by (auto simp: dep_pairs_set [OF es(2)] irrefl_def)
    note rep = rep [OF this] and tail = tail [OF this]
    have fin: "finite (dom (pl_specs p))"
      by (rule enumerates_finite [OF es(1)])
    note gr = represents_graph [OF conjunct1 [OF rep] fin pres]
    show ?thesis
    proof (cases "acyclic (dep_rel (pl_specs p))")
      case True
      then obtain ord where ord: "g_TopologicalSort G g' = Inr ord"
        using sort_acyclic [OF gr(2,3)] gr(4) by blast
      from plan_of_order [OF conjunct1 [OF rep] fin pres nm this]
      show ?thesis
        using tail ord True by (auto simp: plan_tail_def)
    next
      case False
      then show ?thesis
        using tail sort_cyclic [OF gr(2,3)] gr(4) by (simp add: plan_tail_def)
    qed
  qed
  then show "acyclic (dep_rel (pl_specs p)) \<Longrightarrow> \<exists>ss p'. Plan G es1 es2 p = Ret (Inr ss, p')"
    and "\<not> acyclic (dep_rel (pl_specs p)) \<Longrightarrow>
      \<exists>p'. Plan G es1 es2 p = Ret (Inl ''dependency cycle detected'', p')"
    by auto
qed

text \<open>
  \<open>DependentsOf\<close> reads the graph of the last \<open>Plan\<close>: it answers about the specs \<open>m\<close> of that
  plan, whatever the specs of the planner are now.
\<close>

lemma DependentsOf_represents:
  assumes rep: "represents G edges (pl_graph p) (pl_indices p) m (dep_rel m)" and nm: "named m"
    and pres: "deps_present m" and acyc: "acyclic (dep_rel m)"
    and n: "m n = Some s"
  shows "\<exists>ds. DependentsOf G p n = Ret (Inr ds) \<and> distinct ds \<and>
    set ds = {d. (n, d) \<in> (dep_rel m)\<^sup>+}"
proof -
  let ?g = "pl_graph p" and ?f = "\<lambda>n. the (pl_indices p n)"
  have inj: "inj_on ?f (dom m)" and ed: "edges ?g = idx (pl_indices p) ` dep_rel m"
    using rep by (auto simp: represents_def)
  have ind: "pl_indices p n = Some (?f n)" and vn: "g_Vertex G ?g (?f n) = Some s"
    using represents_vertex [OF rep n] by auto
  let ?idxs = "filter (\<lambda>i. i \<noteq> ?f n) (g_Flood G ?g (?f n))"
  have "set (g_Flood G ?g (?f n)) = (edges ?g)\<^sup>* `` {?f n}"
    using flood_set vn by simp
  also have "\<dots> = ?f ` {d. (n, d) \<in> (dep_rel m)\<^sup>*}"
    using rtrancl_map_prod_iff [OF inj dep_rel_field [OF pres], of n] n unfolding ed by auto
  finally have "set ?idxs = ?f ` {d. (n, d) \<in> (dep_rel m)\<^sup>*} - {?f n}"
    by auto
  also have "\<dots> = ?f ` {d. (n, d) \<in> (dep_rel m)\<^sup>+}"
  proof -
    have "d \<in> dom m" if "(n, d) \<in> (dep_rel m)\<^sup>+" for d
      using tranclD2 [OF that] dep_rel_field [OF pres] by blast
    then have "?f d \<noteq> ?f n" if "(n, d) \<in> (dep_rel m)\<^sup>+" for d
      using that inj_onD [OF inj, of d n] n acyc by (auto simp: acyclic_def)
    then show ?thesis
      by (auto simp: rtrancl_eq_or_trancl)
  qed
  finally have dep: "set ?idxs = ?f ` {d. (n, d) \<in> (dep_rel m)\<^sup>+}" .
  have vert: "g_Vertex G ?g (?f d) = m d \<and> m d \<noteq> None \<and> spec_Name (the (m d)) = d"
    if "(n, d) \<in> (dep_rel m)\<^sup>+" for d
  proof -
    have "d \<in> dom m"
      using tranclD2 [OF that] dep_rel_field [OF pres] by blast
    then obtain t where "m d = Some t" by blast
    then show ?thesis
      using represents_vertex(1) [OF rep] nm by (auto simp: named_def)
  qed
  let ?ss = "map (the \<circ> g_Vertex G ?g) ?idxs"
  have "those (map (g_Vertex G ?g) ?idxs) = Some ?ss"
    by (rule those_map_defined) (use dep vert in auto)
  then have "DependentsOf G p n = Ret (Inr (map spec_Name ?ss))"
    by (subst DependentsOf_def, subst ind) (simp del: map_map)
  moreover have "distinct ?idxs"
    using flood_distinct by simp
  then have "distinct (map spec_Name ?ss)"
    using dep vert by (auto simp: distinct_map inj_on_def)
  moreover have "set (map spec_Name ?ss) = {d. (n, d) \<in> (dep_rel m)\<^sup>+}"
  proof -
    have "set (map spec_Name ?ss) = (\<lambda>i. spec_Name (the (g_Vertex G ?g i))) ` set ?idxs"
      by (simp add: image_image)
    also have "\<dots> = (\<lambda>d. spec_Name (the (g_Vertex G ?g (?f d)))) ` {d. (n, d) \<in> (dep_rel m)\<^sup>+}"
      unfolding dep by (simp add: image_image)
    also have "\<dots> = {d. (n, d) \<in> (dep_rel m)\<^sup>+}"
      using vert by force
    finally show ?thesis .
  qed
  ultimately show ?thesis by blast
qed

end

section \<open>Properties\<close>

definition demo_bastion :: Spec where
  "demo_bastion = SSH_Spec (SSHSpecS (demo_spec\<lparr>ts_Name := ''bastion'', ts_DependsOn := []\<rparr>))"

definition demo_kube :: Spec where
  "demo_kube = SSH_Spec (SSHSpecS (demo_spec\<lparr>ts_Name := ''kube'', ts_DependsOn := [''bastion'']\<rparr>))"

definition demo_entries :: "(string \<times> Spec) list" where
  "demo_entries = [(''kube'', demo_kube), (''bastion'', demo_bastion)]"

definition demo_planner :: "(adj, nat) Planner" where
  "demo_planner = NewPlanner adj_ops (map_of demo_entries)"

lemmas demo_planner_defs = demo_planner_def demo_entries_def demo_kube_def demo_bastion_def
  NewPlanner_def SSHSpec_Name_def SSHSpec_Dependencies_def

lemma demo_enumerates: "enumerates demo_entries (pl_specs demo_planner)"
  by (simp add: enumerates_def demo_planner_def demo_entries_def)

lemma demo_named: "named (pl_specs demo_planner)"
  by (auto simp: named_def demo_planner_defs split: if_splits)

lemma demo_dep_rel: "dep_rel (pl_specs demo_planner) = {(''bastion'', ''kube'')}"
  by (auto simp: dep_rel_def demo_planner_defs split: if_splits)

lemma demo_deps: "deps_present (pl_specs demo_planner)" "deps_distinct (pl_specs demo_planner)"
  "irrefl (dep_rel (pl_specs demo_planner))" "acyclic (dep_rel (pl_specs demo_planner))"
proof -
  show "deps_present (pl_specs demo_planner)"
    by (simp add: deps_present_def demo_dep_rel) (simp add: demo_planner_defs)
  show "deps_distinct (pl_specs demo_planner)"
    by (auto simp: deps_distinct_def demo_planner_defs ran_def split: if_splits)
  show "irrefl (dep_rel (pl_specs demo_planner))"
    by (simp add: demo_dep_rel irrefl_def)
  show "acyclic (dep_rel (pl_specs demo_planner))"
    unfolding demo_dep_rel acyclic_insert by (simp add: acyclic_def)
qed

text \<open>
  C3: \<open>Plan\<close> never panics, keeps the specs, and when it returns an order this order lists
  every spec exactly once, each after all of its dependencies: for every visiting order of the
  map and every graph library that keeps its contract. It only returns an order when every
  dependency exists and there is no cycle.
\<close>

theorem Plan_sound:
  assumes "graph_library G edges"
    and "enumerates es1 (pl_specs p)" and "enumerates es2 (pl_specs p)" and "named (pl_specs p)"
  shows "\<exists>r p'. Plan G es1 es2 p = Ret (r, p') \<and> pl_specs p' = pl_specs p \<and>
    (\<forall>ss. r = Inr ss \<longrightarrow> is_plan (pl_specs p) ss \<and> deps_present (pl_specs p) \<and>
       acyclic (dep_rel (pl_specs p)))"
  by (rule graph_library.Plan_returns [OF assms]) simp_all

lemma Plan_sound_witness:
  "\<exists>r p'. Plan adj_ops demo_entries demo_entries demo_planner = Ret (r, p') \<and>
    pl_specs p' = pl_specs demo_planner \<and>
    (\<forall>ss. r = Inr ss \<longrightarrow> is_plan (pl_specs demo_planner) ss \<and> deps_present (pl_specs demo_planner) \<and>
       acyclic (dep_rel (pl_specs demo_planner)))"
  by (rule Plan_sound [OF adj_library demo_enumerates demo_enumerates demo_named])



text \<open>
  C14: After a successful \<open>Plan\<close>, \<open>DependentsOf\<close> of a known tunnel returns, each once, exactly
  the tunnels that depend on it directly or indirectly; it neither panics nor fails.
\<close>

theorem DependentsOf_transitive:
  assumes "graph_library G edges"
    and "enumerates es1 (pl_specs p)" and "enumerates es2 (pl_specs p)" and "named (pl_specs p)"
    and "Plan G es1 es2 p = Ret (Inr ss, p')" and "n \<in> dom (pl_specs p)"
  shows "\<exists>ds. DependentsOf G p' n = Ret (Inr ds) \<and> distinct ds \<and>
    set ds = {d. (n, d) \<in> (dep_rel (pl_specs p))\<^sup>+}"
proof (rule graph_library.Plan_returns [OF assms(1-4)])
  fix e p''
  assume "Plan G es1 es2 p = Ret (Inl e, p'')"
  with assms(5) show ?thesis by simp
next
  fix ss' p''
  assume "Plan G es1 es2 p = Ret (Inr ss', p'')" and planned: "deps_present (pl_specs p)"
    "acyclic (dep_rel (pl_specs p))"
    "represents G edges (pl_graph p'') (pl_indices p'') (pl_specs p) (dep_rel (pl_specs p))"
  with assms(5) have "p'' = p'" by simp
  with planned assms(4,6) show ?thesis
    using graph_library.DependentsOf_represents [OF assms(1)] by (metis domD)
qed

lemma demo_plan: "\<exists>ss p'. Plan adj_ops demo_entries demo_entries demo_planner = Ret (Inr ss, p')"
  using graph_library.Plan_accepts(1) [OF adj_library demo_enumerates demo_enumerates demo_named
      demo_deps(2,3,1,4)] .

lemma DependentsOf_transitive_witness:
  "\<exists>ss p' ds. Plan adj_ops demo_entries demo_entries demo_planner = Ret (Inr ss, p') \<and>
     DependentsOf adj_ops p' ''bastion'' = Ret (Inr ds) \<and> distinct ds \<and>
     set ds = {d. (''bastion'', d) \<in> (dep_rel (pl_specs demo_planner))\<^sup>+}"
proof -
  obtain ss p' where plan: "Plan adj_ops demo_entries demo_entries demo_planner = Ret (Inr ss, p')"
    using demo_plan by blast
  moreover have "''bastion'' \<in> dom (pl_specs demo_planner)"
    by (simp add: demo_planner_defs)
  ultimately show ?thesis
    using DependentsOf_transitive [OF adj_library demo_enumerates demo_enumerates demo_named] by blast
qed

end
