(* ===== verification/Health_Check.thy ===== *)
theory Health_Check
  imports Tunnel_Specs
begin

text \<open>
  \<open>internal/health/checker.go\<close>. The connection attempt of \<open>net.Dialer\<close> is an argument
  (address and timeout to an error, if any).
\<close>

section \<open>Definitions\<close>

datatype Checker = TCPChecker (chk_address: string) (chk_timeout: duration) | NoneChecker

type_synonym dialer = "string \<Rightarrow> duration \<Rightarrow> err option"

definition NewTCPChecker :: "duration_ops \<Rightarrow> HealthCheckSpec \<Rightarrow> Checker" where
  "NewTCPChecker D spec =
    (let timeout = das D (hc_Timeout spec) in
     TCPChecker (hc_Address spec) (if timeout = 0 then of_int (2 * Second) else timeout))"

definition TCPChecker_Check :: "dialer \<Rightarrow> string \<Rightarrow> duration \<Rightarrow> err option" where
  "TCPChecker_Check dial addr timeout =
    (case dial addr timeout of Some e \<Rightarrow> Some e | None \<Rightarrow> None)"

definition NoneChecker_Check :: "err option" where
  "NoneChecker_Check = None"

fun Check :: "dialer \<Rightarrow> Checker \<Rightarrow> err option" where
  "Check dial (TCPChecker addr timeout) = TCPChecker_Check dial addr timeout"
| "Check dial NoneChecker = NoneChecker_Check"

definition NewChecker :: "duration_ops \<Rightarrow> HealthCheckSpec option \<Rightarrow> Checker" where
  "NewChecker D spec =
    (case spec of
       None \<Rightarrow> NoneChecker
     | Some h \<Rightarrow> if hc_Type h = ''tcp'' then NewTCPChecker D h else NoneChecker)"

section \<open>Properties\<close>

text \<open>
  the health gate. Only a check of type \<open>tcp\<close> ever fails, and it fails exactly when a
  connection to the configured address within the configured timeout (2 s when unset) does;
  every other type, an unknown one or none included, is healthy at once.
\<close>

theorem NewChecker_gate:
  "Check dial (NewChecker D spec) =
    (case spec of
       Some h \<Rightarrow> if hc_Type h = ''tcp''
         then dial (hc_Address h)
           (if das D (hc_Timeout h) = 0 then DefaultHealthTimeout else das D (hc_Timeout h))
         else None
     | None \<Rightarrow> None)"
  by (simp add: NewChecker_def NewTCPChecker_def TCPChecker_Check_def NoneChecker_Check_def
      Let_def DefaultHealthTimeout_def split: option.splits)

end
