(* ===== verification/Config.thy ===== *)
theory Config
  imports Tunnel_Specs
begin

text \<open>
  \<open>internal/config/config.go\<close>: the YAML configuration, its translation to and from the
  message form of a spec, its validation and the switch that enables a tunnel. YAML itself
  (\<open>gopkg.in/yaml.v3\<close>) is an argument.
\<close>

section \<open>Data\<close>

record BackoffConfig =
  bc_Multiplier :: float32
  bc_MaxDelay :: duration

record RestartPolicyConfig =
  rc_Policy :: string
  rc_Delay :: duration
  rc_MaxAttempts :: gint
  rc_Backoff :: "BackoffConfig option"

record HealthCheckConfig =
  hcc_Type :: string
  hcc_Address :: string
  hcc_Interval :: duration
  hcc_Timeout :: duration
  hcc_StartupTimeout :: duration

record cfg_SSHForward =
  csf_ListenAddress :: string
  csf_ListenPort :: gint
  csf_TargetHost :: string
  csf_TargetPort :: gint

record SSHConfig =
  sc_User :: string
  sc_Host :: string
  sc_Port :: gint
  sc_IdentityKeyFile :: string
  sc_IdentityKeyRef :: string
  sc_LocalForwards :: "cfg_SSHForward list"
  sc_Options :: "string \<rightharpoonup> string"

record cfg_KubectlForward =
  ckf_LocalAddress :: string
  ckf_LocalPort :: gint
  ckf_RemotePort :: gint

record KubectlConfig =
  kcc_KubeconfigFile :: string
  kcc_KubeconfigRef :: string
  kcc_Context :: string
  kcc_Namespace :: string
  kcc_Resource :: string
  kcc_Forwards :: "cfg_KubectlForward list"
  kcc_APIServer :: string
  kcc_InsecureSkipTLSVerify :: bool

record TunnelConfig =
  tc_Enabled :: bool
  tc_Type :: string
  tc_DependsOn :: "string list"
  tc_SSH :: "SSHConfig option"
  tc_Kubectl :: "KubectlConfig option"
  tc_Health :: HealthCheckConfig
  tc_Restart :: RestartPolicyConfig
  tc_StartupTimeout :: duration
  tc_ShutdownTimeout :: duration

record Config =
  cfg_Tunnels :: "string \<rightharpoonup> TunnelConfig"
  cfg_filePath :: string

record yaml_ops =
  y_marshal_config :: "(string \<rightharpoonup> TunnelConfig) \<Rightarrow> err + bytes"
  y_unmarshal_config :: "bytes \<Rightarrow> err + (string \<rightharpoonup> TunnelConfig)"
  y_marshal_tunnel :: "TunnelConfig \<Rightarrow> err + bytes"
  y_unmarshal_tunnel :: "bytes \<Rightarrow> err + TunnelConfig"

section \<open>Loading, saving and enabling\<close>

definition Load :: "'w os \<Rightarrow> yaml_ops \<Rightarrow> 'w \<Rightarrow> string \<Rightarrow> file_err + Config" where
  "Load S Y w path =
    (case os_readfile S w path of
       Inl e \<Rightarrow> Inl e
     | Inr data \<Rightarrow>
        (case y_unmarshal_config Y data of
           Inl e \<Rightarrow> Inl (FileErr e)
         | Inr ts \<Rightarrow> Inr \<lparr>cfg_Tunnels = ts, cfg_filePath = path\<rparr>))"

definition Save :: "'w os \<Rightarrow> yaml_ops \<Rightarrow> 'w \<Rightarrow> Config \<Rightarrow> err option \<times> 'w" where
  "Save S Y w c =
    (if cfg_filePath c = [] then (Some ''config file path not set'', w)
     else (case y_marshal_config Y (cfg_Tunnels c) of
        Inl e \<Rightarrow> (Some (''failed to marshal config: '' @ e), w)
      | Inr data \<Rightarrow> os_writefile S w (cfg_filePath c) data PermFilePublic))"

definition SetEnabled ::
    "'w os \<Rightarrow> yaml_ops \<Rightarrow> 'w \<Rightarrow> string \<Rightarrow> bool \<Rightarrow> Config \<Rightarrow> err option \<times> Config \<times> 'w" where
  "SetEnabled S Y w nm enabled c =
    (case cfg_Tunnels c nm of
       None \<Rightarrow> (Some (''tunnel '' @ quote nm @ '' not found in config''), c, w)
     | Some t \<Rightarrow>
        (let c' = c\<lparr>cfg_Tunnels := (cfg_Tunnels c)(nm \<mapsto> t\<lparr>tc_Enabled := enabled\<rparr>)\<rparr> in
         case Save S Y w c' of (e, w') \<Rightarrow> (e, c', w')))"

section \<open>From and to messages\<close>

definition cfg_ssh_forward :: "SSHForward \<Rightarrow> cfg_SSHForward" where
  "cfg_ssh_forward f =
    \<lparr>csf_ListenAddress = sf_ListenAddress f, csf_ListenPort = of_int32 (sf_ListenPort f),
     csf_TargetHost = sf_TargetHost f, csf_TargetPort = of_int32 (sf_TargetPort f)\<rparr>"

definition cfg_kubectl_forward :: "KubectlForward \<Rightarrow> cfg_KubectlForward" where
  "cfg_kubectl_forward f =
    \<lparr>ckf_LocalAddress = kf_LocalAddress f, ckf_LocalPort = of_int32 (kf_LocalPort f),
     ckf_RemotePort = of_int32 (kf_RemotePort f)\<rparr>"

definition cfg_ssh :: "SSHSpec \<Rightarrow> SSHConfig" where
  "cfg_ssh s =
    \<lparr>sc_User = ssh_User s, sc_Host = ssh_Host s, sc_Port = of_int32 (ssh_Port s),
     sc_IdentityKeyFile = ssh_IdentityKeyFile s, sc_IdentityKeyRef = ssh_IdentityKeyRef s,
     sc_LocalForwards = map cfg_ssh_forward (ssh_LocalForwards s), sc_Options = ssh_Options s\<rparr>"

definition cfg_kubectl :: "KubectlSpec \<Rightarrow> KubectlConfig" where
  "cfg_kubectl k =
    \<lparr>kcc_KubeconfigFile = kc_KubeconfigFile k, kcc_KubeconfigRef = kc_KubeconfigRef k,
     kcc_Context = kc_Context k, kcc_Namespace = kc_Namespace k, kcc_Resource = kc_Resource k,
     kcc_Forwards = map cfg_kubectl_forward (kc_Forwards k), kcc_APIServer = kc_ApiServer k,
     kcc_InsecureSkipTLSVerify = kc_InsecureSkipTlsVerify k\<rparr>"

text \<open>\<open>spec.Health.Type\<close> and \<open>spec.Restart.Policy\<close> dereference pointers that may be nil.\<close>

definition tc_FromProto :: "duration_ops \<Rightarrow> TunnelSpec \<Rightarrow> TunnelConfig go" where
  "tc_FromProto D spec =
    (case ts_Health spec of
       None \<Rightarrow> Panic
     | Some h \<Rightarrow>
        (case ts_Restart spec of
           None \<Rightarrow> Panic
         | Some r \<Rightarrow> Ret
            \<lparr>tc_Enabled = True,
             tc_Type = (case ts_Type spec of
                Some (TunnelSpec_Ssh s) \<Rightarrow> ''ssh'' | Some (TunnelSpec_Kubectl k) \<Rightarrow> ''kubectl''
              | None \<Rightarrow> []),
             tc_DependsOn = ts_DependsOn spec,
             tc_SSH = (case ts_Type spec of
                Some (TunnelSpec_Ssh s) \<Rightarrow> Some (cfg_ssh s) | _ \<Rightarrow> None),
             tc_Kubectl = (case ts_Type spec of
                Some (TunnelSpec_Kubectl k) \<Rightarrow> Some (cfg_kubectl k) | _ \<Rightarrow> None),
             tc_Health =
              \<lparr>hcc_Type = hc_Type h, hcc_Address = hc_Address h,
               hcc_Interval = das D (hc_Interval h), hcc_Timeout = das D (hc_Timeout h),
               hcc_StartupTimeout = das D (hc_StartupTimeout h)\<rparr>,
             tc_Restart =
              \<lparr>rc_Policy = rp_Policy r, rc_Delay = das D (rp_Delay r),
               rc_MaxAttempts = of_int32 (rp_MaxAttempts r),
               rc_Backoff = map_option (\<lambda>b. \<lparr>bc_Multiplier = bo_Multiplier b,
                 bc_MaxDelay = das D (bo_MaxDelay b)\<rparr>) (rp_Backoff r)\<rparr>,
             tc_StartupTimeout = das D (ts_StartupTimeout spec),
             tc_ShutdownTimeout = das D (ts_ShutdownTimeout spec)\<rparr>))"

definition pb_ssh_forward :: "cfg_SSHForward \<Rightarrow> SSHForward" where
  "pb_ssh_forward f =
    \<lparr>sf_ListenAddress = csf_ListenAddress f, sf_ListenPort = to_int32 (csf_ListenPort f),
     sf_TargetHost = csf_TargetHost f, sf_TargetPort = to_int32 (csf_TargetPort f)\<rparr>"

definition pb_kubectl_forward :: "cfg_KubectlForward \<Rightarrow> KubectlForward" where
  "pb_kubectl_forward f =
    \<lparr>kf_LocalAddress = ckf_LocalAddress f, kf_LocalPort = to_int32 (ckf_LocalPort f),
     kf_RemotePort = to_int32 (ckf_RemotePort f)\<rparr>"

definition pb_ssh :: "SSHConfig \<Rightarrow> SSHSpec" where
  "pb_ssh s =
    \<lparr>ssh_User = sc_User s, ssh_Host = sc_Host s, ssh_Port = to_int32 (sc_Port s),
     ssh_IdentityKeyFile = sc_IdentityKeyFile s,
     ssh_LocalForwards = map pb_ssh_forward (sc_LocalForwards s), ssh_Options = sc_Options s,
     ssh_IdentityKeyRef = sc_IdentityKeyRef s\<rparr>"

definition pb_kubectl :: "KubectlConfig \<Rightarrow> KubectlSpec" where
  "pb_kubectl k =
    \<lparr>kc_KubeconfigRef = kcc_KubeconfigRef k, kc_Context = kcc_Context k,
     kc_Namespace = kcc_Namespace k, kc_Resource = kcc_Resource k,
     kc_Forwards = map pb_kubectl_forward (kcc_Forwards k), kc_ApiServer = kcc_APIServer k,
     kc_InsecureSkipTlsVerify = kcc_InsecureSkipTLSVerify k,
     kc_KubeconfigFile = kcc_KubeconfigFile k\<rparr>"

definition tc_ToProto :: "duration_ops \<Rightarrow> TunnelConfig \<Rightarrow> string \<Rightarrow> err + TunnelSpec" where
  "tc_ToProto D t nm =
    (let p =
      \<lparr>ts_Name = nm, ts_DependsOn = tc_DependsOn t, ts_Type = None,
       ts_Health = Some
        \<lparr>hc_Type = hcc_Type (tc_Health t), hc_Address = hcc_Address (tc_Health t),
         hc_Interval = Some (dnew D (hcc_Interval (tc_Health t))),
         hc_Timeout = Some (dnew D (hcc_Timeout (tc_Health t))),
         hc_StartupTimeout = Some (dnew D (hcc_StartupTimeout (tc_Health t)))\<rparr>,
       ts_Restart = Some
        \<lparr>rp_Policy = rc_Policy (tc_Restart t), rp_Delay = Some (dnew D (rc_Delay (tc_Restart t))),
         rp_MaxAttempts = to_int32 (rc_MaxAttempts (tc_Restart t)),
         rp_Backoff = map_option (\<lambda>b. \<lparr>bo_Multiplier = bc_Multiplier b,
           bo_MaxDelay = Some (dnew D (bc_MaxDelay b))\<rparr>) (rc_Backoff (tc_Restart t))\<rparr>,
       ts_StartupTimeout = Some (dnew D (tc_StartupTimeout t)),
       ts_ShutdownTimeout = Some (dnew D (tc_ShutdownTimeout t))\<rparr>
     in if tc_Type t = ''ssh''
        then (case tc_SSH t of
           None \<Rightarrow> Inl ''ssh config is required for type ssh''
         | Some s \<Rightarrow> Inr (p\<lparr>ts_Type := Some (TunnelSpec_Ssh (pb_ssh s))\<rparr>))
        else if tc_Type t = ''kubectl''
        then (case tc_Kubectl t of
           None \<Rightarrow> Inl ''kubectl config is required for type kubectl''
         | Some k \<Rightarrow> Inr (p\<lparr>ts_Type := Some (TunnelSpec_Kubectl (pb_kubectl k))\<rparr>))
        else Inl (''unknown tunnel type '' @ quote (tc_Type t)))"

definition MarshalTunnel :: "duration_ops \<Rightarrow> yaml_ops \<Rightarrow> TunnelSpec \<Rightarrow> (err + bytes) go" where
  "MarshalTunnel D Y spec = bind_go (tc_FromProto D spec) (\<lambda>t. Ret (y_marshal_tunnel Y t))"

definition tc_ToSpec :: "duration_ops \<Rightarrow> TunnelConfig \<Rightarrow> string \<Rightarrow> err + Spec" where
  "tc_ToSpec D t nm = (case tc_ToProto D t nm of Inl e \<Rightarrow> Inl e | Inr p \<Rightarrow> FromProto p)"

definition ParseTunnel :: "duration_ops \<Rightarrow> yaml_ops \<Rightarrow> string \<Rightarrow> bytes \<Rightarrow> err + Spec" where
  "ParseTunnel D Y nm data =
    (case y_unmarshal_tunnel Y data of Inl e \<Rightarrow> Inl e | Inr t \<Rightarrow> tc_ToSpec D t nm)"

section \<open>Specs of a configuration and its validation\<close>

fun to_specs :: "duration_ops \<Rightarrow> (string \<times> TunnelConfig) list \<Rightarrow> (string \<rightharpoonup> Spec) \<Rightarrow>
    err + (string \<rightharpoonup> Spec)" where
  "to_specs D [] specs = Inr specs"
| "to_specs D (x # xs) specs =
    (if \<not> tc_Enabled (snd x) then to_specs D xs specs
     else (case tc_ToSpec D (snd x) (fst x) of
        Inl e \<Rightarrow> Inl (''tunnel '' @ quote (fst x) @ '': '' @ e)
      | Inr spec \<Rightarrow> to_specs D xs (specs(fst x \<mapsto> spec))))"

text \<open>\<open>es\<close>, \<open>es1\<close> and \<open>es2\<close> are the orders in which the loops visit the tunnels.\<close>

definition ToSpecs :: "duration_ops \<Rightarrow> (string \<times> TunnelConfig) list \<Rightarrow> err + (string \<rightharpoonup> Spec)" where
  "ToSpecs D es = to_specs D es Map.empty"

definition validate_tunnel :: "duration_ops \<Rightarrow> string \<times> TunnelConfig \<Rightarrow> err option" where
  "validate_tunnel D x =
    (if \<not> tc_Enabled (snd x) then None
     else if tc_Type (snd x) = [] then Some (''tunnel '' @ quote (fst x) @ '': type is required'')
     else (case tc_ToSpec D (snd x) (fst x) of
        Inl e \<Rightarrow> Some (''tunnel '' @ quote (fst x) @ '': '' @ e)
      | Inr spec \<Rightarrow> None))"

definition config_keys :: "duration_ops \<Rightarrow> string \<times> TunnelConfig \<Rightarrow> string list" where
  "config_keys D x =
    (case tc_ToProto D (snd x) (fst x) of Inl e \<Rightarrow> [] | Inr p \<Rightarrow> LocalPortKeys p)"

definition validate_conflict :: "string \<Rightarrow> string \<Rightarrow> string \<Rightarrow> err" where
  "validate_conflict nm owner key =
    ''port conflict: tunnels '' @ quote nm @ '' and '' @ quote owner @ '' both claim '' @ key"

definition Validate :: "duration_ops \<Rightarrow> (string \<times> TunnelConfig) list \<Rightarrow>
    (string \<times> TunnelConfig) list \<Rightarrow> err option" where
  "Validate D es1 es2 =
    (case first_error (validate_tunnel D) es1 of
       Some e \<Rightarrow> Some e
     | None \<Rightarrow> claim_all validate_conflict
         (map (\<lambda>x. (fst x, config_keys D x)) (filter (\<lambda>x. tc_Enabled (snd x)) es2)) Map.empty)"

section \<open>Lemmas\<close>

lemma pb_cfg_ssh_forward [simp]: "pb_ssh_forward (cfg_ssh_forward f) = f"
  by (cases f) (simp add: pb_ssh_forward_def cfg_ssh_forward_def)

lemma pb_cfg_kubectl_forward [simp]: "pb_kubectl_forward (cfg_kubectl_forward f) = f"
  by (cases f) (simp add: pb_kubectl_forward_def cfg_kubectl_forward_def)

lemma pb_cfg_ssh [simp]: "pb_ssh (cfg_ssh s) = s"
  by (cases s) (simp add: pb_ssh_def cfg_ssh_def comp_def)

lemma pb_cfg_kubectl [simp]: "pb_kubectl (cfg_kubectl k) = k"
  by (cases k) (simp add: pb_kubectl_def cfg_kubectl_def comp_def)

definition ssh_fits :: "SSHConfig \<Rightarrow> bool" where
  "ssh_fits s \<longleftrightarrow> fits_int32 (sc_Port s) \<and>
     (\<forall>f \<in> set (sc_LocalForwards s). fits_int32 (csf_ListenPort f) \<and> fits_int32 (csf_TargetPort f))"

definition kubectl_fits :: "KubectlConfig \<Rightarrow> bool" where
  "kubectl_fits k \<longleftrightarrow>
     (\<forall>f \<in> set (kcc_Forwards k). fits_int32 (ckf_LocalPort f) \<and> fits_int32 (ckf_RemotePort f))"

lemma cfg_pb_ssh_forward:
  "fits_int32 (csf_ListenPort f) \<Longrightarrow> fits_int32 (csf_TargetPort f) \<Longrightarrow>
     cfg_ssh_forward (pb_ssh_forward f) = f"
  by (cases f) (simp add: pb_ssh_forward_def cfg_ssh_forward_def of_to_int32)

lemma cfg_pb_kubectl_forward:
  "fits_int32 (ckf_LocalPort f) \<Longrightarrow> fits_int32 (ckf_RemotePort f) \<Longrightarrow>
     cfg_kubectl_forward (pb_kubectl_forward f) = f"
  by (cases f) (simp add: pb_kubectl_forward_def cfg_kubectl_forward_def of_to_int32)

lemma cfg_pb_ssh: "ssh_fits s \<Longrightarrow> cfg_ssh (pb_ssh s) = s"
  by (cases s) (simp add: ssh_fits_def pb_ssh_def cfg_ssh_def comp_def of_to_int32
      cfg_pb_ssh_forward map_idI)

lemma cfg_pb_kubectl: "kubectl_fits k \<Longrightarrow> cfg_kubectl (pb_kubectl k) = k"
  by (cases k) (simp add: kubectl_fits_def pb_kubectl_def cfg_kubectl_def comp_def
      cfg_pb_kubectl_forward map_idI)

text \<open>A message with its durations present and as \<open>durationpb.New\<close> writes them.\<close>

definition normal_dur :: "duration_ops \<Rightarrow> pb_duration option \<Rightarrow> pb_duration option" where
  "normal_dur D d = Some (dnew D (das D d))"

definition normal_spec :: "duration_ops \<Rightarrow> TunnelSpec \<Rightarrow> TunnelSpec" where
  "normal_spec D p = p
    \<lparr>ts_StartupTimeout := normal_dur D (ts_StartupTimeout p),
     ts_ShutdownTimeout := normal_dur D (ts_ShutdownTimeout p),
     ts_Health := map_option (\<lambda>h. h\<lparr>hc_Interval := normal_dur D (hc_Interval h),
       hc_Timeout := normal_dur D (hc_Timeout h),
       hc_StartupTimeout := normal_dur D (hc_StartupTimeout h)\<rparr>) (ts_Health p),
     ts_Restart := map_option (\<lambda>r. r\<lparr>rp_Delay := normal_dur D (rp_Delay r),
       rp_Backoff := map_option (\<lambda>b. b\<lparr>bo_MaxDelay := normal_dur D (bo_MaxDelay b)\<rparr>)
         (rp_Backoff r)\<rparr>) (ts_Restart p)\<rparr>"

text \<open>What a configuration needs to be translated: a known type with its section.\<close>

definition translatable :: "TunnelConfig \<Rightarrow> bool" where
  "translatable t \<longleftrightarrow> (tc_Type t = ''ssh'' \<and> tc_SSH t \<noteq> None) \<or>
     (tc_Type t = ''kubectl'' \<and> tc_Kubectl t \<noteq> None)"

lemma tc_ToProto_ok_iff: "(\<exists>p. tc_ToProto D t nm = Inr p) \<longleftrightarrow> translatable t"
  by (auto simp: tc_ToProto_def translatable_def Let_def split: option.splits)

lemma tc_ToProto_type: "tc_ToProto D t nm = Inr p \<Longrightarrow> ts_Type p \<noteq> None"
  by (auto simp: tc_ToProto_def Let_def split: option.splits if_splits)

lemma tc_ToProto_name:
  "tc_ToProto D t nm = Inr p \<Longrightarrow> ts_Name p = nm \<and> ts_DependsOn p = tc_DependsOn t"
  by (auto simp: tc_ToProto_def Let_def split: option.splits if_splits)

lemma tc_ToSpec_ok_iff: "(\<exists>s. tc_ToSpec D t nm = Inr s) \<longleftrightarrow> translatable t"
proof
  assume "\<exists>s. tc_ToSpec D t nm = Inr s"
  then show "translatable t"
    using tc_ToProto_ok_iff [of D t nm] by (auto simp: tc_ToSpec_def split: sum.splits)
next
  assume "translatable t"
  then obtain p where p: "tc_ToProto D t nm = Inr p"
    using tc_ToProto_ok_iff [of D t nm] by blast
  then show "\<exists>s. tc_ToSpec D t nm = Inr s"
    using FromProto_Inr_iff [of p] tc_ToProto_type [OF p] by (simp add: tc_ToSpec_def)
qed

lemma tc_ToSpec_view:
  assumes "tc_ToSpec D t nm = Inr s"
  shows "tc_ToProto D t nm = Inr (spec_ToProto s)" "spec_Name s = nm"
    "spec_Dependencies s = tc_DependsOn t" "wf_spec s"
proof -
  from assms obtain p where p: "tc_ToProto D t nm = Inr p" and s: "FromProto p = Inr s"
    by (auto simp: tc_ToSpec_def split: sum.splits)
  then show "tc_ToProto D t nm = Inr (spec_ToProto s)" "spec_Name s = nm"
    "spec_Dependencies s = tc_DependsOn t" "wf_spec s"
    using FromProto_answers [OF s] tc_ToProto_name [OF p] wf_spec_FromProto [OF s] by auto
qed

lemma to_specs_ok_iff:
  "(\<exists>m. to_specs D es specs = Inr m) \<longleftrightarrow> (\<forall>x \<in> set es. tc_Enabled (snd x) \<longrightarrow> translatable (snd x))"
proof (induction es arbitrary: specs)
  case (Cons x es)
  show ?case
  proof (cases "tc_Enabled (snd x)")
    case True
    show ?thesis
      using True Cons.IH tc_ToSpec_ok_iff [of D "snd x" "fst x"]
      by (cases "tc_ToSpec D (snd x) (fst x)") auto
  qed (simp add: Cons.IH)
qed simp

lemma to_specs_lookup:
  assumes "to_specs D es specs = Inr m" "distinct (map fst es)"
  shows "m n = (case map_of es n of
      Some t \<Rightarrow> if tc_Enabled t
        then (case tc_ToSpec D t n of Inr s \<Rightarrow> Some s | Inl e \<Rightarrow> None) else specs n
    | None \<Rightarrow> specs n)"
  using assms
proof (induction es arbitrary: specs)
  case (Cons x es)
  have notin: "map_of es (fst x) = None"
    using Cons.prems(2) by (auto simp: map_of_eq_None_iff)
  show ?case
  proof (cases "tc_Enabled (snd x)")
    case True
    with Cons.prems(1) obtain s where s: "tc_ToSpec D (snd x) (fst x) = Inr s"
      and rest: "to_specs D es (specs(fst x \<mapsto> s)) = Inr m"
      by (auto split: sum.splits)
    from Cons.IH [OF rest] Cons.prems(2) notin True s show ?thesis
      by (cases x) (auto split: option.splits)
  next
    case False
    with Cons.prems notin Cons.IH show ?thesis
      by (cases x) (auto split: option.splits)
  qed
qed simp

section \<open>Properties\<close>

text \<open>
  C23: a persisted tunnel is read back as it was: a message with health, restart policy and
  type becomes an enabled configuration whose translation back is the same message, with its
  durations in normal form.
\<close>

theorem FromProto_ToProto_roundtrip:
  assumes "ts_Health p \<noteq> None" "ts_Restart p \<noteq> None" "ts_Type p \<noteq> None"
  shows "\<exists>t. tc_FromProto D p = Ret t \<and> tc_Enabled t \<and>
    tc_ToProto D t (ts_Name p) = Inr (normal_spec D p)"
proof -
  from assms obtain h r ty where p: "ts_Health p = Some h" "ts_Restart p = Some r" "ts_Type p = Some ty"
    by blast
  then obtain t where t: "tc_FromProto D p = Ret t"
    by (simp add: tc_FromProto_def)
  have "tc_ToProto D t (ts_Name p) = Inr (normal_spec D p)"
    using t p
    by (cases p; cases h; cases r; cases ty; cases "rp_Backoff r")
       (auto simp: tc_FromProto_def tc_ToProto_def normal_spec_def normal_dur_def Let_def)
  moreover have "tc_Enabled t"
    using t p by (auto simp: tc_FromProto_def)
  ultimately show ?thesis
    using t by blast
qed

definition demo_health :: HealthCheckSpec where
  "demo_health = \<lparr>hc_Type = ''tcp'', hc_Address = ''127.0.0.1:8080'', hc_Interval = None,
     hc_Timeout = None, hc_StartupTimeout = None\<rparr>"

definition demo_restart :: RestartPolicySpec where
  "demo_restart = \<lparr>rp_Policy = ''always'', rp_Delay = None, rp_MaxAttempts = 3, rp_Backoff = None\<rparr>"

theorem FromProto_ToProto_roundtrip_witness:
  "\<exists>t. tc_FromProto demo_durations
       (demo_spec\<lparr>ts_Health := Some demo_health, ts_Restart := Some demo_restart\<rparr>) = Ret t \<and>
     tc_Enabled t"
  using FromProto_ToProto_roundtrip
    [of "demo_spec\<lparr>ts_Health := Some demo_health, ts_Restart := Some demo_restart\<rparr>" demo_durations]
  by (auto simp: demo_spec_def)

text \<open>
  conversely a translatable configuration whose port numbers and attempt limit fit
  \<open>int32\<close>, with only the section of its type, survives the way through the message, but for
  the \<open>enabled\<close> flag, which comes back set.
\<close>

theorem ToProto_FromProto_roundtrip:
  assumes D: "duration_laws D"
    and t: "tc_ToProto D t nm = Inr p"
    and fits: "fits_int32 (rc_MaxAttempts (tc_Restart t))"
      "pred_option ssh_fits (tc_SSH t)" "pred_option kubectl_fits (tc_Kubectl t)"
    and sect: "tc_Type t = ''ssh'' \<Longrightarrow> tc_Kubectl t = None" "tc_Type t = ''kubectl'' \<Longrightarrow> tc_SSH t = None"
  shows "tc_FromProto D p = Ret (t\<lparr>tc_Enabled := True\<rparr>)"
proof -
  have backoff: "map_option (\<lambda>b. \<lparr>bc_Multiplier = bo_Multiplier b, bc_MaxDelay = das D (bo_MaxDelay b)\<rparr>)
      (map_option (\<lambda>b. \<lparr>bo_Multiplier = bc_Multiplier b, bo_MaxDelay = Some (dnew D (bc_MaxDelay b))\<rparr>) x) = x"
    for x :: "BackoffConfig option"
    using D by (cases x) simp_all
  from t consider s where "tc_Type t = ''ssh''" "tc_SSH t = Some s"
    | k where "tc_Type t = ''kubectl''" "tc_Kubectl t = Some k"
    by (auto simp: tc_ToProto_def Let_def split: option.splits if_splits)
  then show ?thesis
  proof cases
    case 1
    then show ?thesis
      using t D fits sect backoff cfg_pb_ssh [of s]
      by (cases t) (auto simp: tc_ToProto_def tc_FromProto_def Let_def of_to_int32)
  next
    case 2
    then show ?thesis
      using t D fits sect backoff cfg_pb_kubectl [of k]
      by (cases t) (auto simp: tc_ToProto_def tc_FromProto_def Let_def of_to_int32)
  qed
qed

definition demo_tc :: TunnelConfig where
  "demo_tc =
    \<lparr>tc_Enabled = True, tc_Type = ''kubectl'', tc_DependsOn = [''bastion''], tc_SSH = None,
     tc_Kubectl = Some
      \<lparr>kcc_KubeconfigFile = [], kcc_KubeconfigRef = [], kcc_Context = [], kcc_Namespace = [],
       kcc_Resource = ''svc/x'', kcc_Forwards =
        [\<lparr>ckf_LocalAddress = [], ckf_LocalPort = 6379, ckf_RemotePort = 6379\<rparr>],
       kcc_APIServer = [], kcc_InsecureSkipTLSVerify = False\<rparr>,
     tc_Health = \<lparr>hcc_Type = ''tcp'', hcc_Address = [], hcc_Interval = 0, hcc_Timeout = 0,
       hcc_StartupTimeout = 0\<rparr>,
     tc_Restart = \<lparr>rc_Policy = ''always'', rc_Delay = 5, rc_MaxAttempts = 0, rc_Backoff = None\<rparr>,
     tc_StartupTimeout = 0, tc_ShutdownTimeout = 0\<rparr>"

theorem ToProto_FromProto_roundtrip_witness:
  "\<exists>p. tc_ToProto demo_durations demo_tc ''redis'' = Inr p \<and>
     tc_FromProto demo_durations p = Ret demo_tc"
proof -
  obtain p where p: "tc_ToProto demo_durations demo_tc ''redis'' = Inr p"
    by (simp add: tc_ToProto_def demo_tc_def Let_def)
  have "tc_FromProto demo_durations p = Ret (demo_tc\<lparr>tc_Enabled := True\<rparr>)"
    by (rule ToProto_FromProto_roundtrip [OF demo_durations_laws p])
      (simp_all add: demo_tc_def fits_int32_def kubectl_fits_def)
  then show ?thesis
    using p by (simp add: demo_tc_def)
qed

definition valid_config :: "duration_ops \<Rightarrow> (string \<rightharpoonup> TunnelConfig) \<Rightarrow> bool" where
  "valid_config D m \<longleftrightarrow>
    (\<forall>n t. m n = Some t \<and> tc_Enabled t \<longrightarrow> translatable t \<and> distinct (config_keys D (n, t))) \<and>
    (\<forall>n t n' t'. m n = Some t \<and> tc_Enabled t \<and> m n' = Some t' \<and> tc_Enabled t' \<and> n \<noteq> n' \<longrightarrow>
       set (config_keys D (n, t)) \<inter> set (config_keys D (n', t')) = {})"

lemma validate_tunnel_None:
  "validate_tunnel D x = None \<longleftrightarrow> (tc_Enabled (snd x) \<longrightarrow> translatable (snd x))"
  using tc_ToSpec_ok_iff [of D "snd x" "fst x"]
  by (auto simp: validate_tunnel_def translatable_def split: sum.splits)

lemma Validate_valid:
  assumes e1: "enumerates es1 m" and e2: "enumerates es2 m"
  shows "Validate D es1 es2 = None \<longleftrightarrow> valid_config D m"
proof -
  let ?en = "filter (\<lambda>x. tc_Enabled (snd x)) es2"
  have "distinct es2"
    using e2 by (auto simp: enumerates_def distinct_map)
  then have d: "distinct (concat (map (config_keys D) ?en)) \<longleftrightarrow>
     (\<forall>x \<in> set ?en. distinct (config_keys D x)) \<and>
     (\<forall>x \<in> set ?en. \<forall>y \<in> set ?en. x \<noteq> y \<longrightarrow> set (config_keys D x) \<inter> set (config_keys D y) = {})"
    by (intro distinct_concat_iff) simp
  have mem: "x \<in> set ?en \<longleftrightarrow> m (fst x) = Some (snd x) \<and> tc_Enabled (snd x)" for x
    using enumerates_mem [OF e2, of "fst x" "snd x"] by auto
  have mem1: "x \<in> set es1 \<longleftrightarrow> m (fst x) = Some (snd x)" for x
    using enumerates_mem [OF e1, of "fst x" "snd x"] by simp
  have "Validate D es1 es2 = None \<longleftrightarrow>
      (\<forall>x \<in> set es1. tc_Enabled (snd x) \<longrightarrow> translatable (snd x)) \<and>
      distinct (concat (map (config_keys D) ?en))"
    by (simp add: Validate_def validate_tunnel_None claim_all_None comp_def split: option.splits)
       (metis (no_types, lifting) first_error_None not_None_eq validate_tunnel_None)
  also have "\<dots> \<longleftrightarrow> valid_config D m"
  proof -
    define apart where "apart x y \<longleftrightarrow> set (config_keys D x) \<inter> set (config_keys D y) = {}" for x y
    show ?thesis
      unfolding d valid_config_def apart_def [symmetric] Ball_def mem mem1 by fastforce
  qed
  finally show ?thesis .
qed

definition demo_cfg :: "(string \<times> TunnelConfig) list" where
  "demo_cfg = [(''a'', demo_tc), (''b'', demo_tc\<lparr>tc_Enabled := False\<rparr>)]"

lemma demo_cfg_enumerates:
  "enumerates demo_cfg (map_of demo_cfg)" "enumerates (rev demo_cfg) (map_of demo_cfg)"
  by (auto simp: demo_cfg_def enumerates_def)

text \<open>
  C22: Validation, whatever order Go visits the tunnels in: a configuration is accepted
  exactly when every enabled tunnel has a known type with its section, claims no local
  address and port twice, and shares none with another enabled tunnel.
\<close>

theorem Validate_iff:
  assumes "enumerates es1 m" and "enumerates es2 m"
  shows "Validate D es1 es2 = None \<longleftrightarrow> valid_config D m"
  by (rule Validate_valid [OF assms])

theorem Validate_iff_witness:
  "Validate demo_durations demo_cfg (rev demo_cfg) = None \<longleftrightarrow>
     valid_config demo_durations (map_of demo_cfg)"
  by (rule Validate_iff [OF demo_cfg_enumerates])

text \<open>
  once \<open>Validate\<close> accepts, \<open>ToSpecs\<close> cannot fail, in any order: it yields exactly the
  enabled tunnels, each under its name and with the dependencies of its configuration. This
  is what lets the daemon ignore the error of \<open>ToSpecs\<close> after validation.
\<close>

theorem Validate_ToSpecs:
  assumes e1: "enumerates es1 m" and es: "enumerates es m"
    and v: "Validate D es1 es2 = None"
  shows "\<exists>specs. ToSpecs D es = Inr specs \<and>
    dom specs = {n. \<exists>t. m n = Some t \<and> tc_Enabled t} \<and>
    (\<forall>n s. specs n = Some s \<longrightarrow> spec_Name s = n \<and> wf_spec s \<and>
       spec_Dependencies s = tc_DependsOn (the (m n)))"
proof -
  have tr: "translatable t" if "m n = Some t" "tc_Enabled t" for n t
    using v that enumerates_mem [OF e1, of n t] first_error_None [of "validate_tunnel D" es1]
    by (auto simp: Validate_def validate_tunnel_None split: option.splits)
  have "\<forall>x \<in> set es. tc_Enabled (snd x) \<longrightarrow> translatable (snd x)"
    using tr enumerates_mem [OF es] by force
  then obtain specs where specs: "ToSpecs D es = Inr specs"
    using to_specs_ok_iff [of D es Map.empty] by (auto simp: ToSpecs_def)
  have look: "specs n = (case m n of
      Some t \<Rightarrow> if tc_Enabled t
        then (case tc_ToSpec D t n of Inr s \<Rightarrow> Some s | Inl e \<Rightarrow> None) else None
    | None \<Rightarrow> None)" for n
    using to_specs_lookup [of D es Map.empty specs n] specs es
    by (auto simp: ToSpecs_def enumerates_def)
  have "n \<in> dom specs \<longleftrightarrow> (\<exists>t. m n = Some t \<and> tc_Enabled t)" for n
    using look [of n] tr [of n] tc_ToSpec_ok_iff [of D "the (m n)" n]
    by (auto split: option.splits sum.splits if_splits)
  moreover have "spec_Name s = n \<and> wf_spec s \<and> spec_Dependencies s = tc_DependsOn (the (m n))"
    if "specs n = Some s" for n s
    using that look [of n] tc_ToSpec_view [of D "the (m n)" n s]
    by (auto split: option.splits sum.splits if_splits)
  ultimately show ?thesis
    using specs by blast
qed

theorem Validate_ToSpecs_witness:
  "\<exists>specs. ToSpecs demo_durations demo_cfg = Inr specs \<and> dom specs = {''a''}"
proof -
  have "Validate demo_durations demo_cfg demo_cfg = None"
    by (simp add: Validate_def validate_tunnel_def demo_cfg_def demo_tc_def config_keys_def
        tc_ToSpec_def tc_ToProto_def FromProto_def Let_def LocalPortKeys_def kubectl_keys_def
        pb_kubectl_def pb_kubectl_forward_def to_int32_def)
  from Validate_ToSpecs [OF demo_cfg_enumerates(1) demo_cfg_enumerates(1) this]
  obtain specs where "ToSpecs demo_durations demo_cfg = Inr specs"
    "dom specs = {n. \<exists>t. map_of demo_cfg n = Some t \<and> tc_Enabled t}"
    by blast
  moreover have "{n. \<exists>t. map_of demo_cfg n = Some t \<and> tc_Enabled t} = {''a''}"
    by (auto simp: demo_cfg_def demo_tc_def)
  ultimately show ?thesis
    by auto
qed

text \<open>
  \<open>SetEnabled\<close> fails on a tunnel that is not in the configuration, leaving everything as
  it was. On any other it changes that tunnel's flag and nothing else, and it does so in
  memory even when the file could not be written and the call reports the error.
\<close>

theorem SetEnabled_correct:
  "SetEnabled S Y w nm b c = (e, c', w') \<Longrightarrow>
     cfg_filePath c' = cfg_filePath c \<and>
     (if nm \<in> dom (cfg_Tunnels c)
      then cfg_Tunnels c' = (cfg_Tunnels c)(nm := map_option (tc_Enabled_update (\<lambda>_. b)) (cfg_Tunnels c nm)) \<and>
        (e, w') = Save S Y w c'
      else e \<noteq> None \<and> c' = c \<and> w' = w)"
  by (auto simp: SetEnabled_def Let_def split: option.splits prod.splits)

definition demo_yaml :: yaml_ops where
  "demo_yaml = \<lparr>y_marshal_config = (\<lambda>m. Inr []), y_unmarshal_config = (\<lambda>b. Inr Map.empty),
     y_marshal_tunnel = (\<lambda>t. Inr []), y_unmarshal_tunnel = (\<lambda>b. Inl ''empty'')\<rparr>"

theorem SetEnabled_correct_witness:
  "\<exists>c' w'. SetEnabled mem_os demo_yaml mem0 ''a'' False
      \<lparr>cfg_Tunnels = map_of demo_cfg, cfg_filePath = []\<rparr> =
        (Some ''config file path not set'', c', w') \<and>
     cfg_Tunnels c' ''a'' = Some (demo_tc\<lparr>tc_Enabled := False\<rparr>)"
proof -
  let ?c = "\<lparr>cfg_Tunnels = map_of demo_cfg, cfg_filePath = []\<rparr>"
  obtain e c' w' where run: "SetEnabled mem_os demo_yaml mem0 ''a'' False ?c = (e, c', w')"
    by (cases "SetEnabled mem_os demo_yaml mem0 ''a'' False ?c")
  moreover have "e = Some ''config file path not set''"
    using run by (auto simp: SetEnabled_def Save_def demo_cfg_def Let_def)
  ultimately show ?thesis
    using SetEnabled_correct [OF run] by (auto simp: demo_cfg_def)
qed

text \<open>
  \<open>MarshalTunnel\<close>, which writes the file of a persistent tunnel, panics on exactly the
  specs without a health check or without a restart policy.
\<close>

theorem MarshalTunnel_panics_iff:
  "MarshalTunnel D Y spec = Panic \<longleftrightarrow> ts_Health spec = None \<or> ts_Restart spec = None"
  by (auto simp: MarshalTunnel_def tc_FromProto_def split: option.splits)

end
