(* ===== verification/Process.thy ===== *)
theory Process
  imports Planner Health_Check Config
begin

text \<open>
  \<open>internal/daemon/process.go\<close>: one tunnel's process. Each \<open>Start\<close> that gets past the log
  file makes a new run: a context, a command and, once started, a child, a goroutine waiting
  for it and the channel \<open>waitCh\<close>. The runs of a process are the list \<open>pr_runs\<close>; the pointer
  fields \<open>cmd\<close>, \<open>cancel\<close> and \<open>waitCh\<close> are indices into it, because an older run can still be
  alive, and still report, after a newer one has been made.
\<close>

section \<open>State\<close>

datatype ExpectedState = DesiredRunning | DesiredStopped | DesiredDisabled

text \<open>
  The child of a run and the goroutine that waits for it: not started; running; dead but not
  reaped; reaped by \<open>cmd.Wait\<close> (\<open>ProcessState\<close> is set, the goroutine has set the status and
  is about to send); and sent.
\<close>

datatype child = Unstarted | Alive | Dead | Reaped "err option" | Notified

record run =
  rn_done :: bool
  rn_cmd :: cmd
  rn_child :: child
  rn_ch :: "err option list"

record Process =
  pr_spec :: Spec
  pr_cmd :: "nat option"
  pr_status :: Status
  pr_lastError :: "err option"
  pr_cancel :: "nat option"
  pr_waitCh :: "nat option"
  pr_logPath :: string
  pr_expectedState :: ExpectedState
  pr_keyDir :: string
  pr_portMappings :: "PortMapping list"
  pr_restartAttempts :: gint
  pr_runs :: "run list"

definition NewProcess :: "'w os \<Rightarrow> Spec \<Rightarrow> string \<Rightarrow> Process" where
  "NewProcess S spec keyDir =
    \<lparr>pr_spec = spec, pr_cmd = None, pr_status = StatusStopped, pr_lastError = None,
     pr_cancel = None, pr_waitCh = None,
     pr_logPath = Join2 (Join2 (os_tempdir S) LogDirPrefix) (spec_Name spec @ ''.log''),
     pr_expectedState = DesiredStopped, pr_keyDir = keyDir, pr_portMappings = [],
     pr_restartAttempts = 0, pr_runs = []\<rparr>"

definition setStatus :: "Status \<Rightarrow> Process \<Rightarrow> Process" where
  "setStatus s p = p\<lparr>pr_status := s\<rparr>"

definition setExpectedState :: "ExpectedState \<Rightarrow> Process \<Rightarrow> Process" where
  "setExpectedState s p = p\<lparr>pr_expectedState := s\<rparr>"

definition setError :: "err option \<Rightarrow> Process \<Rightarrow> Process" where
  "setError e p = p\<lparr>pr_lastError := e\<rparr>"

definition incrementRestartAttempts :: "Process \<Rightarrow> Process" where
  "incrementRestartAttempts p = p\<lparr>pr_restartAttempts := pr_restartAttempts p + 1\<rparr>"

definition resetRestartAttempts :: "Process \<Rightarrow> Process" where
  "resetRestartAttempts p = p\<lparr>pr_restartAttempts := 0\<rparr>"

definition upd_run :: "nat \<Rightarrow> (run \<Rightarrow> run) \<Rightarrow> Process \<Rightarrow> Process" where
  "upd_run i f p = p\<lparr>pr_runs := (pr_runs p)[i := f (pr_runs p ! i)]\<rparr>"

text \<open>The cancel function of a run's context; the command of the run is killed in consequence.\<close>

definition cancel_run :: "nat \<Rightarrow> Process \<Rightarrow> Process" where
  "cancel_run i p = upd_run i (\<lambda>r. r\<lparr>rn_done := True\<rparr>) p"

lemmas process_ops [go_defs] =
  setStatus_def setExpectedState_def setError_def incrementRestartAttempts_def
  resetRestartAttempts_def upd_run_def cancel_run_def

section \<open>Start\<close>

text \<open>
  A context is \<open>None\<close> when it is nil and \<open>Some done\<close> otherwise; deriving a context from nil
  panics, and a command is not started under a context that is done. The log file is closed
  on every error path, which has no effect here.
\<close>

type_synonym ctx = "bool option"

definition new_run :: "bool \<Rightarrow> run" where
  "new_run d = \<lparr>rn_done = d, rn_cmd = ([], []), rn_child = Unstarted, rn_ch = []\<rparr>"

definition spawn :: "'w os \<Rightarrow> bool \<Rightarrow> 'w \<Rightarrow> cmd \<Rightarrow> err option \<times> 'w" where
  "spawn S d w argv =
    (if d then (Some ''context canceled'', w) else os_spawn S w (fst argv) (snd argv))"

definition start_launch :: "'w os \<Rightarrow> bool \<Rightarrow> 'w \<Rightarrow> nat \<Rightarrow> cmd \<Rightarrow> Process \<Rightarrow> err option \<times> 'w \<times> Process" where
  "start_launch S d w c argv p =
    (let p4 = (upd_run c (\<lambda>r. r\<lparr>rn_cmd := argv\<rparr>) p)\<lparr>pr_cmd := Some c\<rparr> in
     case os_pipe S w of
       (Some e, w1) \<Rightarrow> (Some e, w1, cancel_run c p4)
     | (None, w1) \<Rightarrow>
        (case os_pipe S w1 of
           (Some e, w2) \<Rightarrow> (Some e, w2, cancel_run c p4)
         | (None, w2) \<Rightarrow>
            (case spawn S d w2 argv of
               (Some e, w3) \<Rightarrow> (Some e, w3, cancel_run c p4)
             | (None, w3) \<Rightarrow>
                (None, w3, (setError None (setStatus StatusStarting
                  (upd_run c (\<lambda>r. r\<lparr>rn_child := Alive\<rparr>) p4)))\<lparr>pr_waitCh := Some c\<rparr>))))"

definition start_build :: "'w os \<Rightarrow> bool \<Rightarrow> (string \<times> string) list \<Rightarrow> 'w \<Rightarrow> nat \<Rightarrow> Process \<Rightarrow>
    (err option \<times> 'w \<times> Process) go" where
  "start_build S d opts w c p =
    (case ResolvePortsInProto S w (spec_ToProto (pr_spec p)) of
       (Inl e, w1) \<Rightarrow> Ret (Some (''resolve ports: '' @ e), w1, cancel_run c p)
     | (Inr (proto, ms), w1) \<Rightarrow>
        (let p3 = p\<lparr>pr_portMappings := ms\<rparr> in
         case FromProto proto of
           Inl e \<Rightarrow> Ret (Some (''build resolved spec: '' @ e), w1, cancel_run c p3)
         | Inr rs \<Rightarrow>
            bind_go (spec_BuildCommand S w1 (pr_keyDir p) opts rs)
              (\<lambda>r. case r of
                 Inl e \<Rightarrow> Ret (Some e, w1, cancel_run c p3)
               | Inr argv \<Rightarrow> Ret (start_launch S d w1 c argv p3))))"

definition Start :: "'w os \<Rightarrow> ctx \<Rightarrow> (string \<times> string) list \<Rightarrow> 'w \<Rightarrow> Process \<Rightarrow>
    (err option \<times> 'w \<times> Process) go" where
  "Start S ctx opts w p =
    (if pr_status p \<noteq> StatusStopped \<and> pr_status p \<noteq> StatusFailed
     then Ret (Some ''process already running'', w, p)
     else
       (let p1 = p\<lparr>pr_expectedState := DesiredRunning\<rparr> in
        case os_mkdirall S w (Dir (pr_logPath p)) PermDirPublic of
          (Some e, w1) \<Rightarrow> Ret (Some (''failed to create log directory: '' @ e), w1, p1)
        | (None, w1) \<Rightarrow>
           (case os_openappend S w1 (pr_logPath p) PermFilePublic of
              (Some e, w2) \<Rightarrow> Ret (Some (''failed to open log file: '' @ e), w2, p1)
            | (None, w2) \<Rightarrow>
               (case ctx of
                  None \<Rightarrow> Panic
                | Some d \<Rightarrow>
                    start_build S d opts w2 (length (pr_runs p))
                      (p1\<lparr>pr_runs := pr_runs p @ [new_run d], pr_cancel := Some (length (pr_runs p))\<rparr>)))))"

section \<open>The child and the goroutine that waits for it\<close>

text \<open>
  What happens to run \<open>i\<close> without the process being called: its child dies; \<open>cmd.Wait\<close>
  returns and the goroutine records the result; the goroutine sends to the channel that is
  \<open>waitCh\<close> at that moment, which has room for one value.
\<close>

datatype child_event = ChildExits nat | WaiterReaps nat "err option" | WaiterSends nat

definition reap :: "err option \<Rightarrow> Process \<Rightarrow> Process" where
  "reap e p = (case e of
     Some m \<Rightarrow> setStatus StatusFailed (setError (Some m) p)
   | None \<Rightarrow> setStatus StatusStopped p)"

fun child_step :: "child_event \<Rightarrow> Process \<Rightarrow> Process option" where
  "child_step (ChildExits i) p =
    (if i < length (pr_runs p) \<and> rn_child (pr_runs p ! i) = Alive
     then Some (upd_run i (\<lambda>r. r\<lparr>rn_child := Dead\<rparr>) p) else None)"
| "child_step (WaiterReaps i e) p =
    (if i < length (pr_runs p) \<and> rn_child (pr_runs p ! i) = Dead
     then Some (reap e (upd_run i (\<lambda>r. r\<lparr>rn_child := Reaped e\<rparr>) p)) else None)"
| "child_step (WaiterSends i) p =
    (if i < length (pr_runs p) then
       (case (rn_child (pr_runs p ! i), pr_waitCh p) of
          (Reaped e, Some j) \<Rightarrow>
            if rn_ch (pr_runs p ! j) = []
            then Some (upd_run j (\<lambda>r. r\<lparr>rn_ch := [e]\<rparr>) (upd_run i (\<lambda>r. r\<lparr>rn_child := Notified\<rparr>) p))
            else None
        | _ \<Rightarrow> None)
     else None)"

fun child_events :: "child_event list \<Rightarrow> Process \<Rightarrow> Process" where
  "child_events [] p = p"
| "child_events (e # es) p =
    (case child_step e p of Some p' \<Rightarrow> child_events es p' | None \<Rightarrow> child_events es p)"

text \<open>A receive from \<open>waitCh\<close>: \<open>None\<close> when it would block.\<close>

definition receive :: "Process \<Rightarrow> (err option \<times> Process) option" where
  "receive p =
    (case pr_waitCh p of
       None \<Rightarrow> None
     | Some j \<Rightarrow>
        (case rn_ch (pr_runs p ! j) of
           [] \<Rightarrow> None
         | m # ms \<Rightarrow> Some (m, upd_run j (\<lambda>r. r\<lparr>rn_ch := ms\<rparr>) p)))"

section \<open>Stop and the queries\<close>

definition has_process :: "Process \<Rightarrow> bool" where
  "has_process p = (case pr_cmd p of None \<Rightarrow> False | Some i \<Rightarrow> rn_child (pr_runs p ! i) \<noteq> Unstarted)"

text \<open>
  What happens while \<open>Stop\<close> waits: the child events, whether \<open>Stop\<close> takes the message of
  \<open>waitCh\<close> if there is one (it competes with the timeout and with the monitor), and the
  result of killing the command.
\<close>

record stop_env =
  se_events :: "child_event list"
  se_take :: bool
  se_kill :: "err option"

definition stop_begin :: "Process \<Rightarrow> Process" where
  "stop_begin p =
    (let p1 = setExpectedState DesiredStopped p in
     case pr_cancel p1 of None \<Rightarrow> p1 | Some c \<Rightarrow> cancel_run c p1)"

definition stop_select :: "duration_ops \<Rightarrow> stop_env \<Rightarrow> Process \<Rightarrow> err option \<times> Process" where
  "stop_select D env p =
    (case (if se_take env then receive p else None) of
       Some (m, p') \<Rightarrow> (None, p')
     | None \<Rightarrow>
        if spec_ShutdownTimeout D (pr_spec p) = 0 then (None, p)
        else (se_kill env, p))"

definition Stop :: "duration_ops \<Rightarrow> stop_env \<Rightarrow> Process \<Rightarrow> err option \<times> Process" where
  "Stop D env p =
    (let p1 = stop_begin p in
     if has_process p1 then stop_select D env (child_events (se_events env) p1)
     else (None, p1))"

definition IsProcessAlive :: "Process \<Rightarrow> bool" where
  "IsProcessAlive p =
    (case pr_cmd p of
       None \<Rightarrow> False
     | Some i \<Rightarrow> (case rn_child (pr_runs p ! i) of
         Unstarted \<Rightarrow> False | Alive \<Rightarrow> True | Dead \<Rightarrow> True | Reaped e \<Rightarrow> False | Notified \<Rightarrow> False))"

fun find_mapping :: "string \<Rightarrow> PortMapping list \<Rightarrow> PortMapping option" where
  "find_mapping host [] = None"
| "find_mapping host (m # ms) =
    (if pm_LocalAddress m = host \<and> pm_ConfiguredPort m = 0 then Some m else find_mapping host ms)"

definition EffectiveHealthCheck :: "Process \<Rightarrow> HealthCheckSpec option" where
  "EffectiveHealthCheck p =
    (case spec_HealthCheck (pr_spec p) of
       None \<Rightarrow> None
     | Some h \<Rightarrow>
        if hc_Address h = [] then Some h
        else (case SplitHostPort (hc_Address h) of
           None \<Rightarrow> Some h
         | Some (host, port) \<Rightarrow>
            if port \<noteq> ''0'' then Some h
            else (case find_mapping host (pr_portMappings p) of
               None \<Rightarrow> Some h
             | Some m \<Rightarrow> Some (h\<lparr>hc_Address := JoinHostPort host (dec64 (of_int32 (pm_ActualPort m)))\<rparr>))))"

text \<open>
  \<open>streamLogs\<close>: the reads of a pipe, each a chunk and whether it came with an error (the end
  of the file included), to the messages logged.
\<close>

fun streamLogs :: "string \<Rightarrow> string \<Rightarrow> (string \<times> bool) list \<Rightarrow> string list" where
  "streamLogs nm label [] = []"
| "streamLogs nm label ((buf, failed) # reads) =
    (if buf \<noteq> [] then [''['' @ nm @ '']['' @ label @ ''] '' @ buf] else [])
    @ (if failed then [] else streamLogs nm label reads)"

section \<open>What \<open>Start\<close> does\<close>

text \<open>The process after a successful start, and after one that got as far as its context.\<close>

definition started :: "Process \<Rightarrow> bool \<Rightarrow> cmd \<Rightarrow> PortMapping list \<Rightarrow> Process" where
  "started p d argv ms =
    p\<lparr>pr_expectedState := DesiredRunning,
      pr_runs := pr_runs p @ [\<lparr>rn_done = d, rn_cmd = argv, rn_child = Alive, rn_ch = []\<rparr>],
      pr_cancel := Some (length (pr_runs p)), pr_cmd := Some (length (pr_runs p)),
      pr_waitCh := Some (length (pr_runs p)), pr_portMappings := ms,
      pr_status := StatusStarting, pr_lastError := None\<rparr>"

definition not_started :: "Process \<Rightarrow> Process \<Rightarrow> bool" where
  "not_started p p' \<longleftrightarrow>
    pr_spec p' = pr_spec p \<and> pr_status p' = pr_status p \<and> pr_lastError p' = pr_lastError p \<and>
    pr_waitCh p' = pr_waitCh p \<and> pr_expectedState p' = DesiredRunning \<and>
    pr_restartAttempts p' = pr_restartAttempts p \<and> pr_logPath p' = pr_logPath p \<and>
    pr_keyDir p' = pr_keyDir p \<and>
    (pr_runs p' = pr_runs p \<and> pr_cmd p' = pr_cmd p \<and> pr_cancel p' = pr_cancel p \<or>
     (\<exists>argv. pr_runs p' = pr_runs p @ [\<lparr>rn_done = True, rn_cmd = argv, rn_child = Unstarted, rn_ch = []\<rparr>] \<and>
        pr_cancel p' = Some (length (pr_runs p)) \<and>
        (pr_cmd p' = pr_cmd p \<or> pr_cmd p' = Some (length (pr_runs p)))))"

text \<open>What a successful start needs of the world: ports, command, pipes and child.\<close>

definition start_ok :: "'w os \<Rightarrow> bool \<Rightarrow> (string \<times> string) list \<Rightarrow> 'w \<Rightarrow> Process \<Rightarrow> cmd \<Rightarrow>
    PortMapping list \<Rightarrow> 'w \<Rightarrow> bool" where
  "start_ok S d opts w p argv ms w' \<longleftrightarrow>
    (\<exists>w1 w2 w3 proto rs w4 w5. os_mkdirall S w (Dir (pr_logPath p)) PermDirPublic = (None, w1) \<and>
      os_openappend S w1 (pr_logPath p) PermFilePublic = (None, w2) \<and>
      ResolvePortsInProto S w2 (spec_ToProto (pr_spec p)) = (Inr (proto, ms), w3) \<and>
      FromProto proto = Inr rs \<and> spec_BuildCommand S w3 (pr_keyDir p) opts rs = Ret (Inr argv) \<and>
      os_pipe S w3 = (None, w4) \<and> os_pipe S w4 = (None, w5) \<and> \<not> d \<and>
      os_spawn S w5 (fst argv) (snd argv) = (None, w'))"

definition ctx_process :: "bool \<Rightarrow> Process \<Rightarrow> Process" where
  "ctx_process d p = p\<lparr>pr_expectedState := DesiredRunning, pr_runs := pr_runs p @ [new_run d],
     pr_cancel := Some (length (pr_runs p))\<rparr>"

lemma start_launch_cases:
  assumes "start_launch S d w (length (pr_runs p)) argv (ctx_process d p\<lparr>pr_portMappings := ms\<rparr>) = (r, w', p')"
  shows "r = None \<and> p' = started p d argv ms \<and> (\<exists>w4 w5. os_pipe S w = (None, w4) \<and>
      os_pipe S w4 = (None, w5) \<and> \<not> d \<and> os_spawn S w5 (fst argv) (snd argv) = (None, w'))
    \<or> r \<noteq> None \<and> not_started p p'"
  using assms
  by (auto simp: start_launch_def spawn_def ctx_process_def started_def not_started_def Let_def
      go_defs new_run_def list_update_append split: prod.splits option.splits if_splits)

lemma start_build_cases:
  assumes "start_build S d opts w (length (pr_runs p)) (ctx_process d p) = Ret (r, w', p')"
  shows "r = None \<and> (\<exists>argv ms proto rs w3 w4 w5. p' = started p d argv ms \<and>
      ResolvePortsInProto S w (spec_ToProto (pr_spec p)) = (Inr (proto, ms), w3) \<and>
      FromProto proto = Inr rs \<and> spec_BuildCommand S w3 (pr_keyDir p) opts rs = Ret (Inr argv) \<and>
      os_pipe S w3 = (None, w4) \<and> os_pipe S w4 = (None, w5) \<and> \<not> d \<and>
      os_spawn S w5 (fst argv) (snd argv) = (None, w'))
    \<or> r \<noteq> None \<and> not_started p p'"
proof (cases "ResolvePortsInProto S w (spec_ToProto (pr_spec p))")
  case (Pair res w1)
  have sp: "pr_spec (ctx_process d p) = pr_spec p" "pr_keyDir (ctx_process d p) = pr_keyDir p"
    by (simp_all add: ctx_process_def)
  note unf = start_build_def sp Pair
  have ns: "not_started p (cancel_run (length (pr_runs p)) (ctx_process d p))"
    "not_started p (cancel_run (length (pr_runs p)) (ctx_process d p\<lparr>pr_portMappings := m\<rparr>))" for m
    by (simp_all add: not_started_def ctx_process_def go_defs new_run_def list_update_append)
  show ?thesis
  proof (cases res)
    case (Inl e)
    then show ?thesis using assms ns(1) by (auto simp: unf)
  next
    case (Inr pm)
    obtain proto ms where pm: "pm = (proto, ms)" by (cases pm)
    show ?thesis
    proof (cases "FromProto proto")
      case (Inl e)
      then show ?thesis using assms ns(2) Inr pm by (auto simp: unf)
    next
      case rs: (Inr rs)
      show ?thesis
      proof (cases "spec_BuildCommand S w1 (pr_keyDir p) opts rs")
        case Panic
        then show ?thesis using assms Inr pm rs by (simp add: unf)
      next
        case (Ret b)
        show ?thesis
        proof (cases b)
          case (Inl e)
          then show ?thesis using assms ns(2) \<open>res = Inr pm\<close> pm rs Ret by (auto simp: unf)
        next
          case b: (Inr argv)
          have "start_launch S d w1 (length (pr_runs p)) argv (ctx_process d p\<lparr>pr_portMappings := ms\<rparr>)
              = (r, w', p')"
            using assms Inr pm rs Ret b by (simp add: unf)
          from start_launch_cases [OF this] Pair Inr pm rs Ret b show ?thesis
            by blast
        qed
      qed
    qed
  qed
qed

abbreviation idle :: "Process \<Rightarrow> bool" where
  "idle p \<equiv> pr_status p = StatusStopped \<or> pr_status p = StatusFailed"

lemma Start_busy: "\<not> idle p \<Longrightarrow> Start S ctx opts w p = Ret (Some ''process already running'', w, p)"
  unfolding Start_def by (rule if_P) simp

lemma Start_idle:
  assumes "idle p"
  shows "os_mkdirall S w (Dir (pr_logPath p)) PermDirPublic = (Some e, w1) \<Longrightarrow>
      Start S ctx opts w p = Ret (Some (''failed to create log directory: '' @ e), w1,
        p\<lparr>pr_expectedState := DesiredRunning\<rparr>)"
    and "os_mkdirall S w (Dir (pr_logPath p)) PermDirPublic = (None, w1) \<Longrightarrow>
      os_openappend S w1 (pr_logPath p) PermFilePublic = (Some e, w2) \<Longrightarrow>
      Start S ctx opts w p = Ret (Some (''failed to open log file: '' @ e), w2,
        p\<lparr>pr_expectedState := DesiredRunning\<rparr>)"
    and "os_mkdirall S w (Dir (pr_logPath p)) PermDirPublic = (None, w1) \<Longrightarrow>
      os_openappend S w1 (pr_logPath p) PermFilePublic = (None, w2) \<Longrightarrow>
      Start S None opts w p = Panic"
    and "os_mkdirall S w (Dir (pr_logPath p)) PermDirPublic = (None, w1) \<Longrightarrow>
      os_openappend S w1 (pr_logPath p) PermFilePublic = (None, w2) \<Longrightarrow>
      Start S (Some d) opts w p = start_build S d opts w2 (length (pr_runs p)) (ctx_process d p)"
proof -
  have n: "(pr_status p \<noteq> StatusStopped \<and> pr_status p \<noteq> StatusFailed) = False"
    using assms by auto
  note st = Start_def n if_False Let_def
  show "os_mkdirall S w (Dir (pr_logPath p)) PermDirPublic = (Some e, w1) \<Longrightarrow>
      Start S ctx opts w p = Ret (Some (''failed to create log directory: '' @ e), w1,
        p\<lparr>pr_expectedState := DesiredRunning\<rparr>)"
    by (simp only: st prod.case option.case)
  show "os_mkdirall S w (Dir (pr_logPath p)) PermDirPublic = (None, w1) \<Longrightarrow>
      os_openappend S w1 (pr_logPath p) PermFilePublic = (Some e, w2) \<Longrightarrow>
      Start S ctx opts w p = Ret (Some (''failed to open log file: '' @ e), w2,
        p\<lparr>pr_expectedState := DesiredRunning\<rparr>)"
    by (simp only: st prod.case option.case)
  show "os_mkdirall S w (Dir (pr_logPath p)) PermDirPublic = (None, w1) \<Longrightarrow>
      os_openappend S w1 (pr_logPath p) PermFilePublic = (None, w2) \<Longrightarrow>
      Start S None opts w p = Panic"
    by (simp only: st prod.case option.case)
  show "os_mkdirall S w (Dir (pr_logPath p)) PermDirPublic = (None, w1) \<Longrightarrow>
      os_openappend S w1 (pr_logPath p) PermFilePublic = (None, w2) \<Longrightarrow>
      Start S (Some d) opts w p = start_build S d opts w2 (length (pr_runs p)) (ctx_process d p)"
    by (simp only: st prod.case option.case ctx_process_def)
qed

lemma started_status: "pr_status (started p d argv ms) = StatusStarting"
  by (simp add: started_def)

lemma not_started_expected: "not_started p (p\<lparr>pr_expectedState := DesiredRunning\<rparr>)"
  by (simp add: not_started_def)

lemma start_okI:
  assumes "os_mkdirall S w (Dir (pr_logPath p)) PermDirPublic = (None, w1)"
    and "os_openappend S w1 (pr_logPath p) PermFilePublic = (None, w2)"
    and "ResolvePortsInProto S w2 (spec_ToProto (pr_spec p)) = (Inr (proto, ms), w3)"
    and "FromProto proto = Inr rs" and "spec_BuildCommand S w3 (pr_keyDir p) opts rs = Ret (Inr argv)"
    and "os_pipe S w3 = (None, w4)" and "os_pipe S w4 = (None, w5)" and "\<not> d"
    and "os_spawn S w5 (fst argv) (snd argv) = (None, w')"
  shows "start_ok S d opts w p argv ms w'"
  using assms unfolding start_ok_def by blast

lemma Start_cases:
  assumes run: "Start S ctx opts w p = Ret (r, w', p')"
  obtains (busy) "\<not> idle p" "r = Some ''process already running''" "w' = w" "p' = p"
  | (failed) "idle p" "r \<noteq> None" "not_started p p'"
  | (ok) d argv ms where "idle p" "r = None"
      "ctx = Some d" "\<not> d" "start_ok S d opts w p argv ms w'" "p' = started p d argv ms"
proof (cases "idle p")
  case False
  have "r = Some ''process already running'' \<and> w' = w \<and> p' = p"
    using run Start_busy [OF False, of S ctx opts w] by auto
  then show thesis
    using busy False by blast
next
  case True
  obtain m w1 where mk: "os_mkdirall S w (Dir (pr_logPath p)) PermDirPublic = (m, w1)"
    by (rule prod.exhaust)
  obtain oa w2 where op: "os_openappend S w1 (pr_logPath p) PermFilePublic = (oa, w2)"
    by (rule prod.exhaust)
  consider e where "m = Some e" | e where "m = None" "oa = Some e"
    | "m = None" "oa = None" "ctx = None" | d where "m = None" "oa = None" "ctx = Some d"
    by (cases m; cases oa; cases ctx) blast+
  then show thesis
  proof cases
    case (1 e)
    then have "r \<noteq> None \<and> p' = p\<lparr>pr_expectedState := DesiredRunning\<rparr>"
      using run Start_idle(1) [OF True mk [unfolded 1]] by auto
    then show thesis
      using failed True not_started_expected by metis
  next
    case (2 e)
    then have "r \<noteq> None \<and> p' = p\<lparr>pr_expectedState := DesiredRunning\<rparr>"
      using run Start_idle(2) [OF True mk [unfolded 2] op [unfolded 2]] by auto
    then show thesis
      using failed True not_started_expected by metis
  next
    case 3
    then show thesis
      using run Start_idle(3) [OF True mk [unfolded 3] op [unfolded 3]] by simp
  next
    case (4 d)
    then have "start_build S d opts w2 (length (pr_runs p)) (ctx_process d p) = Ret (r, w', p')"
      using run Start_idle(4) [OF True mk [unfolded 4] op [unfolded 4]] by simp
    from start_build_cases [OF this] show thesis
    proof (elim disjE conjE exE)
      assume "r \<noteq> None" "not_started p p'"
      then show thesis by (rule failed [OF True])
    next
      fix argv ms proto rs w3 w4 w5
      assume r: "r = None" and p': "p' = started p d argv ms" and d: "\<not> d" and
        world: "ResolvePortsInProto S w2 (spec_ToProto (pr_spec p)) = (Inr (proto, ms), w3)"
        "FromProto proto = Inr rs" "spec_BuildCommand S w3 (pr_keyDir p) opts rs = Ret (Inr argv)"
        "os_pipe S w3 = (None, w4)" "os_pipe S w4 = (None, w5)" and
        sp: "os_spawn S w5 (fst argv) (snd argv) = (None, w')"
      show thesis
        by (rule ok [OF True r 4(3) d start_okI [OF mk [unfolded 4] op [unfolded 4] world d sp] p'])
    qed
  qed
qed

lemma Start_returns:
  assumes "wf_spec (pr_spec p)"
  shows "\<exists>r w' p'. Start S (Some d) opts w p = Ret (r, w', p')"
proof (cases "idle p")
  case False
  then show ?thesis
    using Start_busy [OF False, of S "Some d" opts w] by blast
next
  case True
  obtain m w1 where mk: "os_mkdirall S w (Dir (pr_logPath p)) PermDirPublic = (m, w1)"
    by (rule prod.exhaust)
  obtain oa w2 where op: "os_openappend S w1 (pr_logPath p) PermFilePublic = (oa, w2)"
    by (rule prod.exhaust)
  have "\<exists>r w' p'. start_build S d opts w2 c q = Ret (r, w', p')" if "pr_spec q = pr_spec p" for c q
  proof (cases "ResolvePortsInProto S w2 (spec_ToProto (pr_spec p))")
    case (Pair res w3)
    show ?thesis
    proof (cases res)
      case (Inl e)
      then show ?thesis using Pair that by (simp add: start_build_def)
    next
      case (Inr pm)
      obtain proto ms where pm: "pm = (proto, ms)" by (cases pm)
      show ?thesis
      proof (cases "FromProto proto")
        case (Inl e)
        then show ?thesis using Pair that Inr pm by (simp add: start_build_def)
      next
        case rs: (Inr rs)
        obtain b where b: "spec_BuildCommand S w3 (pr_keyDir q) opts rs = Ret b"
          using FromProto_BuildCommand_returns [OF rs, of S w3 "pr_keyDir q" opts] by blast
        show ?thesis
        proof (cases b)
          case (Inl e)
          then show ?thesis using Pair that \<open>res = Inr pm\<close> pm rs b by (simp add: start_build_def)
        next
          case argv: (Inr argv)
          obtain r' w' p' where "start_launch S d w3 c argv (q\<lparr>pr_portMappings := ms\<rparr>) = (r', w', p')"
            by (rule prod_cases3)
          then show ?thesis
            using Pair that Inr pm rs b argv by (simp add: start_build_def)
        qed
      qed
    qed
  qed
  then have sb: "\<exists>r w' p'. start_build S d opts w2 (length (pr_runs p)) (ctx_process d p) = Ret (r, w', p')"
    by (simp add: ctx_process_def)
  show ?thesis
  proof (cases m)
    case (Some e)
    show ?thesis using Start_idle(1) [OF True mk [unfolded Some]] by blast
  next
    case None
    note mk = mk [unfolded None]
    show ?thesis
    proof (cases oa)
      case (Some e)
      show ?thesis using Start_idle(2) [OF True mk op [unfolded Some]] by blast
    next
      case None
      show ?thesis using Start_idle(4) [OF True mk op [unfolded None]] sb by simp
    qed
  qed
qed

lemma Start_ok:
  assumes idle: "idle p" and ok: "start_ok S d opts w p argv ms w'"
  shows "Start S (Some d) opts w p = Ret (None, w', started p d argv ms)"
proof -
  from ok obtain w1 w2 w3 proto rs w4 w5 where
    mk: "os_mkdirall S w (Dir (pr_logPath p)) PermDirPublic = (None, w1)" and
    op: "os_openappend S w1 (pr_logPath p) PermFilePublic = (None, w2)" and
    res: "ResolvePortsInProto S w2 (spec_ToProto (pr_spec p)) = (Inr (proto, ms), w3)" and
    fp: "FromProto proto = Inr rs" and bc: "spec_BuildCommand S w3 (pr_keyDir p) opts rs = Ret (Inr argv)" and
    pipes: "os_pipe S w3 = (None, w4)" "os_pipe S w4 = (None, w5)" and d: "\<not> d" and
    sp: "os_spawn S w5 (fst argv) (snd argv) = (None, w')"
    unfolding start_ok_def by blast
  have fields: "pr_spec (ctx_process d p) = pr_spec p" "pr_keyDir (ctx_process d p) = pr_keyDir p"
    by (simp_all add: ctx_process_def)
  have "start_build S d opts w2 (length (pr_runs p)) (ctx_process d p)
      = Ret (start_launch S d w3 (length (pr_runs p)) argv (ctx_process d p\<lparr>pr_portMappings := ms\<rparr>))"
    by (simp add: start_build_def fields res fp bc)
  also have "start_launch S d w3 (length (pr_runs p)) argv (ctx_process d p\<lparr>pr_portMappings := ms\<rparr>)
      = (None, w', started p d argv ms)"
    using d by (simp add: start_launch_def spawn_def pipes sp ctx_process_def started_def Let_def go_defs
        new_run_def list_update_append)
  finally show ?thesis
    using Start_idle(4) [OF idle mk op] by simp
qed

section \<open>Invariant\<close>

text \<open>
  The pointers of a process point to runs of its own, \<open>cancel\<close> to the latest; \<open>waitCh\<close> is the
  channel of the latest run that was started, and no channel holds more than one value.
\<close>

definition wf_runs :: "run list \<Rightarrow> nat option \<Rightarrow> bool" where
  "wf_runs rs wc \<longleftrightarrow>
    (\<forall>i < length rs. length (rn_ch (rs ! i)) \<le> 1 \<and> (rn_child (rs ! i) = Unstarted \<longrightarrow> rn_ch (rs ! i) = [])) \<and>
    (case wc of
       None \<Rightarrow> \<forall>i < length rs. rn_child (rs ! i) = Unstarted
     | Some j \<Rightarrow> j < length rs \<and> rn_child (rs ! j) \<noteq> Unstarted \<and>
         (\<forall>i < length rs. j < i \<longrightarrow> rn_child (rs ! i) = Unstarted))"

definition wf_process :: "Process \<Rightarrow> bool" where
  "wf_process p \<longleftrightarrow>
    wf_runs (pr_runs p) (pr_waitCh p) \<and>
    (case pr_cmd p of None \<Rightarrow> pr_waitCh p = None | Some i \<Rightarrow> i < length (pr_runs p)) \<and>
    pr_cancel p = (if pr_runs p = [] then None else Some (length (pr_runs p) - 1))"

lemma wf_NewProcess: "wf_process (NewProcess S spec keyDir)"
  by (simp add: wf_process_def wf_runs_def NewProcess_def)

lemma wf_runs_snoc_unstarted:
  "wf_runs rs wc \<Longrightarrow> wf_runs (rs @ [\<lparr>rn_done = d, rn_cmd = a, rn_child = Unstarted, rn_ch = []\<rparr>]) wc"
  by (auto simp: wf_runs_def nth_append less_Suc_eq split: option.splits)

lemma wf_runs_snoc_alive:
  "wf_runs rs wc \<Longrightarrow>
    wf_runs (rs @ [\<lparr>rn_done = d, rn_cmd = a, rn_child = Alive, rn_ch = []\<rparr>]) (Some (length rs))"
  by (auto simp: wf_runs_def nth_append less_Suc_eq split: option.splits)

lemma wf_runs_update:
  assumes "wf_runs rs wc" and "i < length rs" and "length (rn_ch r) \<le> 1"
    and "rn_child r = Unstarted \<longleftrightarrow> rn_child (rs ! i) = Unstarted"
    and "rn_child r = Unstarted \<Longrightarrow> rn_ch r = []"
  shows "wf_runs (rs[i := r]) wc"
  using assms unfolding wf_runs_def by (cases wc) (auto simp: nth_list_update)

lemma wf_runs_ch:
  assumes "wf_runs rs wc" and "i < length rs"
  shows "length (rn_ch (rs ! i)) \<le> 1" and "rn_child (rs ! i) = Unstarted \<Longrightarrow> rn_ch (rs ! i) = []"
  using assms by (auto simp: wf_runs_def)

lemma wf_process_runs:
  assumes "wf_process p" and "wf_runs rs (pr_waitCh p)" and "length rs = length (pr_runs p)"
    and "pr_runs q = rs" and "pr_cmd q = pr_cmd p" and "pr_waitCh q = pr_waitCh p" and "pr_cancel q = pr_cancel p"
  shows "wf_process q"
  using assms unfolding wf_process_def by (auto split: option.splits)

lemma wf_Start:
  assumes wf: "wf_process p" and run: "Start S ctx opts w p = Ret (r, w', p')"
  shows "wf_process p'"
  using run
proof (cases rule: Start_cases)
  case busy
  with wf show ?thesis by simp
next
  case failed
  from \<open>not_started p p'\<close> show ?thesis
    using wf wf_runs_snoc_unstarted [of "pr_runs p" "pr_waitCh p" True]
    by (auto simp: not_started_def wf_process_def split: option.splits)
next
  case (ok d argv ms)
  with wf show ?thesis
    using wf_runs_snoc_alive [of "pr_runs p" "pr_waitCh p" d argv]
    by (simp add: started_def wf_process_def)
qed

lemma wf_upd_run:
  assumes "wf_process p" and "i < length (pr_runs p)" and "length (rn_ch (f (pr_runs p ! i))) \<le> 1"
    and "rn_child (f (pr_runs p ! i)) = Unstarted \<longleftrightarrow> rn_child (pr_runs p ! i) = Unstarted"
    and "rn_child (f (pr_runs p ! i)) = Unstarted \<Longrightarrow> rn_ch (f (pr_runs p ! i)) = []"
  shows "wf_process (upd_run i f p)"
proof (rule wf_process_runs [OF assms(1)])
  show "wf_runs ((pr_runs p)[i := f (pr_runs p ! i)]) (pr_waitCh p)"
    using assms by (intro wf_runs_update) (auto simp: wf_process_def)
qed (simp_all add: upd_run_def)

lemma wf_setters [simp]:
  "wf_process (setStatus st p) = wf_process p" "wf_process (setError e p) = wf_process p"
  "wf_process (setExpectedState x p) = wf_process p"
  "wf_process (incrementRestartAttempts p) = wf_process p"
  "wf_process (resetRestartAttempts p) = wf_process p" "wf_process (reap e p) = wf_process p"
  by (auto simp: go_defs wf_process_def reap_def split: option.splits)

lemma setters_fields [simp]:
  "pr_cancel (setExpectedState x p) = pr_cancel p" "pr_runs (setExpectedState x p) = pr_runs p"
  "pr_waitCh (setExpectedState x p) = pr_waitCh p" "pr_cmd (setExpectedState x p) = pr_cmd p"
  "pr_spec (setExpectedState x p) = pr_spec p" "pr_status (setExpectedState x p) = pr_status p"
  "pr_expectedState (setExpectedState x p) = x"
  by (simp_all add: setExpectedState_def)

lemma wf_process_ch:
  assumes "wf_process p" and "i < length (pr_runs p)"
  shows "length (rn_ch (pr_runs p ! i)) \<le> Suc 0"
    and "rn_child (pr_runs p ! i) = Unstarted \<Longrightarrow> rn_ch (pr_runs p ! i) = []"
  using assms by (auto simp: wf_process_def wf_runs_def)

lemma wf_upd_child:
  assumes "wf_process p" and "i < length (pr_runs p)" and "rn_child (pr_runs p ! i) \<noteq> Unstarted"
    and "c \<noteq> Unstarted"
  shows "wf_process (upd_run i (rn_child_update (\<lambda>_. c)) p)"
  using wf_process_ch [OF assms(1,2)] assms by (intro wf_upd_run) simp_all

lemma wf_stop_begin:
  assumes "wf_process p"
  shows "wf_process (stop_begin p)"
proof (cases "pr_cancel p")
  case None
  with assms show ?thesis by (simp add: stop_begin_def)
next
  case (Some c)
  then have c: "c < length (pr_runs p)"
    using assms by (auto simp: wf_process_def split: if_splits)
  have "wf_process (upd_run c (\<lambda>r. r\<lparr>rn_done := True\<rparr>) (setExpectedState DesiredStopped p))"
    by (rule wf_upd_run) (use assms c wf_process_ch [OF assms c] in simp_all)
  with Some show ?thesis
    by (simp add: stop_begin_def cancel_run_def)
qed

lemma wf_child_step:
  assumes "wf_process p" and "child_step e p = Some p'"
  shows "wf_process p'"
  using assms
proof (cases e)
  case (ChildExits i)
  with assms show ?thesis
    by (auto split: if_splits intro!: wf_upd_child)
next
  case (WaiterReaps i m)
  with assms show ?thesis
    by (auto split: if_splits intro!: wf_upd_child)
next
  case (WaiterSends i)
  with assms obtain m j where i: "i < length (pr_runs p)" "rn_child (pr_runs p ! i) = Reaped m"
    and j: "pr_waitCh p = Some j" "rn_ch (pr_runs p ! j) = []"
    and p': "p' = upd_run j (\<lambda>r. r\<lparr>rn_ch := [m]\<rparr>) (upd_run i (\<lambda>r. r\<lparr>rn_child := Notified\<rparr>) p)"
    by (auto split: if_splits child.splits option.splits)
  have wf1: "wf_process (upd_run i (\<lambda>r. r\<lparr>rn_child := Notified\<rparr>) p)"
    using assms(1) i by (intro wf_upd_child) auto
  have "j < length (pr_runs p)" "rn_child (pr_runs p ! j) \<noteq> Unstarted"
    using assms(1) j(1) by (auto simp: wf_process_def wf_runs_def)
  then show ?thesis
    unfolding p' using i(1) by (intro wf_upd_run [OF wf1]) (auto simp: upd_run_def nth_list_update split: if_splits)
qed

lemma wf_child_events: "wf_process p \<Longrightarrow> wf_process (child_events es p)"
  by (induction es arbitrary: p) (auto split: option.splits dest: wf_child_step)

lemma wf_receive:
  assumes "wf_process p" and "receive p = Some (m, p')"
  shows "wf_process p'" and "receive p' = None"
proof -
  obtain j ms where j: "pr_waitCh p = Some j" "rn_ch (pr_runs p ! j) = m # ms"
    and p': "p' = upd_run j (\<lambda>r. r\<lparr>rn_ch := ms\<rparr>) p"
    using assms(2) by (auto simp: receive_def split: option.splits list.splits)
  have jl: "j < length (pr_runs p)" and ne: "rn_child (pr_runs p ! j) \<noteq> Unstarted"
    using assms(1) j(1) by (auto simp: wf_process_def wf_runs_def)
  have ms: "ms = []"
    using assms(1) wf_runs_ch(1) [of "pr_runs p" "pr_waitCh p" j] jl j(2) by (auto simp: wf_process_def)
  show "wf_process p'"
    unfolding p' using assms(1) jl ne ms by (intro wf_upd_run) auto
  show "receive p' = None"
    using j(1) jl by (simp add: p' ms receive_def upd_run_def)
qed

lemma wf_Stop:
  assumes "wf_process p"
  shows "wf_process (snd (Stop D env p))"
  using wf_stop_begin [OF assms] wf_child_events [OF wf_stop_begin [OF assms], of "se_events env"]
  by (auto simp: Stop_def Let_def stop_select_def split: option.splits prod.splits dest: wf_receive)

section \<open>Properties\<close>

lemma find_mapping_Some:
  "find_mapping host ms = Some m \<longleftrightarrow>
     (\<exists>pre post. ms = pre @ m # post \<and> pm_LocalAddress m = host \<and> pm_ConfiguredPort m = 0 \<and>
        (\<forall>x \<in> set pre. \<not> (pm_LocalAddress x = host \<and> pm_ConfiguredPort x = 0)))"
proof (induction ms)
  case Nil
  then show ?case by simp
next
  case (Cons x xs)
  show ?case
  proof (cases "pm_LocalAddress x = host \<and> pm_ConfiguredPort x = 0")
    case True
    then show ?thesis
      by (auto simp: Cons_eq_append_conv)
  next
    case False
    then show ?thesis
      by (auto simp: Cons.IH Cons_eq_append_conv) (metis list.set_intros(1) set_ConsD)+
  qed
qed

lemma find_mapping_None:
  "find_mapping host ms = None \<longleftrightarrow> (\<forall>m \<in> set ms. \<not> (pm_LocalAddress m = host \<and> pm_ConfiguredPort m = 0))"
  by (induction ms) auto

definition demo_process :: Process where
  "demo_process = NewProcess mem_os demo_bastion ''/keys''"

lemma demo_process_wf: "wf_spec (pr_spec demo_process)"
  by (simp add: demo_process_def NewProcess_def demo_bastion_def wf_spec_def FromProto_def
      SSHSpec_ToProto_def demo_spec_def demo_ssh_def)

text \<open>
  C6: Starting a process whose spec came from \<open>FromProto\<close>, under a context that is not nil,
  never panics. It succeeds exactly for a stopped or failed process under a live context when
  the directory, the log, the ports, the command, the pipes and the child can all be made, and
  then the status is starting and a new child runs the command built for the resolved ports. A
  refusal changes nothing; any other error changes neither status nor children (but the
  process now expects to run).
\<close>

theorem Start_correct:
  assumes "wf_spec (pr_spec p)"
  shows "\<exists>r w' p'. Start S (Some d) opts w p = Ret (r, w', p') \<and>
    (r = None \<longleftrightarrow> idle p \<and> (\<exists>argv ms v. start_ok S d opts w p argv ms v)) \<and>
    (\<forall>argv ms v. idle p \<longrightarrow> start_ok S d opts w p argv ms v \<longrightarrow> w' = v \<and> p' = started p d argv ms) \<and>
    (r \<noteq> None \<longrightarrow> (if idle p then not_started p p' else w' = w \<and> p' = p))"
proof -
  obtain r w' p' where run: "Start S (Some d) opts w p = Ret (r, w', p')"
    using Start_returns [OF assms, of S d opts w] by blast
  have "r = None \<and> w' = v \<and> p' = started p d argv ms" if "idle p" "start_ok S d opts w p argv ms v" for argv ms v
    using Start_ok [OF that] run by simp
  moreover have "idle p \<and> (\<exists>argv ms. start_ok S d opts w p argv ms w')" if "r = None"
    using run that by (cases rule: Start_cases) auto
  moreover have "if idle p then not_started p p' else w' = w \<and> p' = p" if "r \<noteq> None"
    using run that by (cases rule: Start_cases) auto
  ultimately show ?thesis
    using run by blast
qed

lemma demo_start_ok:
  "\<exists>argv ms w'. start_ok mem_os False [] mem0 demo_process argv ms w'"
  unfolding start_ok_def
  by (simp add: demo_process_def NewProcess_def demo_bastion_def SSHSpec_ToProto_def demo_spec_def demo_ssh_def
      ResolvePortsInProto_def Let_def resolve_port_def allocatePort_def mem_listen_def mem0_def FromProto_def
      SSHSpec_BuildCommand_def identity_path_def)

lemma Start_correct_witness:
  "\<exists>w' p'. Start mem_os (Some False) [] mem0 demo_process = Ret (None, w', p') \<and>
    pr_status p' = StatusStarting"
proof -
  obtain argv ms v where ok: "start_ok mem_os False [] mem0 demo_process argv ms v"
    using demo_start_ok by blast
  have "idle demo_process"
    by (simp add: demo_process_def NewProcess_def)
  with Start_correct [OF demo_process_wf, of mem_os False "[]" mem0] ok show ?thesis
    by (metis started_status)
qed

text \<open>
  The guard under which \<open>handleFailure\<close> gives up. The counter is an \<open>int\<close> and is truncated
  to \<open>int32\<close> for the comparison.
\<close>

definition attempts_exhausted :: "RestartPolicySpec \<Rightarrow> gint \<Rightarrow> bool" where
  "attempts_exhausted policy attempts \<longleftrightarrow>
    sint (rp_MaxAttempts policy) > 0 \<and> sint (to_int32 attempts) \<ge> sint (rp_MaxAttempts policy)"

text \<open>The states a process can reach under its operations and whatever its children do.\<close>

inductive proc_reachable :: "'w os \<Rightarrow> duration_ops \<Rightarrow> Process \<Rightarrow> bool" for S D where
  new: "proc_reachable S D (NewProcess S spec keyDir)"
| start: "proc_reachable S D p \<Longrightarrow> Start S ctx opts w p = Ret (r, w', p') \<Longrightarrow> proc_reachable S D p'"
| stop: "proc_reachable S D p \<Longrightarrow> Stop D env p = (r, p') \<Longrightarrow> proc_reachable S D p'"
| child: "proc_reachable S D p \<Longrightarrow> child_step e p = Some p' \<Longrightarrow> proc_reachable S D p'"
| monitor: "proc_reachable S D p \<Longrightarrow> receive p = Some (m, p') \<Longrightarrow> proc_reachable S D p'"
| set_status: "proc_reachable S D p \<Longrightarrow> proc_reachable S D (setStatus st p)"
| set_error: "proc_reachable S D p \<Longrightarrow> proc_reachable S D (setError e p)"
| count: "proc_reachable S D p \<Longrightarrow> spec_RestartPolicy (pr_spec p) = Some policy \<Longrightarrow>
    \<not> attempts_exhausted policy (pr_restartAttempts p) \<Longrightarrow> proc_reachable S D (incrementRestartAttempts p)"
| reset: "proc_reachable S D p \<Longrightarrow> proc_reachable S D (resetRestartAttempts p)"

lemma process_invariant_wf: "proc_reachable S D p \<Longrightarrow> wf_process p"
proof (induction rule: proc_reachable.induct)
  case (start p ctx opts w r w' p')
  then show ?case using wf_Start [of p S ctx opts w r w' p'] by simp
next
  case (stop p env r p')
  then show ?case using wf_Stop [of p D env] by simp
next
  case (child p e p')
  then show ?case using wf_child_step by blast
next
  case (monitor p m p')
  then show ?case using wf_receive(1) by blast
qed (simp_all add: wf_NewProcess)


definition with_run :: "Process \<Rightarrow> bool \<Rightarrow> cmd \<Rightarrow> PortMapping list \<Rightarrow> child \<Rightarrow> err option list \<Rightarrow> Process" where
  "with_run p d argv ms c ch = (started p d argv ms)\<lparr>pr_runs :=
     pr_runs p @ [\<lparr>rn_done = d, rn_cmd = argv, rn_child = c, rn_ch = ch\<rparr>]\<rparr>"

lemma with_run_steps:
  "child_step (ChildExits (length (pr_runs p))) (started p d argv ms) = Some (with_run p d argv ms Dead [])"
  "child_step (WaiterReaps (length (pr_runs p)) e) (with_run p d argv ms Dead []) =
     Some (reap e (with_run p d argv ms (Reaped e) []))"
  "child_step (WaiterSends (length (pr_runs p))) (reap e (with_run p d argv ms (Reaped e) [])) =
     Some (reap e (with_run p d argv ms Notified [e]))"
  by (cases e; simp add: with_run_def started_def reap_def go_defs)+

text \<open>
  The exit of a started child reaches the monitor exactly once: after the child of the
  latest run has exited with \<open>e\<close>, been reaped and reported, the status is failed with that
  error, or stopped for a clean exit, one receive from \<open>waitCh\<close> yields \<open>e\<close> and a second one
  blocks.
\<close>

theorem exit_is_reported:
  fixes p :: Process
  defines "n \<equiv> length (pr_runs p)"
  shows "\<exists>q q'. child_events [ChildExits n, WaiterReaps n e, WaiterSends n] (started p d argv ms) = q \<and>
     pr_status q = (case e of None \<Rightarrow> StatusStopped | Some m \<Rightarrow> StatusFailed) \<and>
     pr_lastError q = e \<and> \<not> IsProcessAlive q \<and> receive q = Some (e, q') \<and> receive q' = None"
proof -
  let ?s = "\<lambda>c ch. with_run p d argv ms c ch"
  let ?q = "reap e (?s Notified [e])"
  have 1: "child_step (ChildExits n) (started p d argv ms) = Some (?s Dead [])"
    and 2: "child_step (WaiterReaps n e) (?s Dead []) = Some (reap e (?s (Reaped e) []))"
    and 3: "child_step (WaiterSends n) (reap e (?s (Reaped e) [])) = Some ?q"
    unfolding n_def by (rule with_run_steps)+
  show ?thesis
  proof (intro exI conjI)
    show "child_events [ChildExits n, WaiterReaps n e, WaiterSends n] (started p d argv ms) = ?q"
      by (simp only: child_events.simps 1 2 3 option.case)
    show "receive ?q = Some (e, reap e (?s Notified []))"
      by (cases e) (simp_all add: receive_def with_run_def reap_def go_defs started_def)
    show "receive (reap e (?s Notified [])) = None"
      by (cases e) (simp_all add: receive_def with_run_def reap_def go_defs started_def)
  qed (cases e; simp add: with_run_def reap_def go_defs started_def IsProcessAlive_def)+
qed


lemma EffectiveHealthCheck_cases:
  "EffectiveHealthCheck p = spec_HealthCheck (pr_spec p) \<or>
   (\<exists>h host m. spec_HealthCheck (pr_spec p) = Some h \<and> SplitHostPort (hc_Address h) = Some (host, ''0'') \<and>
      find_mapping host (pr_portMappings p) = Some m \<and>
      EffectiveHealthCheck p = Some (h\<lparr>hc_Address := JoinHostPort host (dec64 (of_int32 (pm_ActualPort m)))\<rparr>))"
  by (auto simp: EffectiveHealthCheck_def split: option.splits if_splits prod.splits)

text \<open>
  The health check of a process differs from the configured one at most in its address,
  and only when this is \<open>host:0\<close> and a dynamic port was assigned on exactly that host; then the
  check dials the port of the first such mapping, never port 0 while one exists.
\<close>

theorem EffectiveHealthCheck_correct:
  "EffectiveHealthCheck p =
    (case spec_HealthCheck (pr_spec p) of
       None \<Rightarrow> None
     | Some h \<Rightarrow>
        (case SplitHostPort (hc_Address h) of
           Some (host, port) \<Rightarrow>
             (case find (\<lambda>m. pm_LocalAddress m = host \<and> pm_ConfiguredPort m = 0) (pr_portMappings p) of
                Some m \<Rightarrow> if port = ''0''
                  then Some (h\<lparr>hc_Address := JoinHostPort host (dec32 (pm_ActualPort m))\<rparr>) else Some h
              | None \<Rightarrow> Some h)
         | None \<Rightarrow> Some h))"
proof -
  have find: "find_mapping host ms = find (\<lambda>m. pm_LocalAddress m = host \<and> pm_ConfiguredPort m = 0) ms"
    for host ms by (induction ms) auto
  have nil: "SplitHostPort [] = None"
    by (simp add: SplitHostPort_def)
  have dec: "dec64 (of_int32 x) = dec32 x" for x
    by (simp add: dec64_def dec32_def)
  show ?thesis
    by (auto simp: EffectiveHealthCheck_def find nil dec split: option.splits if_splits prod.splits)
qed

text \<open>What nothing but \<open>Start\<close> and \<open>Stop\<close> changes.\<close>

definition stop_frame :: "Process \<Rightarrow> Spec \<times> ExpectedState \<times> gint \<times> bool list" where
  "stop_frame p = (pr_spec p, pr_expectedState p, pr_restartAttempts p, map rn_done (pr_runs p))"

lemma upd_run_done:
  assumes "\<And>r. rn_done (f r) = rn_done r"
  shows "map rn_done (pr_runs (upd_run i f p)) = map rn_done (pr_runs p)"
  using assms by (simp add: upd_run_def map_update) (metis list_update_id list_update_beyond
      map_update not_le_imp_less nth_map)

lemma upd_run_frame:
  assumes "\<And>r. rn_done (f r) = rn_done r"
  shows "stop_frame (upd_run i f p) = stop_frame p"
  using upd_run_done [of f i p, OF assms] by (simp add: stop_frame_def) (simp add: upd_run_def)

lemma reap_frame: "stop_frame (reap e p) = stop_frame p"
  by (cases e) (simp_all add: reap_def go_defs stop_frame_def)

lemma child_step_frame: "child_step e p = Some p' \<Longrightarrow> stop_frame p' = stop_frame p"
  by (cases e) (auto split: if_splits child.splits option.splits simp: upd_run_frame reap_frame)

lemma child_events_frame: "stop_frame (child_events es p) = stop_frame p"
  by (induction es arbitrary: p) (auto split: option.splits dest: child_step_frame)

lemma receive_frame: "receive p = Some (m, p') \<Longrightarrow> stop_frame p' = stop_frame p"
  by (auto simp: receive_def upd_run_frame split: option.splits list.splits)

lemma stop_begin_spec [simp]: "pr_spec (stop_begin p) = pr_spec p"
  by (simp add: stop_begin_def Let_def cancel_run_def upd_run_def split: option.splits)

lemma stop_begin_frame [simp]: "pr_expectedState (stop_begin p) = DesiredStopped"
  by (simp add: stop_begin_def Let_def cancel_run_def upd_run_def split: option.splits)

lemma stop_begin_done:
  assumes "wf_process p" and "pr_runs (stop_begin p) \<noteq> []"
  shows "rn_done (last (pr_runs (stop_begin p)))"
proof -
  have "pr_runs p \<noteq> []"
    using assms(2) by (auto simp: stop_begin_def Let_def cancel_run_def upd_run_def split: option.splits)
  with assms(1) show ?thesis
    by (simp add: wf_process_def stop_begin_def Let_def cancel_run_def upd_run_def last_conv_nth)
qed

lemma stop_begin_has_process:
  assumes "wf_process p"
  shows "has_process (stop_begin p) = has_process p"
  using assms by (auto simp: has_process_def stop_begin_def Let_def cancel_run_def upd_run_def wf_process_def
      nth_list_update split: option.splits if_splits)

lemma Stop_form:
  defines "q p env \<equiv> if has_process (stop_begin p) then child_events (se_events env) (stop_begin p) else stop_begin p"
  shows "Stop D env p = (if has_process (stop_begin p) then stop_select D env (q p env) else (None, stop_begin p))"
    and "stop_frame (q p env) = stop_frame (stop_begin p)"
  by (simp_all add: Stop_def Let_def q_def child_events_frame)

lemma Stop_keeps_frame: "stop_frame (snd (Stop D env p)) = stop_frame (stop_begin p)"
proof -
  have "stop_frame (snd (stop_select D env z)) = stop_frame z" for z
    by (auto simp: stop_select_def split: option.splits if_splits dest: receive_frame)
  then show ?thesis
    by (simp add: Stop_form(1)) (simp add: child_events_frame)
qed

lemma Stop_cancels_last:
  assumes "wf_process p" and "pr_runs (snd (Stop D env p)) \<noteq> []"
  shows "rn_done (last (pr_runs (snd (Stop D env p))))"
proof -
  have "map rn_done (pr_runs (snd (Stop D env p))) = map rn_done (pr_runs (stop_begin p))"
    using Stop_keeps_frame [of D env p] by (simp add: stop_frame_def)
  then have "rn_done (last (pr_runs (snd (Stop D env p)))) = rn_done (last (pr_runs (stop_begin p)))"
    "pr_runs (stop_begin p) \<noteq> []"
    using assms(2) by (metis last_map map_is_Nil_conv)+
  with stop_begin_done [OF assms(1)] show ?thesis by simp
qed

lemma Stop_error:
  assumes "Stop D env p = (r, p')"
  shows "r = None \<or> spec_ShutdownTimeout D (pr_spec p) \<noteq> 0 \<and> r = se_kill env"
proof -
  have "pr_spec (child_events (se_events env) (stop_begin p)) = pr_spec p"
    using child_events_frame [of "se_events env" "stop_begin p"] by (simp add: stop_frame_def)
  then show ?thesis
    using assms by (auto simp: Stop_form(1) stop_select_def split: if_splits option.splits)
qed

lemma Stop_takes_the_exit:
  assumes "wf_process p" and "se_take env" and "has_process p"
  shows "receive (snd (Stop D env p)) = None"
proof -
  let ?q = "child_events (se_events env) (stop_begin p)"
  have hp: "has_process (stop_begin p)"
    using assms(3) stop_begin_has_process [OF assms(1)] by simp
  have run: "Stop D env p = stop_select D env ?q"
    using hp by (simp add: Stop_form(1))
  show ?thesis
  proof (cases "receive ?q")
    case None
    then show ?thesis
      using run assms(2) by (auto simp: stop_select_def)
  next
    case (Some mq)
    then have "snd (Stop D env p) = snd mq"
      using run assms(2) by (auto simp: stop_select_def split: prod.splits)
    then show ?thesis
      using wf_receive(2) [OF wf_child_events [OF wf_stop_begin [OF assms(1)]]] Some by (cases mq) simp
  qed
qed


definition demo_stop :: stop_env where
  "demo_stop = \<lparr>se_events = [], se_take = True, se_kill = None\<rparr>"


end
