(* ===== verification/Supervisor.thy ===== *)
theory Supervisor
  imports Process
begin

text \<open>
  \<open>internal/daemon/supervisor.go\<close>: the registry of processes, the operations the API calls,
  the monitor goroutine of each start and the handling of a failure. Processes are shared by
  reference (a monitor keeps its process after the tunnel was removed), so they live in a heap
  and \<open>processes\<close> maps names to positions in it. The state of the operating system is
  threaded through the supervisor's.
\<close>

section \<open>State\<close>

text \<open>
  A monitor: its process, the health check and timeouts it captured, and where it is: in its
  loop, calling \<open>handleFailure\<close>, sleeping there before it restarts a process, or gone.
\<close>

datatype mon_state = Polling | Handling | Sleeping nat duration | Finished

record monitor =
  mo_proc :: nat
  mo_name :: string
  mo_health :: "HealthCheckSpec option"
  mo_timeout :: duration
  mo_interval :: duration
  mo_state :: mon_state

record ('w, 'g, 'i) Supervisor =
  sv_planner :: "('g, 'i) Planner"
  sv_processes :: "string \<rightharpoonup> nat"
  sv_config :: Config
  sv_keyDir :: string
  sv_tunnelsDir :: string
  sv_ctx :: ctx
  sv_heap :: "Process list"
  sv_monitors :: "monitor list"
  sv_world :: 'w

definition NewSupervisor :: "'w \<Rightarrow> ('g, 'i) Planner \<Rightarrow> Config \<Rightarrow> string \<Rightarrow> string \<Rightarrow>
    ('w, 'g, 'i) Supervisor" where
  "NewSupervisor w planner cfg keyDir tunnelsDir =
    \<lparr>sv_planner = planner, sv_processes = Map.empty, sv_config = cfg, sv_keyDir = keyDir,
     sv_tunnelsDir = tunnelsDir, sv_ctx = None, sv_heap = [], sv_monitors = [], sv_world = w\<rparr>"

definition proc :: "('w, 'g, 'i) Supervisor \<Rightarrow> nat \<Rightarrow> Process" where
  "proc sv i = sv_heap sv ! i"

definition set_proc :: "nat \<Rightarrow> Process \<Rightarrow> ('w, 'g, 'i) Supervisor \<Rightarrow> ('w, 'g, 'i) Supervisor" where
  "set_proc i p sv = sv\<lparr>sv_heap := (sv_heap sv)[i := p]\<rparr>"

definition new_proc :: "'w os \<Rightarrow> Spec \<Rightarrow> ('w, 'g, 'i) Supervisor \<Rightarrow> ('w, 'g, 'i) Supervisor" where
  "new_proc S spec sv = sv
    \<lparr>sv_heap := sv_heap sv @ [NewProcess S spec (sv_keyDir sv)],
     sv_processes := (sv_processes sv)(spec_Name spec \<mapsto> length (sv_heap sv))\<rparr>"

definition not_found :: "string \<Rightarrow> err" where
  "not_found nm = ''tunnel '' @ quote nm @ '' not found''"

definition SaveKey :: "'w os \<Rightarrow> string \<Rightarrow> bytes \<Rightarrow> ('w, 'g, 'i) Supervisor \<Rightarrow>
    err option \<times> ('w, 'g, 'i) Supervisor" where
  "SaveKey S nm content sv =
    (case os_mkdirall S (sv_world sv) (sv_keyDir sv) PermDirPrivate of
       (Some e, w1) \<Rightarrow> (Some e, sv\<lparr>sv_world := w1\<rparr>)
     | (None, w1) \<Rightarrow>
        (case os_writefile S w1 (Join2 (sv_keyDir sv) nm) content PermFilePrivate of
           (e, w2) \<Rightarrow> (e, sv\<lparr>sv_world := w2\<rparr>)))"

section \<open>Starting and monitoring\<close>

definition new_monitor :: "duration_ops \<Rightarrow> nat \<Rightarrow> Process \<Rightarrow> monitor" where
  "new_monitor D i p =
    (let h = EffectiveHealthCheck p; t = das D (GetStartupTimeout h); iv = das D (GetInterval h) in
     \<lparr>mo_proc = i, mo_name = spec_Name (pr_spec p), mo_health = h,
      mo_timeout = (if t = 0 then DefaultStartupTimeout else t),
      mo_interval = (if sint iv \<le> 0 then DefaultHealthInterval else iv),
      mo_state = Polling\<rparr>)"

definition startAndNotify :: "'w os \<Rightarrow> duration_ops \<Rightarrow> ctx \<Rightarrow> (string \<times> string) list \<Rightarrow> nat \<Rightarrow>
    ('w, 'g, 'i) Supervisor \<Rightarrow> (err option \<times> ('w, 'g, 'i) Supervisor) go" where
  "startAndNotify S D ctx opts i sv =
    bind_go (Start S ctx opts (sv_world sv) (proc sv i))
      (\<lambda>(r, w', p').
        let sv1 = (set_proc i p' sv)\<lparr>sv_world := w'\<rparr> in
        case r of
          Some e \<Rightarrow> Ret (Some e, sv1)
        | None \<Rightarrow> Ret (None, sv1\<lparr>sv_monitors := sv_monitors sv @ [new_monitor D i p']\<rparr>))"

text \<open>
  The branches of the monitor's loop: its context is done, \<open>waitCh\<close> has an exit, or the ticker
  fires, \<open>elapsed\<close> nanoseconds after the start. \<open>None\<close> when the branch is not ready.
\<close>

datatype mon_event = MonDone | MonExit | MonTick int

definition set_monitor :: "nat \<Rightarrow> mon_state \<Rightarrow> ('w, 'g, 'i) Supervisor \<Rightarrow> ('w, 'g, 'i) Supervisor" where
  "set_monitor k st sv =
    sv\<lparr>sv_monitors := (sv_monitors sv)[k := (sv_monitors sv ! k)\<lparr>mo_state := st\<rparr>]\<rparr>"

fun monitor_event :: "duration_ops \<Rightarrow> dialer \<Rightarrow> mon_event \<Rightarrow> nat \<Rightarrow> ('w, 'g, 'i) Supervisor \<Rightarrow>
    ('w, 'g, 'i) Supervisor option" where
  "monitor_event D dial MonDone k sv =
    (if sv_ctx sv = Some True then Some (set_monitor k Finished sv) else None)"
| "monitor_event D dial MonExit k sv =
    (let i = mo_proc (sv_monitors sv ! k) in
     case receive (proc sv i) of
       None \<Rightarrow> None
     | Some (e, p') \<Rightarrow> Some (set_monitor k Handling (set_proc i p' sv)))"
| "monitor_event D dial (MonTick elapsed) k sv =
    (let m = sv_monitors sv ! k; i = mo_proc m; p = proc sv i in
     case Check dial (NewChecker D (mo_health m)) of
       None \<Rightarrow>
         Some (if pr_status p \<noteq> StatusRunning
               then set_proc i (resetRestartAttempts (setError None (setStatus StatusRunning p))) sv
               else sv)
     | Some e \<Rightarrow>
         if elapsed > sint (mo_timeout m)
         then Some (set_monitor k Handling
                (set_proc i (setStatus StatusFailed (setError (Some (''health check timeout: '' @ e)) p)) sv))
         else Some sv)"

section \<open>Failures\<close>

text \<open>
  \<open>scale d m n\<close> is \<open>time.Duration(float64(d) * math.Pow(float64(m), float64(n)))\<close>, the one
  place where the program computes with floating point numbers; the comparison with zero and
  the constant 2 are on the bits of a \<open>float32\<close>.
\<close>

type_synonym scale = "duration \<Rightarrow> float32 \<Rightarrow> gint \<Rightarrow> duration"

definition float32_nonpos :: "float32 \<Rightarrow> bool" where
  "float32_nonpos x \<longleftrightarrow>
    (let m = take_bit 31 x in m \<le> 0x7F800000 \<and> (m = 0 \<or> bit x 31))"

definition float32_two :: float32 where "float32_two = 0x40000000"

definition restart_delay :: "duration_ops \<Rightarrow> scale \<Rightarrow> RestartPolicySpec \<Rightarrow> gint \<Rightarrow> duration" where
  "restart_delay D scale policy attempts =
    (let delay = das D (rp_Delay policy) in
     case rp_Backoff policy of
       None \<Rightarrow> delay
     | Some b \<Rightarrow>
        if sint attempts > 0 then
          (let multiplier = (if float32_nonpos (bo_Multiplier b) then float32_two else bo_Multiplier b);
               backoffDelay = scale delay multiplier attempts;
               maxDelay = das D (bo_MaxDelay b)
           in if sint maxDelay > 0 \<and> sint backoffDelay > sint maxDelay then maxDelay else backoffDelay)
        else delay)"

text \<open>\<open>env\<close> says, by tunnel, what happens while \<open>Stop\<close> waits.\<close>

fun stop_dependents :: "duration_ops \<Rightarrow> (string \<Rightarrow> stop_env) \<Rightarrow> string list \<Rightarrow>
    ('w, 'g, 'i) Supervisor \<Rightarrow> ('w, 'g, 'i) Supervisor" where
  "stop_dependents D env [] sv = sv"
| "stop_dependents D env (d # ds) sv =
    stop_dependents D env ds
      (case sv_processes sv d of
         None \<Rightarrow> sv
       | Some i \<Rightarrow>
          if pr_status (proc sv i) \<noteq> StatusStopped
          then set_proc i (snd (Stop D (env d) (proc sv i))) sv else sv)"

text \<open>
  The restart policy, applied to the process \<open>i\<close>: the delay to sleep before it is started
  again, or nothing when the policy is exhausted or forbids it.
\<close>

definition apply_policy :: "duration_ops \<Rightarrow> scale \<Rightarrow> nat \<Rightarrow> ('w, 'g, 'i) Supervisor \<Rightarrow>
    duration option \<times> ('w, 'g, 'i) Supervisor" where
  "apply_policy D scale i sv =
    (let p = proc sv i in
     case spec_RestartPolicy (pr_spec p) of
       None \<Rightarrow> (None, sv)
     | Some policy \<Rightarrow>
        if rp_Policy policy = ''never'' then (None, sv)
        else
          (let attempts = pr_restartAttempts p in
           if attempts_exhausted policy attempts
           then (None, set_proc i
                  (setError (Some ''max restart attempts reached'') (setStatus StatusFailed p)) sv)
           else (Some (restart_delay D scale policy attempts), set_proc i (incrementRestartAttempts p) sv)))"

text \<open>
  \<open>handleFailure\<close> up to its sleep: the process that was found under the name, with the delay,
  when it is going to be restarted.
\<close>

definition handleFailure :: "duration_ops \<Rightarrow> ('g, 'i) graph_ops \<Rightarrow> scale \<Rightarrow> (string \<Rightarrow> stop_env) \<Rightarrow>
    string \<Rightarrow> ('w, 'g, 'i) Supervisor \<Rightarrow> ((nat \<times> duration) option \<times> ('w, 'g, 'i) Supervisor) go" where
  "handleFailure D G scale env nm sv =
    (case sv_processes sv nm of
       None \<Rightarrow> Ret (None, sv)
     | Some i \<Rightarrow>
        if pr_expectedState (proc sv i) = DesiredStopped \<or> pr_expectedState (proc sv i) = DesiredDisabled
        then Ret (None, sv)
        else bind_go (DependentsOf G (sv_planner sv) nm)
          (\<lambda>deps.
            let sv1 = (case deps of Inl e \<Rightarrow> sv | Inr ds \<Rightarrow> stop_dependents D env ds sv) in
            case apply_policy D scale i sv1 of
              (None, sv2) \<Rightarrow> Ret (None, sv2)
            | (Some delay, sv2) \<Rightarrow> Ret (Some (i, delay), sv2)))"

text \<open>What monitor \<open>k\<close> does in \<open>handleFailure\<close>: everything up to the sleep, and after it.\<close>

definition monitor_handle :: "duration_ops \<Rightarrow> ('g, 'i) graph_ops \<Rightarrow> scale \<Rightarrow> (string \<Rightarrow> stop_env) \<Rightarrow>
    nat \<Rightarrow> ('w, 'g, 'i) Supervisor \<Rightarrow> ('w, 'g, 'i) Supervisor go" where
  "monitor_handle D G scale env k sv =
    bind_go (handleFailure D G scale env (mo_name (sv_monitors sv ! k)) sv)
      (\<lambda>(r, sv1). Ret (set_monitor k (case r of None \<Rightarrow> Finished | Some (i, d) \<Rightarrow> Sleeping i d) sv1))"

definition monitor_restart :: "'w os \<Rightarrow> duration_ops \<Rightarrow> (string \<times> string) list \<Rightarrow> nat \<Rightarrow> nat \<Rightarrow>
    ('w, 'g, 'i) Supervisor \<Rightarrow> ('w, 'g, 'i) Supervisor go" where
  "monitor_restart S D opts k i sv =
    bind_go (startAndNotify S D (sv_ctx sv) opts i sv) (\<lambda>(e, sv1). Ret (set_monitor k Finished sv1))"

section \<open>The operations\<close>

text \<open>
  \<open>Run\<close> up to its wait for the context; after it \<open>StopAll\<close> is called. \<open>opts\<close> gives the order
  in which the options of a tunnel are visited.
\<close>

definition run_conflict :: "string \<Rightarrow> string \<Rightarrow> string \<Rightarrow> err" where
  "run_conflict nm owner key =
    ''port conflict in config: '' @ quote nm @ '' and '' @ quote owner @ '' both claim '' @ key"

fun start_order :: "'w os \<Rightarrow> duration_ops \<Rightarrow> (string \<Rightarrow> (string \<times> string) list) \<Rightarrow> ctx \<Rightarrow> Spec list \<Rightarrow>
    ('w, 'g, 'i) Supervisor \<Rightarrow> ('w, 'g, 'i) Supervisor go" where
  "start_order S D opts ctx [] sv = Ret sv"
| "start_order S D opts ctx (spec # specs) sv =
    bind_go (startAndNotify S D ctx (opts (spec_Name spec)) (length (sv_heap sv)) (new_proc S spec sv))
      (\<lambda>(e, sv1). start_order S D opts ctx specs sv1)"

definition Run :: "'w os \<Rightarrow> duration_ops \<Rightarrow> ('g, 'i) graph_ops \<Rightarrow> (string \<times> Spec) list \<Rightarrow>
    (string \<times> Spec) list \<Rightarrow> (string \<Rightarrow> (string \<times> string) list) \<Rightarrow> ctx \<Rightarrow>
    ('w, 'g, 'i) Supervisor \<Rightarrow> (err option \<times> ('w, 'g, 'i) Supervisor) go" where
  "Run S D G es1 es2 opts ctx sv =
    bind_go (Plan G es1 es2 (sv_planner sv))
      (\<lambda>(r, pl).
        let sv1 = sv\<lparr>sv_ctx := ctx, sv_planner := pl\<rparr> in
        case r of
          Inl e \<Rightarrow> Ret (Some e, sv1)
        | Inr order \<Rightarrow>
           (case claim_all run_conflict
                (map (\<lambda>s. (spec_Name s, LocalPortKeys (spec_ToProto s))) order) Map.empty of
              Some e \<Rightarrow> Ret (Some e, sv1)
            | None \<Rightarrow> bind_go (start_order S D opts ctx order sv1) (\<lambda>sv2. Ret (None, sv2))))"

definition GetProcess :: "string \<Rightarrow> ('w, 'g, 'i) Supervisor \<Rightarrow> err + nat" where
  "GetProcess nm sv = (case sv_processes sv nm of None \<Rightarrow> Inl (not_found nm) | Some i \<Rightarrow> Inr i)"

record TunnelInfo =
  ti_Name :: string
  ti_Status :: Status
  ti_Error :: string
  ti_Spec :: Spec
  ti_PortMappings :: "PortMapping list"

text \<open>In the loops over the registry \<open>es\<close> is the order in which they visit it.\<close>

definition tunnel_info :: "string \<Rightarrow> Process \<Rightarrow> TunnelInfo" where
  "tunnel_info nm p =
    \<lparr>ti_Name = nm, ti_Status = pr_status p,
     ti_Error = (case pr_lastError p of None \<Rightarrow> [] | Some e \<Rightarrow> e),
     ti_Spec = pr_spec p, ti_PortMappings = pr_portMappings p\<rparr>"

definition ListTunnels :: "(string \<times> nat) list \<Rightarrow> ('w, 'g, 'i) Supervisor \<Rightarrow> TunnelInfo list" where
  "ListTunnels es sv = map (\<lambda>(nm, i). tunnel_info nm (proc sv i)) es"

definition conflict_error :: "Spec \<Rightarrow> Spec \<Rightarrow> string \<Rightarrow> err" where
  "conflict_error spec existing key =
    ''port conflict: '' @ quote (spec_Name spec) @ '' and '' @ quote (spec_Name existing)
      @ '' both claim '' @ key"

definition checkPortConflicts :: "(string \<times> nat) list \<Rightarrow> Spec \<Rightarrow> ('w, 'g, 'i) Supervisor \<Rightarrow> err option" where
  "checkPortConflicts es spec sv =
    (let newKeys = LocalPortKeys (spec_ToProto spec) in
     first_error (\<lambda>(nm, i).
       let existing = pr_spec (proc sv i) in
       first_error (\<lambda>key. first_error (\<lambda>nk. if key = nk then Some (conflict_error spec existing key) else None) newKeys)
         (LocalPortKeys (spec_ToProto existing))) es)"

text \<open>The file of a persistent tunnel.\<close>

definition persist :: "'w os \<Rightarrow> duration_ops \<Rightarrow> yaml_ops \<Rightarrow> Spec \<Rightarrow> ('w, 'g, 'i) Supervisor \<Rightarrow>
    (err option \<times> ('w, 'g, 'i) Supervisor) go" where
  "persist S D Y spec sv =
    (case os_mkdirall S (sv_world sv) (sv_tunnelsDir sv) PermDirPublic of
       (Some e, w1) \<Rightarrow> Ret (Some (''failed to create tunnels directory: '' @ e), sv\<lparr>sv_world := w1\<rparr>)
     | (None, w1) \<Rightarrow>
        bind_go (MarshalTunnel D Y (spec_ToProto spec))
          (\<lambda>r. case r of
             Inl e \<Rightarrow> Ret (Some (''failed to marshal tunnel: '' @ e), sv\<lparr>sv_world := w1\<rparr>)
           | Inr data \<Rightarrow>
              (case os_writefile S w1 (Join2 (sv_tunnelsDir sv) (spec_Name spec @ ''.yaml'')) data PermFilePublic of
                 (Some e, w2) \<Rightarrow> Ret (Some (''failed to save tunnel config: '' @ e), sv\<lparr>sv_world := w2\<rparr>)
               | (None, w2) \<Rightarrow> Ret (None, sv\<lparr>sv_world := w2\<rparr>))))"

text \<open>The part of \<open>AddTunnel\<close> after the file has been written.\<close>

definition register :: "'w os \<Rightarrow> duration_ops \<Rightarrow> ('g, 'i) graph_ops \<Rightarrow> (string \<times> Spec) list \<Rightarrow>
    (string \<times> Spec) list \<Rightarrow> (string \<times> string) list \<Rightarrow> Spec \<Rightarrow> ('w, 'g, 'i) Supervisor \<Rightarrow>
    (err option \<times> ('w, 'g, 'i) Supervisor) go" where
  "register S D G es1 es2 opts spec sv =
    bind_go (Plan G es1 es2 (AddSpec spec (sv_planner sv)))
      (\<lambda>(r, pl). case r of
         Inl e \<Rightarrow> Ret (Some (''invalid dependencies: '' @ e),
           sv\<lparr>sv_planner := RemoveSpec (spec_Name spec) pl\<rparr>)
       | Inr ss \<Rightarrow>
          (let sv1 = new_proc S spec (sv\<lparr>sv_planner := pl\<rparr>) in
           case sv_ctx sv of
             None \<Rightarrow> Ret (None, sv1)
           | Some d \<Rightarrow> startAndNotify S D (Some d) opts (length (sv_heap sv)) sv1))"

definition AddTunnel :: "'w os \<Rightarrow> duration_ops \<Rightarrow> yaml_ops \<Rightarrow> ('g, 'i) graph_ops \<Rightarrow> (string \<times> nat) list \<Rightarrow>
    (string \<times> Spec) list \<Rightarrow> (string \<times> Spec) list \<Rightarrow> (string \<times> string) list \<Rightarrow> Spec \<Rightarrow> bool \<Rightarrow>
    ('w, 'g, 'i) Supervisor \<Rightarrow> (err option \<times> ('w, 'g, 'i) Supervisor) go" where
  "AddTunnel S D Y G es es1 es2 opts spec persistent sv =
    (if sv_processes sv (spec_Name spec) \<noteq> None
     then Ret (Some (''tunnel '' @ quote (spec_Name spec) @ '' already exists''), sv)
     else case checkPortConflicts es spec sv of
       Some e \<Rightarrow> Ret (Some e, sv)
     | None \<Rightarrow>
        bind_go (if persistent \<and> sv_tunnelsDir sv \<noteq> [] then persist S D Y spec sv else Ret (None, sv))
          (\<lambda>(r, sv1). case r of
             Some e \<Rightarrow> Ret (Some e, sv1)
           | None \<Rightarrow> register S D G es1 es2 opts spec sv1))"

definition RemoveTunnel :: "duration_ops \<Rightarrow> stop_env \<Rightarrow> string \<Rightarrow> ('w, 'g, 'i) Supervisor \<Rightarrow>
    err option \<times> ('w, 'g, 'i) Supervisor" where
  "RemoveTunnel D env nm sv =
    (case sv_processes sv nm of
       None \<Rightarrow> (Some (not_found nm), sv)
     | Some i \<Rightarrow> (None, (set_proc i (snd (Stop D env (proc sv i))) sv)
         \<lparr>sv_processes := (sv_processes sv)(nm := None), sv_planner := RemoveSpec nm (sv_planner sv)\<rparr>))"

definition set_enabled :: "'w os \<Rightarrow> yaml_ops \<Rightarrow> string \<Rightarrow> bool \<Rightarrow> ('w, 'g, 'i) Supervisor \<Rightarrow>
    err option \<times> ('w, 'g, 'i) Supervisor" where
  "set_enabled S Y nm b sv =
    (case SetEnabled S Y (sv_world sv) nm b (sv_config sv) of
       (e, c, w) \<Rightarrow> (map_option (\<lambda>m. ''failed to update config: '' @ m) e, sv\<lparr>sv_config := c, sv_world := w\<rparr>))"

definition EnableTunnel :: "'w os \<Rightarrow> duration_ops \<Rightarrow> yaml_ops \<Rightarrow> (string \<times> string) list \<Rightarrow> string \<Rightarrow>
    ('w, 'g, 'i) Supervisor \<Rightarrow> (err option \<times> ('w, 'g, 'i) Supervisor) go" where
  "EnableTunnel S D Y opts nm sv =
    (case sv_processes sv nm of
       None \<Rightarrow> Ret (Some (not_found nm), sv)
     | Some i \<Rightarrow>
        (case set_enabled S Y nm True sv of
           (Some e, sv1) \<Rightarrow> Ret (Some e, sv1)
         | (None, sv1) \<Rightarrow> startAndNotify S D (sv_ctx sv1) opts i sv1))"

definition DisableTunnel :: "'w os \<Rightarrow> duration_ops \<Rightarrow> yaml_ops \<Rightarrow> stop_env \<Rightarrow> string \<Rightarrow>
    ('w, 'g, 'i) Supervisor \<Rightarrow> err option \<times> ('w, 'g, 'i) Supervisor" where
  "DisableTunnel S D Y env nm sv =
    (case sv_processes sv nm of
       None \<Rightarrow> (Some (not_found nm), sv)
     | Some i \<Rightarrow>
        (case set_enabled S Y nm False sv of
           (Some e, sv1) \<Rightarrow> (Some e, sv1)
         | (None, sv1) \<Rightarrow> (case Stop D env (proc sv1 i) of (r, p) \<Rightarrow> (r, set_proc i p sv1))))"

definition StartTunnel :: "'w os \<Rightarrow> duration_ops \<Rightarrow> (string \<times> string) list \<Rightarrow> string \<Rightarrow>
    ('w, 'g, 'i) Supervisor \<Rightarrow> (err option \<times> ('w, 'g, 'i) Supervisor) go" where
  "StartTunnel S D opts nm sv =
    (case sv_processes sv nm of
       None \<Rightarrow> Ret (Some (not_found nm), sv)
     | Some i \<Rightarrow>
        if (pr_status (proc sv i) = StatusRunning \<or> pr_status (proc sv i) = StatusStarting)
          \<and> IsProcessAlive (proc sv i)
        then Ret (None, sv)
        else startAndNotify S D (sv_ctx sv) opts i sv)"

definition StopTunnel :: "duration_ops \<Rightarrow> stop_env \<Rightarrow> string \<Rightarrow> ('w, 'g, 'i) Supervisor \<Rightarrow>
    err option \<times> ('w, 'g, 'i) Supervisor" where
  "StopTunnel D env nm sv =
    (case sv_processes sv nm of
       None \<Rightarrow> (Some (not_found nm), sv)
     | Some i \<Rightarrow> (case Stop D env (proc sv i) of (r, p) \<Rightarrow> (r, set_proc i p sv)))"

fun stop_all :: "duration_ops \<Rightarrow> (string \<Rightarrow> stop_env) \<Rightarrow> (string \<times> nat) list \<Rightarrow>
    ('w, 'g, 'i) Supervisor \<Rightarrow> ('w, 'g, 'i) Supervisor" where
  "stop_all D env [] sv = sv"
| "stop_all D env ((nm, i) # es) sv =
    stop_all D env es (set_proc i (snd (Stop D (env nm) (proc sv i))) sv)"

definition StopAll :: "duration_ops \<Rightarrow> (string \<Rightarrow> stop_env) \<Rightarrow> (string \<times> nat) list \<Rightarrow>
    ('w, 'g, 'i) Supervisor \<Rightarrow> err option \<times> ('w, 'g, 'i) Supervisor" where
  "StopAll D env es sv = (None, stop_all D env es sv)"

text \<open>
  The polling loop of \<open>WaitHealthy\<close> over what it sees: the context done, with the status and
  the context's error at that moment, or a tick of its 500 ms ticker, with the status it reads
  and the nanoseconds since the call. \<open>None\<close>: it is still waiting when the events end.
\<close>

datatype wait_event = WaitDone Status err | WaitTick Status int

fun wait_loop :: "RestartPolicySpec option \<Rightarrow> duration \<Rightarrow> wait_event list \<Rightarrow> (Status \<times> err option) option" where
  "wait_loop policy timeout [] = None"
| "wait_loop policy timeout (WaitDone st e # evs) = Some (st, Some e)"
| "wait_loop policy timeout (WaitTick st elapsed # evs) =
    (if st = StatusRunning then Some (StatusRunning, None)
     else if st = StatusFailed \<and> (case policy of None \<Rightarrow> True | Some r \<Rightarrow> rp_Policy r = ''never'')
     then Some (StatusFailed, Some ''tunnel failed'')
     else if elapsed > sint timeout then Some (st, Some ''timeout waiting for health'')
     else wait_loop policy timeout evs)"

definition WaitHealthy :: "string \<Rightarrow> duration \<Rightarrow> wait_event list \<Rightarrow> ('w, 'g, 'i) Supervisor \<Rightarrow>
    (Status option \<times> err option) option" where
  "WaitHealthy nm timeout evs sv =
    (case sv_processes sv nm of
       None \<Rightarrow> Some (None, Some (not_found nm))
     | Some i \<Rightarrow>
        if pr_status (proc sv i) = StatusRunning then Some (Some StatusRunning, None)
        else map_option (\<lambda>(st, e). (Some st, e))
          (wait_loop (spec_RestartPolicy (pr_spec (proc sv i)))
            (if timeout = 0 then DefaultWaitTimeout else timeout) evs))"

end
