(* ===== verification/Supervisor_Inv.thy ===== *)
theory Supervisor_Inv
  imports Supervisor
begin

text \<open>
  The supervisor as a transition system: everything the API, the monitors and the children
  can do to it, in any order, and the invariant of the states that are reached.
\<close>

section \<open>What the operations keep of a process\<close>

lemma Start_spec: "Start S ctx opts w p = Ret (r, w', p') \<Longrightarrow> pr_spec p' = pr_spec p"
  by (erule Start_cases) (simp_all add: not_started_def started_def)

lemma stop_frame_spec: "stop_frame p = stop_frame q \<Longrightarrow> pr_spec p = pr_spec q"
  by (simp add: stop_frame_def)

lemma child_step_spec: "child_step e p = Some p' \<Longrightarrow> pr_spec p' = pr_spec p"
  by (rule stop_frame_spec) (rule child_step_frame)

lemma receive_spec: "receive p = Some (m, p') \<Longrightarrow> pr_spec p' = pr_spec p"
  by (rule stop_frame_spec) (rule receive_frame)

lemma Stop_spec: "pr_spec (snd (Stop D env p)) = pr_spec p"
proof -
  have "pr_spec (snd (stop_select D env q)) = pr_spec q" for q
    by (auto simp: stop_select_def split: option.splits if_splits dest: receive_spec)
  moreover have "pr_spec (child_events es q) = pr_spec q" for es q
    by (rule stop_frame_spec) (rule child_events_frame)
  ultimately show ?thesis
    by (simp add: Stop_def Let_def)
qed

lemma setters_spec [simp]:
  "pr_spec (setStatus st p) = pr_spec p" "pr_spec (setError e p) = pr_spec p"
  "pr_spec (incrementRestartAttempts p) = pr_spec p" "pr_spec (resetRestartAttempts p) = pr_spec p"
  by (simp_all add: go_defs)

section \<open>The invariant\<close>

definition proc_keys :: "('w, 'g, 'i) Supervisor \<Rightarrow> nat \<Rightarrow> string set" where
  "proc_keys sv i = set (LocalPortKeys (spec_ToProto (pr_spec (proc sv i))))"

definition sv_registry :: "('w, 'g, 'i) Supervisor \<Rightarrow> bool" where
  "sv_registry sv \<longleftrightarrow> (\<forall>n i. sv_processes sv n = Some i \<longrightarrow>
     i < length (sv_heap sv) \<and> pl_specs (sv_planner sv) n = Some (pr_spec (proc sv i)))"

definition sv_disjoint :: "('w, 'g, 'i) Supervisor \<Rightarrow> bool" where
  "sv_disjoint sv \<longleftrightarrow> (\<forall>n i m j. sv_processes sv n = Some i \<longrightarrow> sv_processes sv m = Some j \<longrightarrow> n \<noteq> m \<longrightarrow>
     proc_keys sv i \<inter> proc_keys sv j = {})"

definition monitor_ok :: "nat \<Rightarrow> monitor \<Rightarrow> bool" where
  "monitor_ok n m \<longleftrightarrow> mo_proc m < n \<and>
     (case mo_state m of Sleeping i d \<Rightarrow> i < n | Polling \<Rightarrow> True | Handling \<Rightarrow> True | Finished \<Rightarrow> True)"

definition sv_ok :: "'w os \<Rightarrow> duration_ops \<Rightarrow> ('w, 'g, 'i) Supervisor \<Rightarrow> bool" where
  "sv_ok S D sv \<longleftrightarrow> named (pl_specs (sv_planner sv)) \<and> sv_registry sv \<and> sv_disjoint sv \<and>
     (\<forall>p \<in> set (sv_heap sv). proc_reachable S D p) \<and>
     (\<forall>m \<in> set (sv_monitors sv). monitor_ok (length (sv_heap sv)) m)"

text \<open>Two supervisors that differ only in what the invariant does not mention.\<close>

lemma sv_ok_cong:
  assumes "pl_specs (sv_planner sv') = pl_specs (sv_planner sv)" and "sv_processes sv' = sv_processes sv"
    and "map pr_spec (sv_heap sv') = map pr_spec (sv_heap sv)"
    and "\<forall>p \<in> set (sv_heap sv'). proc_reachable S D p"
    and "\<forall>m \<in> set (sv_monitors sv'). monitor_ok (length (sv_heap sv)) m"
    and "sv_ok S D sv"
  shows "sv_ok S D sv'"
proof -
  have len: "length (sv_heap sv') = length (sv_heap sv)"
    using assms(3) by (metis length_map)
  have spec: "pr_spec (proc sv' i) = pr_spec (proc sv i)" if "i < length (sv_heap sv)" for i
    using that assms(3) len unfolding proc_def by (metis nth_map)
  have reg: "i < length (sv_heap sv)" if "sv_processes sv n = Some i" for n i
    using that assms(6) by (simp add: sv_ok_def sv_registry_def)
  show ?thesis
    using assms(1,2,4,5,6) len spec reg
    by (simp add: sv_ok_def sv_registry_def sv_disjoint_def proc_keys_def)
qed

lemma sv_ok_proc: "sv_ok S D sv \<Longrightarrow> i < length (sv_heap sv) \<Longrightarrow> proc_reachable S D (proc sv i)"
  by (simp add: sv_ok_def proc_def)

lemma sv_ok_registered:
  assumes "sv_ok S D sv" and "sv_processes sv n = Some i"
  shows "i < length (sv_heap sv)" and "pl_specs (sv_planner sv) n = Some (pr_spec (proc sv i))"
    and "spec_Name (pr_spec (proc sv i)) = n" and "proc_reachable S D (proc sv i)"
proof -
  show i: "i < length (sv_heap sv)" and pl: "pl_specs (sv_planner sv) n = Some (pr_spec (proc sv i))"
    using assms by (simp_all add: sv_ok_def sv_registry_def)
  show "spec_Name (pr_spec (proc sv i)) = n"
    using assms(1) pl by (simp add: sv_ok_def named_def)
  show "proc_reachable S D (proc sv i)"
    by (rule sv_ok_proc [OF assms(1) i])
qed

lemma set_proc_simps [simp]:
  "sv_processes (set_proc i p sv) = sv_processes sv" "sv_planner (set_proc i p sv) = sv_planner sv"
  "sv_monitors (set_proc i p sv) = sv_monitors sv" "sv_ctx (set_proc i p sv) = sv_ctx sv"
  "length (sv_heap (set_proc i p sv)) = length (sv_heap sv)" "sv_world (set_proc i p sv) = sv_world sv"
  "sv_config (set_proc i p sv) = sv_config sv" "sv_tunnelsDir (set_proc i p sv) = sv_tunnelsDir sv"
  "sv_keyDir (set_proc i p sv) = sv_keyDir sv"
  by (simp_all add: set_proc_def)

lemma proc_set_proc:
  "j < length (sv_heap sv) \<Longrightarrow> proc (set_proc i p sv) j = (if i = j then p else proc sv j)"
  by (auto simp: proc_def set_proc_def)

lemma set_monitor_simps [simp]:
  "sv_processes (set_monitor k st sv) = sv_processes sv" "sv_planner (set_monitor k st sv) = sv_planner sv"
  "sv_heap (set_monitor k st sv) = sv_heap sv" "sv_ctx (set_monitor k st sv) = sv_ctx sv"
  "sv_world (set_monitor k st sv) = sv_world sv"
  "length (sv_monitors (set_monitor k st sv)) = length (sv_monitors sv)"
  by (simp_all add: set_monitor_def)

lemma set_proc_specs:
  assumes "pr_spec p = pr_spec (proc sv i)"
  shows "map pr_spec (sv_heap (set_proc i p sv)) = map pr_spec (sv_heap sv)"
  using assms by (cases "i < length (sv_heap sv)")
    (simp_all add: set_proc_def proc_def map_update list_update_same_conv list_update_beyond)

lemma sv_ok_set_proc:
  assumes "sv_ok S D sv" and "proc_reachable S D p" and "pr_spec p = pr_spec (proc sv i)"
  shows "sv_ok S D (set_proc i p sv)"
proof (rule sv_ok_cong [OF _ _ set_proc_specs [OF assms(3)] _ _ assms(1)])
  show "\<forall>q \<in> set (sv_heap (set_proc i p sv)). proc_reachable S D q"
    using assms(1,2) set_update_subset_insert [of "sv_heap sv" i p] by (auto simp: set_proc_def sv_ok_def)
qed (use assms(1) in \<open>simp_all add: sv_ok_def\<close>)

lemma sv_ok_set_monitor:
  assumes "sv_ok S D sv" and "k < length (sv_monitors sv)"
    and "case st of Sleeping i d \<Rightarrow> i < length (sv_heap sv) | Polling \<Rightarrow> True | Handling \<Rightarrow> True | Finished \<Rightarrow> True"
  shows "sv_ok S D (set_monitor k st sv)"
proof (rule sv_ok_cong [OF _ _ _ _ _ assms(1)])
  have "monitor_ok (length (sv_heap sv)) ((sv_monitors sv ! k)\<lparr>mo_state := st\<rparr>)"
    using assms by (auto simp: sv_ok_def monitor_ok_def)
  then show "\<forall>m \<in> set (sv_monitors (set_monitor k st sv)). monitor_ok (length (sv_heap sv)) m"
    using assms(1) set_update_subset_insert [of "sv_monitors sv" k "(sv_monitors sv ! k)\<lparr>mo_state := st\<rparr>"]
    by (auto simp: set_monitor_def sv_ok_def)
qed (use assms(1) in \<open>simp_all add: sv_ok_def\<close>)

lemma sv_ok_frame:
  assumes "sv_ok S D sv" and "pl_specs (sv_planner sv') = pl_specs (sv_planner sv)"
    and "sv_processes sv' = sv_processes sv" and "sv_heap sv' = sv_heap sv" and "sv_monitors sv' = sv_monitors sv"
  shows "sv_ok S D sv'"
  by (rule sv_ok_cong [OF assms(2,3) _ _ _ assms(1)]) (use assms in \<open>simp_all add: sv_ok_def\<close>)

subsection \<open>Starting\<close>

lemma startAndNotify_cases:
  assumes "startAndNotify S D ctx opts i sv = Ret (r, sv')"
  obtains w' p' where "Start S ctx opts (sv_world sv) (proc sv i) = Ret (r, w', p')"
    "sv' = (set_proc i p' sv)\<lparr>sv_world := w',
       sv_monitors := sv_monitors sv @ (if r = None then [new_monitor D i p'] else [])\<rparr>"
proof -
  obtain r' w' p' where "Start S ctx opts (sv_world sv) (proc sv i) = Ret (r', w', p')"
    using assms by (cases "Start S ctx opts (sv_world sv) (proc sv i)") (auto simp: startAndNotify_def)
  then show thesis
    using assms that by (cases r') (auto simp: startAndNotify_def Let_def set_proc_def)
qed

lemma sv_ok_startAndNotify:
  assumes "sv_ok S D sv" and "i < length (sv_heap sv)" and run: "startAndNotify S D ctx opts i sv = Ret (r, sv')"
  shows "sv_ok S D sv'"
  using run
proof (cases rule: startAndNotify_cases)
  case (1 w' p')
  have ok: "sv_ok S D (set_proc i p' sv)"
    using assms(1) proc_reachable.start [OF sv_ok_proc [OF assms(1,2)] 1(1)] Start_spec [OF 1(1)]
    by (rule sv_ok_set_proc)
  show ?thesis
  proof (rule sv_ok_cong [OF _ _ _ _ _ ok])
    show "\<forall>m \<in> set (sv_monitors sv'). monitor_ok (length (sv_heap (set_proc i p' sv))) m"
      using assms(1,2) by (auto simp: 1(2) sv_ok_def monitor_ok_def new_monitor_def Let_def)
    show "\<forall>p \<in> set (sv_heap sv'). proc_reachable S D p"
      using ok by (simp add: 1(2) sv_ok_def)
  qed (simp_all add: 1(2))
qed

lemma startAndNotify_frame:
  assumes "startAndNotify S D ctx opts i sv = Ret (r, sv')"
  shows "sv_planner sv' = sv_planner sv" and "sv_processes sv' = sv_processes sv"
    and "map pr_spec (sv_heap sv') = map pr_spec (sv_heap sv)" and "sv_ctx sv' = sv_ctx sv"
    and "length (sv_heap sv') = length (sv_heap sv)" and "sv_keyDir sv' = sv_keyDir sv"
  using assms
  by (auto elim!: startAndNotify_cases dest: Start_spec simp: set_proc_specs)

section \<open>Every operation keeps the invariant\<close>

definition spec_keys :: "Spec \<Rightarrow> string set" where
  "spec_keys s = set (LocalPortKeys (spec_ToProto s))"

lemma proc_keys_spec: "proc_keys sv i = spec_keys (pr_spec (proc sv i))"
  by (simp add: proc_keys_def spec_keys_def)

lemma new_proc_simps [simp]:
  "sv_planner (new_proc S spec sv) = sv_planner sv" "sv_monitors (new_proc S spec sv) = sv_monitors sv"
  "sv_ctx (new_proc S spec sv) = sv_ctx sv"
  "length (sv_heap (new_proc S spec sv)) = Suc (length (sv_heap sv))"
  "sv_processes (new_proc S spec sv) = (sv_processes sv)(spec_Name spec \<mapsto> length (sv_heap sv))"
  "proc (new_proc S spec sv) (length (sv_heap sv)) = NewProcess S spec (sv_keyDir sv)"
  "sv_heap (new_proc S spec sv) = sv_heap sv @ [NewProcess S spec (sv_keyDir sv)]"
  by (simp_all add: new_proc_def proc_def)

lemma proc_new_proc_old: "i < length (sv_heap sv) \<Longrightarrow> proc (new_proc S spec sv) i = proc sv i"
  by (simp add: proc_def nth_append)

lemma NewProcess_spec [simp]: "pr_spec (NewProcess S spec k) = spec"
  by (simp add: NewProcess_def)

lemma monitor_ok_mono: "monitor_ok n m \<Longrightarrow> n \<le> n' \<Longrightarrow> monitor_ok n' m"
  by (auto simp: monitor_ok_def split: mon_state.splits)

lemma sv_ok_new_proc:
  assumes ok: "sv_ok S D sv" and sp: "pl_specs (sv_planner sv) (spec_Name spec) = Some spec"
    and apart: "\<And>n i. sv_processes sv n = Some i \<Longrightarrow> n \<noteq> spec_Name spec \<Longrightarrow> proc_keys sv i \<inter> spec_keys spec = {}"
  shows "sv_ok S D (new_proc S spec sv)"
proof -
  let ?sv = "new_proc S spec sv"
  have old: "i < length (sv_heap sv)" "proc ?sv i = proc sv i" if "sv_processes sv n = Some i" for n i
    using sv_ok_registered(1) [OF ok that] proc_new_proc_old by auto
  have reg: "sv_registry ?sv"
    unfolding sv_registry_def
  proof (intro allI impI)
    fix n i
    assume n: "sv_processes ?sv n = Some i"
    show "i < length (sv_heap ?sv) \<and> pl_specs (sv_planner ?sv) n = Some (pr_spec (proc ?sv i))"
    proof (cases "n = spec_Name spec")
      case True
      then show ?thesis using n sp by auto
    next
      case False
      then have n': "sv_processes sv n = Some i" using n by simp
      then show ?thesis
        using old [OF n'] sv_ok_registered(2) [OF ok n'] by simp
    qed
  qed
  have disj: "sv_disjoint ?sv"
    unfolding sv_disjoint_def
  proof (intro allI impI)
    fix n i m j
    assume n: "sv_processes ?sv n = Some i" and m: "sv_processes ?sv m = Some j" and nm: "n \<noteq> m"
    have upd: "sv_processes ?sv k = (if k = spec_Name spec then Some (length (sv_heap sv)) else sv_processes sv k)" for k
      by simp
    have new: "proc_keys ?sv (length (sv_heap sv)) = spec_keys spec"
      by (simp add: proc_keys_spec)
    have keys: "proc_keys ?sv k = proc_keys sv k" if "sv_processes sv l = Some k" for k l
      unfolding proc_keys_spec old(2) [OF that] by (rule refl)
    show "proc_keys ?sv i \<inter> proc_keys ?sv j = {}"
    proof (cases "n = spec_Name spec")
      case True
      then have i: "i = length (sv_heap sv)" and m': "sv_processes sv m = Some j" "m \<noteq> spec_Name spec"
        using n m nm unfolding upd by auto
      show ?thesis
        unfolding i new keys [OF m'(1)] using apart [OF m'] by blast
    next
      case n': False
      then have ni: "sv_processes sv n = Some i"
        using n unfolding upd by simp
      show ?thesis
      proof (cases "m = spec_Name spec")
        case True
        then have j: "j = length (sv_heap sv)"
          using m unfolding upd by simp
        show ?thesis
          unfolding j new keys [OF ni] by (rule apart [OF ni n'])
      next
        case False
        then have mj: "sv_processes sv m = Some j"
          using m unfolding upd by simp
        have "sv_disjoint sv"
          using ok by (simp add: sv_ok_def)
        then show ?thesis
          unfolding keys [OF ni] keys [OF mj] using ni mj nm by (simp add: sv_disjoint_def)
      qed
    qed
  qed
  have "\<forall>m \<in> set (sv_monitors ?sv). monitor_ok (length (sv_heap ?sv)) m"
    using ok monitor_ok_mono [of "length (sv_heap sv)"] by (simp add: sv_ok_def)
  moreover have "\<forall>p \<in> set (sv_heap ?sv). proc_reachable S D p"
    using ok by (auto simp: sv_ok_def proc_reachable.new)
  ultimately show ?thesis
    using ok reg disj by (simp add: sv_ok_def)
qed

definition specs_disjoint :: "(string \<rightharpoonup> Spec) \<Rightarrow> bool" where
  "specs_disjoint m \<longleftrightarrow> (\<forall>n s n' s'. m n = Some s \<longrightarrow> m n' = Some s' \<longrightarrow> n \<noteq> n' \<longrightarrow> spec_keys s \<inter> spec_keys s' = {})"

lemma claim_all_disjoint:
  assumes "claim_all msg (map (\<lambda>s. (spec_Name s, LocalPortKeys (spec_ToProto s))) order) Map.empty = None"
    and "distinct order" and "set order = ran m" and "named m"
  shows "specs_disjoint m"
proof -
  have "distinct (concat (map (\<lambda>s. LocalPortKeys (spec_ToProto s)) order))"
    using assms(1) by (simp add: claim_all_None comp_def)
  then have d: "\<forall>x \<in> ran m. \<forall>y \<in> ran m. x \<noteq> y \<longrightarrow> spec_keys x \<inter> spec_keys y = {}"
    using assms(2,3) by (simp add: distinct_concat_iff spec_keys_def)
  show ?thesis
    unfolding specs_disjoint_def
  proof (intro allI impI)
    fix n s n' s'
    assume "m n = Some s" "m n' = Some s'" "n \<noteq> n'"
    then show "spec_keys s \<inter> spec_keys s' = {}"
      using d assms(4) by (metis named_def ranI)
  qed
qed

text \<open>Starting the specs of a plan in order registers each of them.\<close>

lemma start_order_ok:
  assumes "sv_ok S D sv" and "specs_disjoint (pl_specs (sv_planner sv))"
    and "\<forall>s \<in> set order. pl_specs (sv_planner sv) (spec_Name s) = Some s"
    and "start_order S D opts ctx order sv = Ret sv'"
  shows "sv_ok S D sv' \<and> sv_planner sv' = sv_planner sv \<and> sv_ctx sv' = sv_ctx sv \<and>
    dom (sv_processes sv') = dom (sv_processes sv) \<union> spec_Name ` set order \<and>
    (\<forall>n. n \<notin> spec_Name ` set order \<longrightarrow> sv_processes sv' n = sv_processes sv n) \<and>
    map pr_spec (sv_heap sv') = map pr_spec (sv_heap sv) @ order"
  using assms
proof (induction order arbitrary: sv)
  case Nil
  then show ?case by simp
next
  case (Cons s order)
  let ?sv = "new_proc S s sv"
  have "sv_ok S D ?sv"
  proof (rule sv_ok_new_proc [OF Cons.prems(1)])
    show s: "pl_specs (sv_planner sv) (spec_Name s) = Some s"
      using Cons.prems(3) by simp
    fix n i
    assume "sv_processes sv n = Some i" "n \<noteq> spec_Name s"
    then show "proc_keys sv i \<inter> spec_keys s = {}"
      using sv_ok_registered(2) [OF Cons.prems(1)] s Cons.prems(2)
      unfolding specs_disjoint_def proc_keys_spec by metis
  qed
  obtain e sv1 where run: "startAndNotify S D ctx (opts (spec_Name s)) (length (sv_heap sv)) ?sv = Ret (e, sv1)"
    and rest: "start_order S D opts ctx order sv1 = Ret sv'"
    using Cons.prems(4) by (auto simp: bind_go_Ret_iff)
  note fr = startAndNotify_frame [OF run]
  have ok1: "sv_ok S D sv1"
    by (rule sv_ok_startAndNotify [OF \<open>sv_ok S D ?sv\<close> _ run]) simp
  have "specs_disjoint (pl_specs (sv_planner sv1))"
    and "\<forall>s \<in> set order. pl_specs (sv_planner sv1) (spec_Name s) = Some s"
    using Cons.prems(2,3) fr(1) by simp_all
  note Cons.IH [OF ok1 this rest]
  moreover have "dom (sv_processes sv1) = insert (spec_Name s) (dom (sv_processes sv))"
    unfolding fr(2) by simp
  moreover have "sv_processes sv1 n = sv_processes sv n" if "n \<noteq> spec_Name s" for n
    unfolding fr(2) using that by simp
  ultimately show ?case
    using fr(1,3,4) by auto
qed

lemma Plan_specs: "Plan G es1 es2 p = Ret (r, p') \<Longrightarrow> pl_specs p' = pl_specs p"
  by (auto simp: Plan_def plan_tail_def Let_def split: prod.splits option.splits sum.splits)

lemma Run_ok:
  assumes lib: "graph_library G edges" and ok: "sv_ok S D sv"
    and es: "enumerates es1 (pl_specs (sv_planner sv))" "enumerates es2 (pl_specs (sv_planner sv))"
    and run: "Run S D G es1 es2 opts ctx sv = Ret (r, sv')"
  shows "sv_ok S D sv' \<and> pl_specs (sv_planner sv') = pl_specs (sv_planner sv) \<and> sv_ctx sv' = ctx \<and>
    (r = None \<longrightarrow> dom (sv_processes sv') = dom (pl_specs (sv_planner sv)) \<and>
      specs_disjoint (pl_specs (sv_planner sv)) \<and>
      (\<exists>order. is_plan (pl_specs (sv_planner sv)) order \<and>
         map pr_spec (sv_heap sv') = map pr_spec (sv_heap sv) @ order)) \<and>
    (r \<noteq> None \<longrightarrow> sv_heap sv' = sv_heap sv \<and> sv_processes sv' = sv_processes sv)"
proof -
  have nm: "named (pl_specs (sv_planner sv))"
    using ok by (simp add: sv_ok_def)
  show ?thesis
  proof (rule graph_library.Plan_returns [OF lib es nm])
    fix e p'
    assume "Plan G es1 es2 (sv_planner sv) = Ret (Inl e, p')" and sp: "pl_specs p' = pl_specs (sv_planner sv)"
    with run have "sv' = sv\<lparr>sv_ctx := ctx, sv_planner := p'\<rparr>" "r = Some e"
      by (simp_all add: Run_def Let_def)
    then show ?thesis
      using sv_ok_frame [OF ok, of sv'] sp by simp
  next
    fix order p'
    assume pl: "Plan G es1 es2 (sv_planner sv) = Ret (Inr order, p')" and sp: "pl_specs p' = pl_specs (sv_planner sv)"
      and plan: "is_plan (pl_specs (sv_planner sv)) order"
    let ?sv = "sv\<lparr>sv_ctx := ctx, sv_planner := p'\<rparr>"
    have ok1: "sv_ok S D ?sv"
      using sv_ok_frame [OF ok, of ?sv] sp by simp
    show ?thesis
    proof (cases "claim_all run_conflict (map (\<lambda>s. (spec_Name s, LocalPortKeys (spec_ToProto s))) order) Map.empty")
      case (Some e)
      then have "sv' = ?sv" "r = Some e"
        using run pl by (simp_all add: Run_def Let_def)
      then show ?thesis
        using ok1 sp by simp
    next
      case None
      then have st: "start_order S D opts ctx order ?sv = Ret sv'" and r: "r = None"
        using run pl by (auto simp: Run_def Let_def bind_go_Ret_iff)
      have disj: "specs_disjoint (pl_specs (sv_planner sv))"
        using claim_all_disjoint [OF None] plan nm by (simp add: is_plan_def)
      have ran: "\<forall>s \<in> set order. pl_specs (sv_planner sv) (spec_Name s) = Some s"
        using plan nm by (auto simp: is_plan_def named_def ran_def)
      have names: "spec_Name ` set order = dom (pl_specs (sv_planner sv))"
        using plan nm by (force simp: is_plan_def named_def ran_def)
      have sub: "dom (sv_processes sv) \<subseteq> dom (pl_specs (sv_planner sv))"
        using sv_ok_registered(2) [OF ok] by blast
      from start_order_ok [OF ok1 _ _ st] disj ran sp names sub plan r show ?thesis
        by auto
    qed
  qed
qed

subsection \<open>Adding\<close>

lemma checkPortConflicts_None:
  "checkPortConflicts es spec sv = None \<longleftrightarrow> (\<forall>(n, i) \<in> set es. proc_keys sv i \<inter> spec_keys spec = {})"
  by (fastforce simp: checkPortConflicts_def Let_def proc_keys_def spec_keys_def split: if_splits)

definition same_registry :: "('w, 'g, 'i) Supervisor \<Rightarrow> ('w, 'g, 'i) Supervisor \<Rightarrow> bool" where
  "same_registry sv sv' \<longleftrightarrow> sv_processes sv' = sv_processes sv \<and> sv_heap sv' = sv_heap sv \<and>
     sv_monitors sv' = sv_monitors sv \<and> sv_ctx sv' = sv_ctx sv \<and> sv_keyDir sv' = sv_keyDir sv \<and>
     sv_tunnelsDir sv' = sv_tunnelsDir sv"

lemma persist_frame:
  assumes "persist S D Y spec sv = Ret (r, sv')"
  shows "same_registry sv sv'" and "sv_planner sv' = sv_planner sv"
proof -
  have "\<exists>w. sv' = sv\<lparr>sv_world := w\<rparr>"
  proof -
    obtain m w1 where mk: "os_mkdirall S (sv_world sv) (sv_tunnelsDir sv) PermDirPublic = (m, w1)"
      by (rule prod.exhaust)
    show ?thesis
    proof (cases m)
      case (Some e)
      with assms mk show ?thesis by (auto simp: persist_def)
    next
      case None
      show ?thesis
      proof (cases "MarshalTunnel D Y (spec_ToProto spec)")
        case Panic
        with assms mk None show ?thesis by (simp add: persist_def)
      next
        case (Ret b)
        with assms mk None show ?thesis
        proof (cases b)
          case (Inr data)
          obtain x w2 where "os_writefile S w1 (Join2 (sv_tunnelsDir sv) (spec_Name spec @ ''.yaml'')) data
              PermFilePublic = (x, w2)"
            by (rule prod.exhaust)
          with assms mk None Ret Inr show ?thesis by (cases x) (auto simp: persist_def)
        qed (auto simp: persist_def)
      qed
    qed
  qed
  then show "same_registry sv sv'" "sv_planner sv' = sv_planner sv"
    by (auto simp: same_registry_def)
qed

lemma register_cases:
  assumes "register S D G es1 es2 opts spec sv = Ret (r, sv')"
  obtains (rejected) e pl where "Plan G es1 es2 (AddSpec spec (sv_planner sv)) = Ret (Inl e, pl)"
      "r = Some (''invalid dependencies: '' @ e)"
      "sv' = sv\<lparr>sv_planner := RemoveSpec (spec_Name spec) pl\<rparr>"
  | (idle) ss pl where "Plan G es1 es2 (AddSpec spec (sv_planner sv)) = Ret (Inr ss, pl)" "sv_ctx sv = None"
      "r = None" "sv' = new_proc S spec (sv\<lparr>sv_planner := pl\<rparr>)"
  | (running) ss pl d where "Plan G es1 es2 (AddSpec spec (sv_planner sv)) = Ret (Inr ss, pl)"
      "sv_ctx sv = Some d"
      "startAndNotify S D (Some d) opts (length (sv_heap sv)) (new_proc S spec (sv\<lparr>sv_planner := pl\<rparr>)) = Ret (r, sv')"
proof -
  obtain res pl where plan: "Plan G es1 es2 (AddSpec spec (sv_planner sv)) = Ret (res, pl)"
    using assms by (auto simp: register_def bind_go_Ret_iff)
  show thesis
  proof (cases res)
    case (Inl e)
    show thesis
      by (rule rejected [OF plan [unfolded Inl]]) (use assms plan Inl in \<open>auto simp: register_def\<close>)
  next
    case (Inr ss)
    show thesis
    proof (cases "sv_ctx sv")
      case None
      show thesis
        by (rule idle [OF plan [unfolded Inr] None]) (use assms plan Inr None in \<open>auto simp: register_def Let_def\<close>)
    next
      case (Some d)
      show thesis
        by (rule running [OF plan [unfolded Inr] Some]) (use assms plan Inr Some in \<open>auto simp: register_def Let_def\<close>)
    qed
  qed
qed

lemma AddTunnel_cases:
  assumes "AddTunnel S D Y G es es1 es2 opts spec persistent sv = Ret (r, sv')"
  obtains (exists) "sv_processes sv (spec_Name spec) \<noteq> None" "r \<noteq> None" "sv' = sv"
  | (conflict) e where "sv_processes sv (spec_Name spec) = None" "checkPortConflicts es spec sv = Some e" "r = Some e" "sv' = sv"
  | (unsaved) "sv_processes sv (spec_Name spec) = None" "checkPortConflicts es spec sv = None"
      "persistent" "persist S D Y spec sv = Ret (r, sv')" "r \<noteq> None"
  | (saved) sv1 where "sv_processes sv (spec_Name spec) = None" "checkPortConflicts es spec sv = None"
      "same_registry sv sv1" "sv_planner sv1 = sv_planner sv"
      "sv1 = sv \<or> (persistent \<and> persist S D Y spec sv = Ret (None, sv1))"
      "register S D G es1 es2 opts spec sv1 = Ret (r, sv')"
proof (cases "sv_processes sv (spec_Name spec)")
  case (Some i)
  show thesis
    by (rule exists) (use assms Some in \<open>auto simp: AddTunnel_def\<close>)
next
  case nm: None
  show thesis
  proof (cases "checkPortConflicts es spec sv")
    case (Some e)
    show thesis
      by (rule conflict [OF nm Some]) (use assms nm Some in \<open>auto simp: AddTunnel_def\<close>)
  next
    case free: None
    show thesis
    proof (cases "persistent \<and> sv_tunnelsDir sv \<noteq> []")
      case False
      have "register S D G es1 es2 opts spec sv = Ret (r, sv')"
        using assms nm free False by (simp add: AddTunnel_def)
      show thesis
        by (rule saved [OF nm free _ _ _ \<open>register S D G es1 es2 opts spec sv = Ret (r, sv')\<close>])
          (simp_all add: same_registry_def)
    next
      case True
      then obtain e sv1 where p: "persist S D Y spec sv = Ret (e, sv1)"
        and rest: "(case e of Some e \<Rightarrow> Ret (Some e, sv1) | None \<Rightarrow> register S D G es1 es2 opts spec sv1) = Ret (r, sv')"
        using assms nm free by (auto simp: AddTunnel_def bind_go_Ret_iff)
      show thesis
      proof (cases e)
        case None
        show thesis
          by (rule saved [OF nm free persist_frame [OF p]]) (use True rest p None in auto)
      next
        case (Some m)
        show thesis
          by (rule unsaved [OF nm free]) (use True rest p Some in auto)
      qed
    qed
  qed
qed

lemma sv_ok_planner:
  assumes "sv_ok S D sv" and "named (pl_specs pl)"
    and "\<And>n i. sv_processes sv n = Some i \<Longrightarrow> pl_specs pl n = pl_specs (sv_planner sv) n"
  shows "sv_ok S D (sv\<lparr>sv_planner := pl\<rparr>)"
  using assms by (simp add: sv_ok_def sv_registry_def sv_disjoint_def proc_keys_def proc_def)

lemma sv_ok_same_registry:
  assumes "sv_ok S D sv" and "same_registry sv sv'" and "pl_specs (sv_planner sv') = pl_specs (sv_planner sv)"
  shows "sv_ok S D sv'"
  by (rule sv_ok_frame [OF assms(1,3)]) (use assms(2) in \<open>simp_all add: same_registry_def\<close>)

lemma sv_ok_register:
  assumes ok: "sv_ok S D sv" and free: "sv_processes sv (spec_Name spec) = None"
    and apart: "\<And>n i. sv_processes sv n = Some i \<Longrightarrow> proc_keys sv i \<inter> spec_keys spec = {}"
    and run: "register S D G es1 es2 opts spec sv = Ret (r, sv')"
  shows "sv_ok S D sv'"
proof -
  have nm: "named (pl_specs (sv_planner sv))"
    using ok by (simp add: sv_ok_def)
  have added: "sv_ok S D (new_proc S spec (sv\<lparr>sv_planner := pl\<rparr>))"
    if "pl_specs pl = (pl_specs (sv_planner sv))(spec_Name spec \<mapsto> spec)" for pl :: "('b, 'c) Planner"
  proof (rule sv_ok_new_proc)
    show "sv_ok S D (sv\<lparr>sv_planner := pl\<rparr>)"
      by (rule sv_ok_planner [OF ok]) (use that nm free in auto)
    show "pl_specs (sv_planner (sv\<lparr>sv_planner := pl\<rparr>)) (spec_Name spec) = Some spec"
      using that by simp
    fix n i
    assume "sv_processes (sv\<lparr>sv_planner := pl\<rparr>) n = Some i"
    then show "proc_keys (sv\<lparr>sv_planner := pl\<rparr>) i \<inter> spec_keys spec = {}"
      using apart by (simp add: proc_keys_def proc_def)
  qed
  from run show ?thesis
  proof (cases rule: register_cases)
    case (rejected e pl)
    have "pl_specs (RemoveSpec (spec_Name spec) pl) =
        ((pl_specs (sv_planner sv))(spec_Name spec \<mapsto> spec))(spec_Name spec := None)"
      using Plan_specs [OF rejected(1)] by simp
    then show ?thesis
      unfolding rejected(3) using ok nm free by (intro sv_ok_planner) auto
  next
    case (idle ss pl)
    then show ?thesis
      using added Plan_specs [OF idle(1)] by simp
  next
    case (running ss pl d)
    show ?thesis
      by (rule sv_ok_startAndNotify [OF added _ running(3)]) (use Plan_specs [OF running(1)] in simp_all)
  qed
qed

lemma sv_ok_AddTunnel:
  assumes ok: "sv_ok S D sv" and es: "enumerates es (sv_processes sv)"
    and run: "AddTunnel S D Y G es es1 es2 opts spec persistent sv = Ret (r, sv')"
  shows "sv_ok S D sv'"
  using run
proof (cases rule: AddTunnel_cases)
  case unsaved
  show ?thesis
    using sv_ok_same_registry [OF ok persist_frame(1) [OF unsaved(4)]] persist_frame(2) [OF unsaved(4)] by simp
next
  case (saved sv1)
  have ok1: "sv_ok S D sv1"
    using sv_ok_same_registry [OF ok saved(3)] saved(4) by simp
  have same: "sv_processes sv1 = sv_processes sv" "proc_keys sv1 = proc_keys sv"
    using saved(3) by (simp_all add: same_registry_def proc_keys_def proc_def fun_eq_iff)
  show ?thesis
  proof (rule sv_ok_register [OF ok1 _ _ saved(6)])
    show "sv_processes sv1 (spec_Name spec) = None"
      using saved(1) same by simp
    fix n i
    assume "sv_processes sv1 n = Some i"
    then have "(n, i) \<in> set es"
      using same enumerates_mem [OF es] by simp
    then show "proc_keys sv1 i \<inter> spec_keys spec = {}"
      using saved(2) same unfolding checkPortConflicts_None by auto
  qed
qed (use ok in simp_all)

subsection \<open>Stopping, removing, enabling\<close>

lemma sv_ok_stop:
  assumes "sv_ok S D sv" and "i < length (sv_heap sv)"
  shows "sv_ok S D (set_proc i (snd (Stop D env (proc sv i))) sv)"
  by (rule sv_ok_set_proc [OF assms(1) proc_reachable.stop [OF sv_ok_proc [OF assms] surjective_pairing] Stop_spec])

lemma sv_ok_RemoveTunnel:
  assumes ok: "sv_ok S D sv"
  shows "sv_ok S D (snd (RemoveTunnel D env nm sv))"
proof (cases "sv_processes sv nm")
  case None
  with ok show ?thesis by (simp add: RemoveTunnel_def)
next
  case (Some i)
  let ?sv = "set_proc i (snd (Stop D env (proc sv i))) sv"
  have "sv_ok S D ?sv"
    by (rule sv_ok_stop [OF ok sv_ok_registered(1) [OF ok Some]])
  then show ?thesis
    using Some by (auto simp: RemoveTunnel_def sv_ok_def sv_registry_def sv_disjoint_def proc_keys_def proc_def)
qed

lemma set_enabled_frame:
  assumes "set_enabled S Y nm b sv = (e, sv')"
  shows "same_registry sv sv'" and "sv_planner sv' = sv_planner sv"
  using assms by (auto simp: set_enabled_def same_registry_def split: prod.splits)

lemma sv_ok_EnableTunnel:
  assumes ok: "sv_ok S D sv" and run: "EnableTunnel S D Y opts nm sv = Ret (r, sv')"
  shows "sv_ok S D sv'"
proof (cases "sv_processes sv nm")
  case None
  with ok run show ?thesis by (simp add: EnableTunnel_def)
next
  case (Some i)
  obtain e sv1 where en: "set_enabled S Y nm True sv = (e, sv1)" by (rule prod.exhaust)
  have ok1: "sv_ok S D sv1"
    using sv_ok_same_registry [OF ok set_enabled_frame(1) [OF en]] set_enabled_frame(2) [OF en] by simp
  have len: "i < length (sv_heap sv1)"
    using set_enabled_frame(1) [OF en] sv_ok_registered(1) [OF ok Some] by (simp add: same_registry_def)
  show ?thesis
    using run Some en ok1 sv_ok_startAndNotify [OF ok1 len]
    by (cases e) (auto simp: EnableTunnel_def)
qed

lemma sv_ok_DisableTunnel:
  assumes ok: "sv_ok S D sv"
  shows "sv_ok S D (snd (DisableTunnel S D Y env nm sv))"
proof (cases "sv_processes sv nm")
  case None
  with ok show ?thesis by (simp add: DisableTunnel_def)
next
  case (Some i)
  obtain e sv1 where en: "set_enabled S Y nm False sv = (e, sv1)" by (rule prod.exhaust)
  have ok1: "sv_ok S D sv1"
    using sv_ok_same_registry [OF ok set_enabled_frame(1) [OF en]] set_enabled_frame(2) [OF en] by simp
  have len: "i < length (sv_heap sv1)"
    using set_enabled_frame(1) [OF en] sv_ok_registered(1) [OF ok Some] by (simp add: same_registry_def)
  show ?thesis
    using Some en ok1 sv_ok_stop [OF ok1 len, of env]
    by (cases e) (auto simp: DisableTunnel_def split: prod.splits)
qed

lemma sv_ok_StartTunnel:
  assumes ok: "sv_ok S D sv" and run: "StartTunnel S D opts nm sv = Ret (r, sv')"
  shows "sv_ok S D sv'"
proof (cases "sv_processes sv nm")
  case None
  with ok run show ?thesis by (simp add: StartTunnel_def)
next
  case (Some i)
  with ok run show ?thesis
    using sv_ok_startAndNotify [OF ok sv_ok_registered(1) [OF ok Some]]
    by (auto simp: StartTunnel_def split: if_splits)
qed

lemma sv_ok_StopTunnel:
  assumes ok: "sv_ok S D sv"
  shows "sv_ok S D (snd (StopTunnel D env nm sv))"
  using ok sv_ok_stop [OF ok sv_ok_registered(1) [OF ok], of nm]
  by (auto simp: StopTunnel_def split: option.splits prod.splits) (metis snd_conv)

lemma sv_ok_stop_all:
  assumes "sv_ok S D sv" and "\<forall>(n, i) \<in> set es. i < length (sv_heap sv)"
  shows "sv_ok S D (stop_all D env es sv)"
  using assms
proof (induction es arbitrary: sv)
  case (Cons e es)
  obtain n i where e: "e = (n, i)" by (cases e)
  show ?case
    unfolding e stop_all.simps
    by (rule Cons.IH) (use Cons.prems e sv_ok_stop [of S D sv i "env n"] in auto)
qed simp

subsection \<open>Monitors, failures and children\<close>

lemma sv_ok_monitor_event:
  assumes ok: "sv_ok S D sv" and k: "k < length (sv_monitors sv)" and run: "monitor_event D dial e k sv = Some sv'"
  shows "sv_ok S D sv'"
proof -
  let ?i = "mo_proc (sv_monitors sv ! k)"
  have i: "?i < length (sv_heap sv)"
    using ok k by (auto simp: sv_ok_def monitor_ok_def)
  note wf = sv_ok_proc [OF ok i]
  show ?thesis
  proof (cases e)
    case MonDone
    with run show ?thesis
      using sv_ok_set_monitor [OF ok k, of Finished] by (simp split: if_splits)
  next
    case MonExit
    with run obtain m p' where p': "receive (proc sv ?i) = Some (m, p')"
      and sv': "sv' = set_monitor k Handling (set_proc ?i p' sv)"
      by (auto simp: Let_def split: option.splits)
    have "sv_ok S D (set_proc ?i p' sv)"
      by (rule sv_ok_set_proc [OF ok proc_reachable.monitor [OF wf p'] receive_spec [OF p']])
    then show ?thesis
      unfolding sv' by (rule sv_ok_set_monitor) (use k in simp_all)
  next
    case (MonTick t)
    let ?up = "resetRestartAttempts (setError None (setStatus StatusRunning (proc sv ?i)))"
    let ?down = "\<lambda>x. setStatus StatusFailed (setError (Some (''health check timeout: '' @ x)) (proc sv ?i))"
    have up: "sv_ok S D (set_proc ?i ?up sv)"
      by (rule sv_ok_set_proc [OF ok]) (use wf in \<open>simp_all add: proc_reachable.set_status proc_reachable.set_error proc_reachable.reset\<close>)
    have down: "sv_ok S D (set_monitor k Handling (set_proc ?i (?down x) sv))" for x
    proof (rule sv_ok_set_monitor)
      show "sv_ok S D (set_proc ?i (?down x) sv)"
        by (rule sv_ok_set_proc [OF ok]) (use wf in \<open>simp_all add: proc_reachable.set_status proc_reachable.set_error proc_reachable.reset\<close>)
    qed (use k in simp_all)
    show ?thesis
    proof (cases "Check dial (NewChecker D (mo_health (sv_monitors sv ! k)))")
      case None
      with run MonTick up ok show ?thesis
        by (simp add: Let_def split: if_splits)
    next
      case (Some x)
      with run MonTick down [of x] ok show ?thesis
        by (simp add: Let_def split: if_splits)
    qed
  qed
qed

lemma sv_ok_stop_dependents:
  assumes "sv_ok S D sv"
  shows "sv_ok S D (stop_dependents D env ds sv) \<and>
    length (sv_heap (stop_dependents D env ds sv)) = length (sv_heap sv) \<and>
    sv_processes (stop_dependents D env ds sv) = sv_processes sv \<and>
    sv_monitors (stop_dependents D env ds sv) = sv_monitors sv"
  using assms
proof (induction ds arbitrary: sv)
  case Nil
  then show ?case by simp
next
  case (Cons d ds)
  let ?sv = "case sv_processes sv d of None \<Rightarrow> sv
    | Some i \<Rightarrow> if pr_status (proc sv i) \<noteq> StatusStopped
        then set_proc i (snd (Stop D (env d) (proc sv i))) sv else sv"
  have "sv_ok S D ?sv"
    using Cons.prems sv_ok_stop [OF Cons.prems sv_ok_registered(1) [OF Cons.prems]]
    by (auto split: option.splits)
  moreover have "length (sv_heap ?sv) = length (sv_heap sv)" "sv_processes ?sv = sv_processes sv"
    "sv_monitors ?sv = sv_monitors sv"
    by (auto split: option.splits)
  ultimately show ?case
    using Cons.IH [of ?sv] by simp
qed

lemma sv_ok_apply_policy:
  assumes ok: "sv_ok S D sv" and i: "i < length (sv_heap sv)"
  shows "sv_ok S D (snd (apply_policy D scale i sv)) \<and>
    length (sv_heap (snd (apply_policy D scale i sv))) = length (sv_heap sv) \<and>
    sv_monitors (snd (apply_policy D scale i sv)) = sv_monitors sv"
proof -
  note reach = sv_ok_proc [OF ok i]
  have fail: "sv_ok S D (set_proc i (setError (Some m) (setStatus StatusFailed (proc sv i))) sv)" for m
    by (rule sv_ok_set_proc [OF ok]) (use reach in \<open>simp_all add: proc_reachable.set_status proc_reachable.set_error\<close>)
  have count: "sv_ok S D (set_proc i (incrementRestartAttempts (proc sv i)) sv)"
    if "spec_RestartPolicy (pr_spec (proc sv i)) = Some policy"
      "\<not> attempts_exhausted policy (pr_restartAttempts (proc sv i))" for policy
    by (rule sv_ok_set_proc [OF ok proc_reachable.count [OF reach that]]) simp
  show ?thesis
    using ok fail count by (auto simp: apply_policy_def Let_def split: option.splits)
qed

lemma sv_ok_handleFailure:
  assumes ok: "sv_ok S D sv" and run: "handleFailure D G scale env nm sv = Ret (r, sv')"
  shows "sv_ok S D sv'" and "sv_monitors sv' = sv_monitors sv" and "length (sv_heap sv') = length (sv_heap sv)"
    and "r = Some (i, d) \<Longrightarrow> i < length (sv_heap sv)"
proof -
  have "sv_ok S D sv' \<and> sv_monitors sv' = sv_monitors sv \<and> length (sv_heap sv') = length (sv_heap sv) \<and>
    (\<forall>i d. r = Some (i, d) \<longrightarrow> i < length (sv_heap sv))"
  proof (cases "sv_processes sv nm")
    case None
    with ok run show ?thesis by (simp add: handleFailure_def)
  next
    case (Some i)
    note i = sv_ok_registered(1) [OF ok Some]
    show ?thesis
    proof (cases "pr_expectedState (proc sv i) = DesiredStopped \<or> pr_expectedState (proc sv i) = DesiredDisabled")
      case True
      with ok run Some show ?thesis by (simp add: handleFailure_def)
    next
      case False
      then obtain deps where deps: "DependentsOf G (sv_planner sv) nm = Ret deps"
        using run Some by (auto simp: handleFailure_def bind_go_Ret_iff)
      define sv1 where "sv1 = (case deps of Inl e \<Rightarrow> sv | Inr ds \<Rightarrow> stop_dependents D env ds sv)"
      have sv1: "sv_ok S D sv1" "length (sv_heap sv1) = length (sv_heap sv)" "sv_monitors sv1 = sv_monitors sv"
        using sv_ok_stop_dependents [OF ok] ok by (auto simp: sv1_def split: sum.splits)
      obtain dl sv2 where ap: "apply_policy D scale i sv1 = (dl, sv2)" by (rule prod.exhaust)
      have "sv' = sv2" "r = map_option (\<lambda>d. (i, d)) dl"
        using run Some False deps ap by (auto simp: handleFailure_def sv1_def [symmetric] split: option.splits)
      then show ?thesis
        using sv_ok_apply_policy [OF sv1(1), of i scale] sv1(2,3) i ap by auto
    qed
  qed
  then show "sv_ok S D sv'" "sv_monitors sv' = sv_monitors sv" "length (sv_heap sv') = length (sv_heap sv)"
    "r = Some (i, d) \<Longrightarrow> i < length (sv_heap sv)"
    by blast+
qed

section \<open>The transition system\<close>

text \<open>
  One step: a whole call of an operation, a branch of a monitor's loop, the two halves of
  \<open>handleFailure\<close> around its sleep, an event of a child, or a change of the operating system
  made by something else. The orders in which maps are
  visited, what happens while \<open>Stop\<close> waits and the results of dialling are arbitrary. An
  operation that panics ends the program and has no step.
\<close>

inductive sv_step :: "'w os \<Rightarrow> duration_ops \<Rightarrow> yaml_ops \<Rightarrow> ('g, 'i) graph_ops \<Rightarrow> scale \<Rightarrow>
    ('w, 'g, 'i) Supervisor \<Rightarrow> ('w, 'g, 'i) Supervisor \<Rightarrow> bool" for S D Y G scale where
  run: "enumerates es1 (pl_specs (sv_planner sv)) \<Longrightarrow> enumerates es2 (pl_specs (sv_planner sv)) \<Longrightarrow>
    Run S D G es1 es2 opts (Some d) sv = Ret (r, sv') \<Longrightarrow> sv_step S D Y G scale sv sv'"
| add: "enumerates es (sv_processes sv) \<Longrightarrow>
    AddTunnel S D Y G es es1 es2 opts spec persistent sv = Ret (r, sv') \<Longrightarrow> sv_step S D Y G scale sv sv'"
| remove: "RemoveTunnel D env nm sv = (r, sv') \<Longrightarrow> sv_step S D Y G scale sv sv'"
| enable: "EnableTunnel S D Y opts nm sv = Ret (r, sv') \<Longrightarrow> sv_step S D Y G scale sv sv'"
| disable: "DisableTunnel S D Y env nm sv = (r, sv') \<Longrightarrow> sv_step S D Y G scale sv sv'"
| start: "StartTunnel S D opts nm sv = Ret (r, sv') \<Longrightarrow> sv_step S D Y G scale sv sv'"
| stop: "StopTunnel D env nm sv = (r, sv') \<Longrightarrow> sv_step S D Y G scale sv sv'"
| stop_all: "enumerates es (sv_processes sv) \<Longrightarrow> StopAll D envs es sv = (r, sv') \<Longrightarrow>
    sv_step S D Y G scale sv sv'"
| save_key: "SaveKey S nm content sv = (r, sv') \<Longrightarrow> sv_step S D Y G scale sv sv'"
| cancel: "sv_ctx sv = Some d \<Longrightarrow> sv_step S D Y G scale sv (sv\<lparr>sv_ctx := Some True\<rparr>)"
| monitor: "k < length (sv_monitors sv) \<Longrightarrow> mo_state (sv_monitors sv ! k) = Polling \<Longrightarrow>
    monitor_event D dial e k sv = Some sv' \<Longrightarrow> sv_step S D Y G scale sv sv'"
| failure: "k < length (sv_monitors sv) \<Longrightarrow> mo_state (sv_monitors sv ! k) = Handling \<Longrightarrow>
    monitor_handle D G scale envs k sv = Ret sv' \<Longrightarrow> sv_step S D Y G scale sv sv'"
| restart: "k < length (sv_monitors sv) \<Longrightarrow> mo_state (sv_monitors sv ! k) = Sleeping i delay \<Longrightarrow>
    monitor_restart S D opts k i sv = Ret sv' \<Longrightarrow> sv_step S D Y G scale sv sv'"
| child: "i < length (sv_heap sv) \<Longrightarrow> child_step e (proc sv i) = Some p' \<Longrightarrow>
    sv_step S D Y G scale sv (set_proc i p' sv)"
| world: "sv_step S D Y G scale sv (sv\<lparr>sv_world := w\<rparr>)"

inductive sv_reachable :: "'w os \<Rightarrow> duration_ops \<Rightarrow> yaml_ops \<Rightarrow> ('g, 'i) graph_ops \<Rightarrow> scale \<Rightarrow>
    ('w, 'g, 'i) Supervisor \<Rightarrow> bool" for S D Y G scale where
  init: "named specs \<Longrightarrow>
    sv_reachable S D Y G scale (NewSupervisor w (NewPlanner G specs) cfg keyDir tunnelsDir)"
| step: "sv_reachable S D Y G scale sv \<Longrightarrow> sv_step S D Y G scale sv sv' \<Longrightarrow> sv_reachable S D Y G scale sv'"

lemma sv_ok_init: "named specs \<Longrightarrow> sv_ok S D (NewSupervisor w (NewPlanner G specs) cfg keyDir tunnelsDir)"
  by (simp add: sv_ok_def NewSupervisor_def sv_registry_def sv_disjoint_def)

lemma sv_ok_SaveKey:
  assumes "sv_ok S D sv"
  shows "sv_ok S D (snd (SaveKey S nm content sv))"
proof -
  have "\<exists>w. snd (SaveKey S nm content sv) = sv\<lparr>sv_world := w\<rparr>"
    by (auto simp: SaveKey_def split: prod.splits option.splits)
  then obtain w where "snd (SaveKey S nm content sv) = sv\<lparr>sv_world := w\<rparr>" by blast
  then show ?thesis
    using sv_ok_frame [OF assms, of "sv\<lparr>sv_world := w\<rparr>"] by simp
qed

lemma sv_ok_monitor_handle:
  assumes ok: "sv_ok S D sv" and k: "k < length (sv_monitors sv)"
    and run: "monitor_handle D G scale env k sv = Ret sv'"
  shows "sv_ok S D sv'"
proof -
  obtain r sv1 where h: "handleFailure D G scale env (mo_name (sv_monitors sv ! k)) sv = Ret (r, sv1)"
    and sv': "sv' = set_monitor k (case r of None \<Rightarrow> Finished | Some (i, d) \<Rightarrow> Sleeping i d) sv1"
    using run by (auto simp: monitor_handle_def bind_go_Ret_iff split: option.splits)
  show ?thesis
    unfolding sv' using sv_ok_handleFailure [OF ok h] k
    by (intro sv_ok_set_monitor) (auto split: option.splits)
qed

lemma sv_ok_monitor_restart:
  assumes ok: "sv_ok S D sv" and k: "k < length (sv_monitors sv)" "mo_state (sv_monitors sv ! k) = Sleeping i d"
    and run: "monitor_restart S D opts k i sv = Ret sv'"
  shows "sv_ok S D sv'"
proof -
  have "monitor_ok (length (sv_heap sv)) (sv_monitors sv ! k)"
    using ok k(1) by (simp add: sv_ok_def)
  then have i: "i < length (sv_heap sv)"
    using k(2) by (simp add: monitor_ok_def)
  obtain e sv1 where st: "startAndNotify S D (sv_ctx sv) opts i sv = Ret (e, sv1)"
    and sv': "sv' = set_monitor k Finished sv1"
    using run by (auto simp: monitor_restart_def bind_go_Ret_iff)
  have "k < length (sv_monitors sv1)"
    using st k(1) by (auto elim: startAndNotify_cases)
  then show ?thesis
    unfolding sv' by (intro sv_ok_set_monitor [OF sv_ok_startAndNotify [OF ok i st]]) simp_all
qed

lemma sv_ok_step:
  assumes lib: "graph_library G edges" and step: "sv_step S D Y G scale sv sv'" and ok: "sv_ok S D sv"
  shows "sv_ok S D sv'"
  using step ok
proof (induction rule: sv_step.induct)
  case (run es1 sv es2 opts d r sv')
  show ?case using Run_ok [OF lib run(4,1,2,3)] by blast
next
  case (add es sv es1 es2 opts spec persistent r sv')
  show ?case by (rule sv_ok_AddTunnel [OF add(3,1,2)])
next
  case (remove env nm sv r sv')
  show ?case using sv_ok_RemoveTunnel [OF remove(2), of env nm] remove(1) by simp
next
  case (enable opts nm sv r sv')
  show ?case by (rule sv_ok_EnableTunnel [OF enable(2,1)])
next
  case (disable env nm sv r sv')
  show ?case using sv_ok_DisableTunnel [OF disable(2), of Y env nm] disable(1) by simp
next
  case (start opts nm sv r sv')
  show ?case by (rule sv_ok_StartTunnel [OF start(2,1)])
next
  case (stop env nm sv r sv')
  show ?case using sv_ok_StopTunnel [OF stop(2), of env nm] stop(1) by simp
next
  case (stop_all es sv envs r sv')
  have "\<forall>(n, i) \<in> set es. i < length (sv_heap sv)"
    using enumerates_mem [OF stop_all(1)] sv_ok_registered(1) [OF stop_all(3)] by blast
  with stop_all show ?case using sv_ok_stop_all by (auto simp: StopAll_def)
next
  case (save_key nm content sv r sv')
  show ?case using sv_ok_SaveKey [OF save_key(2), of nm content] save_key(1) by simp
next
  case (cancel sv d)
  show ?case by (rule sv_ok_frame [OF cancel(2)]) simp_all
next
  case (world sv w)
  show ?case by (rule sv_ok_frame [OF world]) simp_all
next
  case (monitor k sv dial e sv')
  show ?case by (rule sv_ok_monitor_event [OF monitor(4,1,3)])
next
  case (failure k sv envs sv')
  show ?case by (rule sv_ok_monitor_handle [OF failure(4,1,3)])
next
  case (restart k sv i delay opts sv')
  show ?case by (rule sv_ok_monitor_restart [OF restart(4,1,2,3)])
next
  case (child i sv e p')
  show ?case
    by (rule sv_ok_set_proc [OF child(3) proc_reachable.child [OF sv_ok_proc [OF child(3,1)] child(2)]
          child_step_spec [OF child(2)]])
qed

lemma sv_reachable_ok:
  assumes lib: "graph_library G edges" and "sv_reachable S D Y G scale sv"
  shows "sv_ok S D sv"
  using assms(2) by (induction rule: sv_reachable.induct) (auto intro: sv_ok_init sv_ok_step [OF lib])


definition demo_sv :: "(mem, adj, nat) Supervisor" where
  "demo_sv = NewSupervisor mem0 demo_planner \<lparr>cfg_Tunnels = Map.empty, cfg_filePath = []\<rparr> ''/keys'' ''/tunnels''"

definition demo_scale :: scale where
  "demo_scale d m n = d"

lemma demo_sv_reachable: "sv_reachable mem_os demo_durations demo_yaml adj_ops demo_scale demo_sv"
  unfolding demo_sv_def demo_planner_def
  by (rule sv_reachable.init) (use demo_named in \<open>simp add: demo_planner_def\<close>)

end
