(* ===== verification/Supervisor_Props.thy ===== *)
theory Supervisor_Props
  imports Supervisor_Inv
begin

text \<open>
  What the operations of the supervisor do, on every branch: starting the configured tunnels
  in dependency order, adding and removing, the restart policy and its backoff, waiting for
  health, and the interleavings of \<open>Stop\<close> with the monitors that the code does not handle.
\<close>

section \<open>Running\<close>

lemma startAndNotify_returns:
  assumes "wf_spec (pr_spec (proc sv i))"
  shows "\<exists>r sv'. startAndNotify S D (Some d) opts i sv = Ret (r, sv')"
proof -
  obtain r w' p' where "Start S (Some d) opts (sv_world sv) (proc sv i) = Ret (r, w', p')"
    using Start_returns [OF assms, of S d opts "sv_world sv"] by blast
  then show ?thesis
    by (cases r) (simp_all add: startAndNotify_def Let_def)
qed

lemma start_order_returns:
  assumes "\<forall>s \<in> set order. wf_spec s"
  shows "\<exists>sv'. start_order S D opts (Some d) order sv = Ret sv'"
  using assms
proof (induction order arbitrary: sv)
  case (Cons s order)
  obtain e sv1 where "startAndNotify S D (Some d) (opts (spec_Name s)) (length (sv_heap sv)) (new_proc S s sv) = Ret (e, sv1)"
    using startAndNotify_returns [of "new_proc S s sv" "length (sv_heap sv)" S D d] Cons.prems by fastforce
  then show ?case
    using Cons.IH [of sv1] Cons.prems by simp
qed simp

lemma Run_returns:
  assumes lib: "graph_library G edges" and ok: "sv_ok S D sv"
    and es: "enumerates es1 (pl_specs (sv_planner sv))" "enumerates es2 (pl_specs (sv_planner sv))"
    and wf: "\<forall>s \<in> ran (pl_specs (sv_planner sv)). wf_spec s"
  shows "\<exists>r sv'. Run S D G es1 es2 opts (Some d) sv = Ret (r, sv')"
proof -
  have "named (pl_specs (sv_planner sv))"
    using ok by (simp add: sv_ok_def)
  then show ?thesis
  proof (rule graph_library.Plan_returns [OF lib es])
    fix e p'
    assume "Plan G es1 es2 (sv_planner sv) = Ret (Inl e, p')"
    then show ?thesis by (simp add: Run_def Let_def)
  next
    fix order p'
    assume pl: "Plan G es1 es2 (sv_planner sv) = Ret (Inr order, p')" and "is_plan (pl_specs (sv_planner sv)) order"
    then have "\<forall>s \<in> set order. wf_spec s"
      using wf by (simp add: is_plan_def)
    then obtain sv' where "start_order S D opts (Some d) order (sv\<lparr>sv_ctx := Some d, sv_planner := p'\<rparr>) = Ret sv'"
      using start_order_returns by blast
    then show ?thesis
      using pl by (cases "claim_all run_conflict (map (\<lambda>s. (spec_Name s, LocalPortKeys (spec_ToProto s))) order)
          Map.empty") (simp_all add: Run_def Let_def)
  qed
qed


lemma demo_wf_specs: "\<forall>s \<in> ran (pl_specs demo_planner). wf_spec s"
  by (auto simp: demo_planner_defs ran_def wf_spec_def FromProto_def SSHSpec_ToProto_def demo_spec_def
      split: if_splits)

lemma demo_sv_planner [simp]: "sv_planner demo_sv = demo_planner" "sv_processes demo_sv = Map.empty"
  "sv_heap demo_sv = []"
  by (simp_all add: demo_sv_def NewSupervisor_def)


section \<open>Adding and removing\<close>

lemma MarshalTunnel_returns:
  "ts_Health p \<noteq> None \<Longrightarrow> ts_Restart p \<noteq> None \<Longrightarrow> \<exists>r. MarshalTunnel D Y p = Ret r"
  by (auto simp: MarshalTunnel_def tc_FromProto_def)

lemma persist_returns:
  assumes "ts_Health (spec_ToProto spec) \<noteq> None" and "ts_Restart (spec_ToProto spec) \<noteq> None"
  shows "\<exists>r sv'. persist S D Y spec sv = Ret (r, sv')"
proof -
  obtain m w1 where mk: "os_mkdirall S (sv_world sv) (sv_tunnelsDir sv) PermDirPublic = (m, w1)"
    by (rule prod.exhaust)
  obtain b where b: "MarshalTunnel D Y (spec_ToProto spec) = Ret b"
    using MarshalTunnel_returns [OF assms] by blast
  show ?thesis
  proof (cases m)
    case (Some e)
    with mk show ?thesis by (simp add: persist_def)
  next
    case m: None
    show ?thesis
    proof (cases b)
      case (Inl e)
      with mk m b show ?thesis by (simp add: persist_def)
    next
      case (Inr data)
      obtain x w2 where "os_writefile S w1 (Join2 (sv_tunnelsDir sv) (spec_Name spec @ ''.yaml'')) data
          PermFilePublic = (x, w2)"
        by (rule prod.exhaust)
      with mk m b Inr show ?thesis by (cases x) (simp_all add: persist_def)
    qed
  qed
qed

lemma register_returns:
  assumes lib: "graph_library G edges" and nm: "named (pl_specs (sv_planner sv))" and wf: "wf_spec spec"
    and es: "enumerates es1 (pl_specs (AddSpec spec (sv_planner sv)))"
      "enumerates es2 (pl_specs (AddSpec spec (sv_planner sv)))"
  shows "\<exists>r sv'. register S D G es1 es2 opts spec sv = Ret (r, sv')"
proof -
  have nm': "named (pl_specs (AddSpec spec (sv_planner sv)))"
    using nm by simp
  obtain res pl where pl: "Plan G es1 es2 (AddSpec spec (sv_planner sv)) = Ret (res, pl)"
    by (rule graph_library.Plan_returns [OF lib es nm']) blast+
  show ?thesis
  proof (cases res)
    case (Inl e)
    with pl show ?thesis by (simp add: register_def)
  next
    case (Inr ss)
    show ?thesis
    proof (cases "sv_ctx sv")
      case None
      with pl Inr show ?thesis by (simp add: register_def Let_def)
    next
      case (Some d)
      have "wf_spec (pr_spec (proc (new_proc S spec (sv\<lparr>sv_planner := pl\<rparr>)) (length (sv_heap sv))))"
        using wf new_proc_simps(6) [of S spec "sv\<lparr>sv_planner := pl\<rparr>"] by simp
      then show ?thesis
        using pl Inr Some startAndNotify_returns [of "new_proc S spec (sv\<lparr>sv_planner := pl\<rparr>)" "length (sv_heap sv)"]
        by (simp add: register_def Let_def)
    qed
  qed
qed

text \<open>What is left after \<open>register\<close>: the tunnel is either in the registry or nowhere.\<close>

definition registered_new :: "Spec \<Rightarrow> ('w, 'g, 'i) Supervisor \<Rightarrow> ('w, 'g, 'i) Supervisor \<Rightarrow> bool" where
  "registered_new spec sv sv' \<longleftrightarrow>
    sv_processes sv' = (sv_processes sv)(spec_Name spec \<mapsto> length (sv_heap sv)) \<and>
    map pr_spec (sv_heap sv') = map pr_spec (sv_heap sv) @ [spec] \<and>
    pl_specs (sv_planner sv') = (pl_specs (sv_planner sv))(spec_Name spec \<mapsto> spec) \<and>
    deps_present (pl_specs (sv_planner sv')) \<and> acyclic (dep_rel (pl_specs (sv_planner sv')))"

lemma register_outcome:
  assumes lib: "graph_library G edges" and nm: "named (pl_specs (sv_planner sv))"
    and es: "enumerates es1 (pl_specs (AddSpec spec (sv_planner sv)))"
      "enumerates es2 (pl_specs (AddSpec spec (sv_planner sv)))"
    and run: "register S D G es1 es2 opts spec sv = Ret (r, sv')"
  shows "registered_new spec sv sv' \<or>
    (r \<noteq> None \<and> sv_processes sv' = sv_processes sv \<and> sv_heap sv' = sv_heap sv)"
proof -
  have nm': "named (pl_specs (AddSpec spec (sv_planner sv)))"
    using nm by simp
  have good: "pl_specs pl = (pl_specs (sv_planner sv))(spec_Name spec \<mapsto> spec) \<and>
      deps_present ((pl_specs (sv_planner sv))(spec_Name spec \<mapsto> spec)) \<and>
      acyclic (dep_rel ((pl_specs (sv_planner sv))(spec_Name spec \<mapsto> spec)))"
    if pl: "Plan G es1 es2 (AddSpec spec (sv_planner sv)) = Ret (Inr ss, pl)" for ss pl
    by (rule graph_library.Plan_returns [OF lib es nm']) (use pl Plan_specs [OF pl] in auto)
  from run show ?thesis
  proof (cases rule: register_cases)
    case (rejected e pl)
    then show ?thesis by simp
  next
    case (idle ss pl)
    then show ?thesis
      using good [OF idle(1)] by (simp add: registered_new_def)
  next
    case (running ss pl d)
    then show ?thesis
      using good [OF running(1)] startAndNotify_frame [OF running(3)] unfolding registered_new_def by simp
  qed
qed

lemma AddTunnel_decides:
  assumes "graph_library G edges" and "sv_ok S D sv"
    and "enumerates es (sv_processes sv)"
    and "enumerates es1 (pl_specs (AddSpec spec (sv_planner sv)))"
    and "enumerates es2 (pl_specs (AddSpec spec (sv_planner sv)))"
    and "wf_spec spec"
    and "persistent \<Longrightarrow> ts_Health (spec_ToProto spec) \<noteq> None \<and> ts_Restart (spec_ToProto spec) \<noteq> None"
  shows "\<exists>r sv'. AddTunnel S D Y G es es1 es2 opts spec persistent sv = Ret (r, sv') \<and>
    (if sv_processes sv (spec_Name spec) \<noteq> None \<or>
        (\<exists>n i. sv_processes sv n = Some i \<and> proc_keys sv i \<inter> spec_keys spec \<noteq> {})
     then r \<noteq> None \<and> sv' = sv
     else registered_new spec sv sv' \<or>
       (r \<noteq> None \<and> sv_processes sv' = sv_processes sv \<and> sv_heap sv' = sv_heap sv))"
proof -
  have nm: "named (pl_specs (sv_planner sv))"
    using assms(2) by (simp add: sv_ok_def)
  have "\<exists>r sv'. AddTunnel S D Y G es es1 es2 opts spec persistent sv = Ret (r, sv')"
  proof (cases "sv_processes sv (spec_Name spec) = None \<and> checkPortConflicts es spec sv = None")
    case False
    then show ?thesis by (auto simp: AddTunnel_def split: option.splits)
  next
    case True
    have reg: "\<exists>r sv'. register S D G es1 es2 opts spec sv1 = Ret (r, sv')"
      if "sv_planner sv1 = sv_planner sv" for sv1
      using register_returns [OF assms(1), of sv1 spec es1 es2 S D opts] nm assms(4-6) that by simp
    show ?thesis
    proof (cases "persistent \<and> sv_tunnelsDir sv \<noteq> []")
      case False
      then have "\<not> (persistent \<and> sv_tunnelsDir sv \<noteq> [])" .
      with True reg [OF refl] show ?thesis
        by (simp only: AddTunnel_def if_False bind_go.simps prod.case option.case not_not simp_thms)
    next
      case p: True
      obtain e sv1 where pers: "persist S D Y spec sv = Ret (e, sv1)"
        using persist_returns assms(7) p by blast
      then show ?thesis
        using True p reg [OF persist_frame(2) [OF pers]] by (cases e) (simp_all add: AddTunnel_def)
    qed
  qed
  then obtain r sv' where run: "AddTunnel S D Y G es es1 es2 opts spec persistent sv = Ret (r, sv')"
    by blast
  have free: "checkPortConflicts es spec sv = None \<longleftrightarrow>
      \<not> (\<exists>n i. sv_processes sv n = Some i \<and> proc_keys sv i \<inter> spec_keys spec \<noteq> {})"
  proof -
    have "(\<forall>(n, i) \<in> set es. P i) \<longleftrightarrow> \<not> (\<exists>n i. sv_processes sv n = Some i \<and> \<not> P i)" for P
      using enumerates_mem [OF assms(3)] by fastforce
    then show ?thesis
      unfolding checkPortConflicts_None by simp
  qed
  from run have "if sv_processes sv (spec_Name spec) \<noteq> None \<or>
        (\<exists>n i. sv_processes sv n = Some i \<and> proc_keys sv i \<inter> spec_keys spec \<noteq> {})
     then r \<noteq> None \<and> sv' = sv
     else registered_new spec sv sv' \<or>
       (r \<noteq> None \<and> sv_processes sv' = sv_processes sv \<and> sv_heap sv' = sv_heap sv)"
  proof (cases rule: AddTunnel_cases)
    case exists
    then show ?thesis by simp
  next
    case (conflict e)
    then show ?thesis using free by simp
  next
    case unsaved
    have "\<not> (sv_processes sv (spec_Name spec) \<noteq> None \<or>
        (\<exists>n i. sv_processes sv n = Some i \<and> proc_keys sv i \<inter> spec_keys spec \<noteq> {}))"
      using free unsaved(1,2) by blast
    moreover have "sv_processes sv' = sv_processes sv \<and> sv_heap sv' = sv_heap sv"
      using persist_frame(1) [OF unsaved(4)] by (simp add: same_registry_def)
    ultimately show ?thesis
      using unsaved(5) by (simp only: if_False) blast
  next
    case (saved sv1)
    have same: "sv_processes sv1 = sv_processes sv" "sv_heap sv1 = sv_heap sv"
      using saved(3) by (simp_all add: same_registry_def)
    have "registered_new spec sv1 sv' \<or>
        (r \<noteq> None \<and> sv_processes sv' = sv_processes sv1 \<and> sv_heap sv' = sv_heap sv1)"
      by (rule register_outcome [OF assms(1) _ _ _ saved(6)]) (use nm saved(4) assms(4,5) in simp_all)
    moreover have "\<not> (sv_processes sv (spec_Name spec) \<noteq> None \<or>
        (\<exists>n i. sv_processes sv n = Some i \<and> proc_keys sv i \<inter> spec_keys spec \<noteq> {}))"
      using free saved(1,2) by blast
    ultimately show ?thesis
      using saved(4) same by (simp only: if_False registered_new_def)
  qed
  with run show ?thesis by blast
qed

text \<open>
  C7: \<open>AddTunnel\<close> of a spec that came from \<open>FromProto\<close> (with health check and restart policy
  when it is to be persisted) never panics. It refuses, changing nothing, exactly when the
  name is taken or a registered tunnel claims one of its local ports. Otherwise the tunnel
  ends up registered and planned, with all dependencies present and no cycle, or the call
  failed and the registry is what it was.
\<close>

theorem AddTunnel_correct:
  assumes "graph_library G edges" and "sv_reachable S D Y G scale sv"
    and "enumerates es (sv_processes sv)"
    and "enumerates es1 (pl_specs (AddSpec spec (sv_planner sv)))"
    and "enumerates es2 (pl_specs (AddSpec spec (sv_planner sv)))"
    and "wf_spec spec"
    and "persistent \<Longrightarrow> ts_Health (spec_ToProto spec) \<noteq> None \<and> ts_Restart (spec_ToProto spec) \<noteq> None"
  shows "\<exists>r sv'. AddTunnel S D Y G es es1 es2 opts spec persistent sv = Ret (r, sv') \<and>
    (if sv_processes sv (spec_Name spec) \<noteq> None \<or>
        (\<exists>n i. sv_processes sv n = Some i \<and> proc_keys sv i \<inter> spec_keys spec \<noteq> {})
     then r \<noteq> None \<and> sv' = sv
     else registered_new spec sv sv' \<or>
       (r \<noteq> None \<and> sv_processes sv' = sv_processes sv \<and> sv_heap sv' = sv_heap sv))"
  by (rule AddTunnel_decides [OF assms(1) sv_reachable_ok [OF assms(1,2)] assms(3-7)])

lemma AddTunnel_correct_witness:
  "\<exists>r sv'. AddTunnel mem_os demo_durations demo_yaml adj_ops [] demo_entries demo_entries [] demo_bastion False demo_sv
      = Ret (r, sv') \<and>
    (if sv_processes demo_sv (spec_Name demo_bastion) \<noteq> None \<or>
        (\<exists>n i. sv_processes demo_sv n = Some i \<and> proc_keys demo_sv i \<inter> spec_keys demo_bastion \<noteq> {})
     then r \<noteq> None \<and> sv' = demo_sv
     else registered_new demo_bastion demo_sv sv' \<or>
       (r \<noteq> None \<and> sv_processes sv' = sv_processes demo_sv \<and> sv_heap sv' = sv_heap demo_sv))"
proof -
  have "pl_specs (AddSpec demo_bastion demo_planner) = pl_specs demo_planner"
    by (auto simp: demo_planner_defs fun_eq_iff)
  then have "enumerates demo_entries (pl_specs (AddSpec demo_bastion (sv_planner demo_sv)))"
    using demo_enumerates by simp
  moreover have "enumerates [] (sv_processes demo_sv)"
    by (simp add: enumerates_def)
  moreover have "wf_spec demo_bastion"
    using demo_process_wf by (simp add: demo_process_def)
  ultimately show ?thesis
    by (intro AddTunnel_correct [OF adj_library demo_sv_reachable]) simp_all
qed

lemma Stop_expected: "pr_expectedState (snd (Stop D env p)) = DesiredStopped"
proof -
  have sel: "pr_expectedState (snd (stop_select D env q)) = pr_expectedState q" for q
    using receive_frame by (auto simp: stop_select_def stop_frame_def split: option.splits if_splits)
  have ev: "pr_expectedState (child_events es q) = pr_expectedState q" for es q
    using child_events_frame [of es q] by (simp add: stop_frame_def)
  show ?thesis
    by (simp add: Stop_def Let_def sel ev)
qed


lemma demo_AddSpec: "AddSpec demo_bastion demo_planner = demo_planner"
proof -
  have "pl_specs (AddSpec demo_bastion demo_planner) = pl_specs demo_planner"
    by (auto simp: demo_planner_defs fun_eq_iff)
  then show ?thesis
    by (simp add: AddSpec_def)
qed

text \<open>A reachable supervisor with a registered tunnel.\<close>

lemma demo_registered:
  "\<exists>sv. sv_reachable mem_os demo_durations demo_yaml adj_ops demo_scale sv \<and>
     sv_processes sv = [''bastion'' \<mapsto> 0] \<and> sv_heap sv = [NewProcess mem_os demo_bastion ''/keys''] \<and>
     sv_ctx sv = None \<and> pl_specs (sv_planner sv) = pl_specs demo_planner"
proof -
  obtain ss pl where pl: "Plan adj_ops demo_entries demo_entries demo_planner = Ret (Inr ss, pl)"
    using demo_plan by blast
  let ?sv = "new_proc mem_os demo_bastion (demo_sv\<lparr>sv_planner := pl\<rparr>)"
  have ctx: "sv_ctx demo_sv = None"
    by (simp add: demo_sv_def NewSupervisor_def)
  have "AddTunnel mem_os demo_durations demo_yaml adj_ops [] demo_entries demo_entries [] demo_bastion False demo_sv
      = Ret (None, ?sv)"
    using pl ctx by (simp add: AddTunnel_def checkPortConflicts_def register_def demo_AddSpec Let_def)
  moreover have "enumerates [] (sv_processes demo_sv)"
    by (simp add: enumerates_def)
  ultimately have "sv_reachable mem_os demo_durations demo_yaml adj_ops demo_scale ?sv"
    by (intro sv_reachable.step [OF demo_sv_reachable] sv_step.add)
  moreover have "spec_Name demo_bastion = ''bastion''"
    by (simp add: demo_bastion_def SSHSpec_Name_def)
  ultimately show ?thesis
    using Plan_specs [OF pl] ctx
    by (intro exI [of _ ?sv]) (simp add: demo_sv_def NewSupervisor_def)
qed


section \<open>Failures\<close>

lemma stop_dependents_mono:
  "pr_expectedState (proc sv i) = DesiredStopped \<Longrightarrow> i < length (sv_heap sv) \<Longrightarrow>
     pr_expectedState (proc (stop_dependents D env ds sv) i) = DesiredStopped"
proof (induction ds arbitrary: sv)
  case (Cons d ds)
  then show ?case
    by (auto split: option.splits simp: proc_set_proc Stop_expected intro!: Cons.IH)
qed simp

lemma stop_dependents_stops:
  "d \<in> set ds \<Longrightarrow> sv_processes sv d = Some i \<Longrightarrow> i < length (sv_heap sv) \<Longrightarrow>
     pr_status (proc sv i) \<noteq> StatusStopped \<Longrightarrow>
     pr_expectedState (proc (stop_dependents D env ds sv) i) = DesiredStopped"
proof (induction ds arbitrary: sv)
  case (Cons x ds)
  let ?sv = "case sv_processes sv x of None \<Rightarrow> sv
    | Some i \<Rightarrow> if pr_status (proc sv i) \<noteq> StatusStopped
        then set_proc i (snd (Stop D (env x) (proc sv i))) sv else sv"
  have fr: "sv_processes ?sv = sv_processes sv" "length (sv_heap ?sv) = length (sv_heap sv)"
    by (auto split: option.splits)
  have "pr_expectedState (proc ?sv i) = DesiredStopped \<or> proc ?sv i = proc sv i"
    using Cons.prems(3) by (auto split: option.splits simp: proc_set_proc Stop_expected)
  moreover have "pr_expectedState (proc ?sv i) = DesiredStopped" if "x = d"
    using Cons.prems that by (simp add: proc_set_proc Stop_expected)
  ultimately consider "pr_expectedState (proc ?sv i) = DesiredStopped" | "x \<noteq> d" "proc ?sv i = proc sv i"
    by blast
  then show ?case
  proof cases
    case 1
    then show ?thesis
      using stop_dependents_mono [OF 1] Cons.prems(3) fr by simp
  next
    case 2
    then show ?thesis
      using Cons.IH [of ?sv] Cons.prems fr by simp
  qed
qed simp

lemma stop_dependents_other:
  "\<forall>d \<in> set ds. sv_processes sv d \<noteq> Some i \<Longrightarrow> i < length (sv_heap sv) \<Longrightarrow>
     proc (stop_dependents D env ds sv) i = proc sv i"
proof (induction ds arbitrary: sv)
  case (Cons d ds)
  then show ?case
    by (auto split: option.splits simp: proc_set_proc Cons.IH)
qed simp

lemma Stop_frame: "pr_restartAttempts (snd (Stop D env p)) = pr_restartAttempts p"
proof -
  have sel: "pr_restartAttempts (snd (stop_select D env q)) = pr_restartAttempts q" for q
    using receive_frame by (auto simp: stop_select_def stop_frame_def split: option.splits if_splits)
  have ev: "pr_restartAttempts (child_events es q) = pr_restartAttempts q" for es q
    using child_events_frame [of es q] by (simp add: stop_frame_def)
  have beg: "pr_restartAttempts (stop_begin p) = pr_restartAttempts p"
    by (simp add: stop_begin_def Let_def setExpectedState_def cancel_run_def upd_run_def split: option.splits)
  show ?thesis
    by (simp add: Stop_def Let_def sel ev beg)
qed

lemma stop_dependents_keeps:
  "i < length (sv_heap sv) \<Longrightarrow> pr_spec (proc (stop_dependents D env ds sv) i) = pr_spec (proc sv i) \<and>
     pr_restartAttempts (proc (stop_dependents D env ds sv) i) = pr_restartAttempts (proc sv i)"
proof (induction ds arbitrary: sv)
  case (Cons d ds)
  let ?sv = "case sv_processes sv d of None \<Rightarrow> sv
    | Some i \<Rightarrow> if pr_status (proc sv i) \<noteq> StatusStopped
        then set_proc i (snd (Stop D (env d) (proc sv i))) sv else sv"
  have "i < length (sv_heap ?sv)" "pr_spec (proc ?sv i) = pr_spec (proc sv i)"
    "pr_restartAttempts (proc ?sv i) = pr_restartAttempts (proc sv i)"
    using Cons.prems by (auto split: option.splits simp: proc_set_proc Stop_spec Stop_frame)
  then show ?case
    using Cons.IH [of ?sv] by simp
qed simp

lemma stop_dependents_length [simp]:
  "length (sv_heap (stop_dependents D env ds sv)) = length (sv_heap sv)"
  by (induction ds arbitrary: sv) (auto split: option.splits)

text \<open>
  C4: the handling of a failure. When a registered tunnel \<open>nm\<close> that is expected to run fails,
  every tunnel \<open>DependentsOf\<close> names that is not stopped is told to stop, no other process is
  touched, and the tunnel itself is restarted, after \<open>restart_delay\<close> and with one more attempt
  counted, exactly when it has a policy other than \<open>never\<close> with attempts left.
\<close>

theorem handleFailure_correct:
  assumes "graph_library G edges" and "sv_reachable S D Y G scale sv" and "sv_processes sv nm = Some i"
    and "pr_expectedState (proc sv i) = DesiredRunning"
    and "DependentsOf G (sv_planner sv) nm = Ret (Inr ds)"
  shows "\<exists>r sv'. handleFailure D G scale env nm sv = Ret (r, sv') \<and>
    (\<forall>d \<in> set ds. \<forall>j. sv_processes sv d = Some j \<and> j \<noteq> i \<and> pr_status (proc sv j) \<noteq> StatusStopped \<longrightarrow>
       pr_expectedState (proc sv' j) = DesiredStopped) \<and>
    (\<forall>j < length (sv_heap sv). j \<noteq> i \<and> (\<forall>d \<in> set ds. sv_processes sv d \<noteq> Some j) \<longrightarrow> proc sv' j = proc sv j) \<and>
    (case spec_RestartPolicy (pr_spec (proc sv i)) of
       None \<Rightarrow> r = None
     | Some policy \<Rightarrow>
        if rp_Policy policy = ''never'' \<or> attempts_exhausted policy (pr_restartAttempts (proc sv i))
        then r = None
        else r = Some (i, restart_delay D scale policy (pr_restartAttempts (proc sv i))) \<and>
          pr_restartAttempts (proc sv' i) = pr_restartAttempts (proc sv i) + 1)"
proof -
  have ok: "sv_ok S D sv"
    by (rule sv_reachable_ok [OF assms(1,2)])
  note i = sv_ok_registered(1) [OF ok assms(3)]
  let ?sv1 = "stop_dependents D env ds sv"
  note keeps = stop_dependents_keeps [OF i, of D env ds]
  obtain dl sv2 where ap: "apply_policy D scale i ?sv1 = (dl, sv2)" by (rule prod.exhaust)
  have run: "handleFailure D G scale env nm sv = Ret (map_option (\<lambda>d. (i, d)) dl, sv2)"
    using assms(3-5) ap by (cases dl) (simp_all add: handleFailure_def)
  have sv2: "sv2 = ?sv1 \<or> (\<exists>p. sv2 = set_proc i p ?sv1)"
    using ap by (auto simp: apply_policy_def Let_def split: option.splits if_splits)
  have other: "proc sv2 j = proc ?sv1 j" if "j \<noteq> i" "j < length (sv_heap sv)" for j
    using sv2 that by (auto simp: proc_set_proc)
  have "\<forall>d \<in> set ds. \<forall>j. sv_processes sv d = Some j \<and> j \<noteq> i \<and> pr_status (proc sv j) \<noteq> StatusStopped \<longrightarrow>
       pr_expectedState (proc sv2 j) = DesiredStopped"
    using other stop_dependents_stops sv_ok_registered(1) [OF ok] by metis
  moreover have "\<forall>j < length (sv_heap sv). j \<noteq> i \<and> (\<forall>d \<in> set ds. sv_processes sv d \<noteq> Some j) \<longrightarrow>
      proc sv2 j = proc sv j"
    using other stop_dependents_other by metis
  moreover have "case spec_RestartPolicy (pr_spec (proc sv i)) of
       None \<Rightarrow> dl = None
     | Some policy \<Rightarrow>
        if rp_Policy policy = ''never'' \<or> attempts_exhausted policy (pr_restartAttempts (proc sv i))
        then dl = None
        else dl = Some (restart_delay D scale policy (pr_restartAttempts (proc sv i))) \<and>
          pr_restartAttempts (proc sv2 i) = pr_restartAttempts (proc sv i) + 1"
    using ap i keeps
    by (auto simp: apply_policy_def Let_def proc_set_proc incrementRestartAttempts_def
        split: option.splits if_splits)
  ultimately show ?thesis
    using run by (intro exI [of _ "map_option (\<lambda>d. (i, d)) dl"] exI [of _ sv2])
      (auto split: option.splits if_splits)
qed

text \<open>A reachable supervisor with a tunnel that is expected to run.\<close>

definition demo_one :: "(string \<times> Spec) list" where
  "demo_one = [(''bastion'', demo_bastion)]"

lemma demo_bastion_simps [simp]: "spec_Name demo_bastion = ''bastion''" "spec_Dependencies demo_bastion = []"
  by (simp_all add: demo_bastion_def SSHSpec_Name_def SSHSpec_Dependencies_def)

lemma demo_plan_empty:
  "\<exists>pl. Plan adj_ops [] [] (NewPlanner adj_ops Map.empty) = Ret (Inr [], pl) \<and> pl_specs pl = Map.empty"
  by (simp add: Plan_def plan_tail_def adj_ops_def kahn.simps Let_def)

lemma demo_plan_one:
  assumes "pl_specs p = Map.empty"
  shows "\<exists>pl. Plan adj_ops demo_one demo_one (AddSpec demo_bastion p) = Ret (Inr [demo_bastion], pl) \<and>
    DependentsOf adj_ops pl ''bastion'' = Ret (Inr [])"
  by (simp add: Plan_def plan_tail_def demo_one_def adj_ops_def kahn.simps free_of_def adj_vertex_def
      DependentsOf_def succs_def)

lemma startAndNotify_expected:
  assumes "startAndNotify S D ctx opts i sv = Ret (r, sv')" and "i < length (sv_heap sv)"
    and "idle (proc sv i)"
  shows "pr_expectedState (proc sv' i) = DesiredRunning"
  using assms(1)
proof (cases rule: startAndNotify_cases)
  case (1 w' p')
  have "proc sv' i = p'"
    using 1(2) assms(2) by (simp add: proc_def set_proc_def)
  then show ?thesis
    using 1(1) assms(3) by (auto elim!: Start_cases simp: not_started_def started_def)
qed

lemma demo_live:
  "\<exists>sv. sv_reachable mem_os demo_durations demo_yaml adj_ops demo_scale sv \<and>
     sv_processes sv = [''bastion'' \<mapsto> 0] \<and> length (sv_heap sv) = 1 \<and>
     pr_spec (proc sv 0) = demo_bastion \<and>
     pr_expectedState (proc sv 0) = DesiredRunning \<and> sv_ctx sv = Some False \<and>
     DependentsOf adj_ops (sv_planner sv) ''bastion'' = Ret (Inr [])"
proof -
  let ?R = "sv_reachable mem_os demo_durations demo_yaml adj_ops demo_scale"
  define sv0 where "sv0 = NewSupervisor mem0 (NewPlanner adj_ops Map.empty :: (adj, nat) Planner)
      \<lparr>cfg_Tunnels = Map.empty, cfg_filePath = []\<rparr> ''/keys'' ''/tunnels''"
  have sv0: "sv_planner sv0 = NewPlanner adj_ops Map.empty" "sv_processes sv0 = Map.empty" "sv_heap sv0 = []"
    "sv_keyDir sv0 = ''/keys''"
    by (simp_all add: sv0_def NewSupervisor_def)
  obtain pl0 where pl0: "Plan adj_ops [] [] (NewPlanner adj_ops Map.empty) = Ret (Inr [], pl0)"
    "pl_specs pl0 = Map.empty"
    using demo_plan_empty by blast
  define sv1 where "sv1 = sv0\<lparr>sv_ctx := Some False, sv_planner := pl0\<rparr>"
  have sv1: "sv_planner sv1 = pl0" "sv_processes sv1 = Map.empty" "sv_heap sv1 = []" "sv_ctx sv1 = Some False"
    "sv_keyDir sv1 = ''/keys''"
    by (simp_all add: sv1_def sv0)
  have run: "Run mem_os demo_durations adj_ops [] [] (\<lambda>n. []) (Some False) sv0 = Ret (None, sv1)"
    by (simp add: Run_def sv0(1) pl0(1) sv1_def)
  have R0: "?R sv0"
    unfolding sv0_def by (rule sv_reachable.init) (simp add: named_def)
  have e0: "enumerates [] (pl_specs (sv_planner sv0))"
    by (simp add: enumerates_def sv0)
  have R1: "?R sv1"
    by (rule sv_reachable.step [OF R0 sv_step.run [OF e0 e0 run]])
  obtain pl where pl: "Plan adj_ops demo_one demo_one (AddSpec demo_bastion pl0) = Ret (Inr [demo_bastion], pl)"
    "DependentsOf adj_ops pl ''bastion'' = Ret (Inr [])"
    using demo_plan_one [OF pl0(2)] by blast
  define sv2 where "sv2 = new_proc mem_os demo_bastion (sv1\<lparr>sv_planner := pl\<rparr>)"
  have p0: "proc sv2 0 = NewProcess mem_os demo_bastion ''/keys''"
    by (simp add: sv2_def new_proc_def proc_def sv1)
  have sv2: "sv_planner sv2 = pl" "sv_processes sv2 = [''bastion'' \<mapsto> 0]" "sv_ctx sv2 = Some False"
    "map pr_spec (sv_heap sv2) = [demo_bastion]"
    by (simp_all add: sv2_def sv1)
  have "wf_spec (pr_spec (proc sv2 0))"
    using demo_process_wf by (simp add: demo_process_def p0)
  then obtain r sv3 where st: "startAndNotify mem_os demo_durations (Some False) [] 0 sv2 = Ret (r, sv3)"
    using startAndNotify_returns [of sv2 0 mem_os demo_durations False "[]"] by blast
  have add: "AddTunnel mem_os demo_durations demo_yaml adj_ops [] demo_one demo_one [] demo_bastion False sv1 = Ret (r, sv3)"
    by (simp add: AddTunnel_def checkPortConflicts_def register_def Let_def sv1 pl(1) sv2_def [symmetric] st)
  have e1: "enumerates [] (sv_processes sv1)"
    by (simp add: enumerates_def sv1)
  have R3: "?R sv3"
    by (rule sv_reachable.step [OF R1 sv_step.add [OF e1 add]])
  note fr = startAndNotify_frame [OF st]
  have "pr_expectedState (proc sv3 0) = DesiredRunning"
    by (rule startAndNotify_expected [OF st]) (simp add: sv2_def, simp add: p0 NewProcess_def)
  moreover have len: "length (sv_heap sv3) = 1"
    using fr(5) by (simp add: sv2_def sv1)
  moreover have "pr_spec (proc sv3 0) = demo_bastion"
    using fr(3) sv2(4) len by (cases "sv_heap sv3") (simp_all add: proc_def)
  ultimately show ?thesis
    using R3 fr(1,2,4) sv2(1-3) pl(2) by (intro exI [of _ sv3]) simp
qed


lemma handleFailure_correct_witness:
  "\<exists>(sv :: (mem, adj, nat) Supervisor) r sv'. handleFailure demo_durations adj_ops demo_scale (\<lambda>n. demo_stop) ''bastion'' sv = Ret (r, sv') \<and>
    r = None \<and> pr_expectedState (proc sv 0) = DesiredRunning"
proof -
  obtain sv where sv: "sv_reachable mem_os demo_durations demo_yaml adj_ops demo_scale sv"
    "sv_processes sv = [''bastion'' \<mapsto> 0]" "pr_spec (proc sv 0) = demo_bastion"
    "pr_expectedState (proc sv 0) = DesiredRunning"
    "DependentsOf adj_ops (sv_planner sv) ''bastion'' = Ret (Inr [])"
    using demo_live by blast
  have reg: "sv_processes sv ''bastion'' = Some 0"
    using sv(2) by simp
  have pol: "spec_RestartPolicy (pr_spec (proc sv 0)) = None"
    by (simp add: sv(3) demo_bastion_def SSHSpec_RestartPolicy_def demo_spec_def)
  from handleFailure_correct [OF adj_library sv(1) reg sv(4,5), of "\<lambda>n. demo_stop"] pol sv(4)
  show ?thesis by auto
qed

section \<open>Bounds\<close>

lemma attempts_step:
  assumes "0 \<le> sint a" and "sint a \<le> sint (m :: int32)" and "0 < sint m" and "\<not> attempts_exhausted pol a"
    and "rp_MaxAttempts pol = m"
  shows "sint (a + 1) = sint a + 1 \<and> sint a + 1 \<le> sint (m :: int32)"
proof -
  have m: "sint m < 2 ^ 31"
    using sint_lt [of m] by simp
  have "fits_int32 a"
    using assms(1,2) m by (simp add: fits_int32_def)
  then have "sint (to_int32 a) = sint a"
    using of_to_int32 [of a] sint_of_int32 [of "to_int32 a"] by simp
  then have lt: "sint a < sint m"
    using assms(3-5) by (simp add: attempts_exhausted_def)
  have "sint (a + 1) = sint a + 1"
    using assms(1) lt m by (simp add: sint_word_ariths signed_take_bit_int_eq_self)
  with lt show ?thesis by simp
qed

lemma proc_attempts:
  assumes "proc_reachable S D p" and "spec_RestartPolicy (pr_spec p) = Some pol" and "sint (rp_MaxAttempts pol) > 0"
  shows "0 \<le> sint (pr_restartAttempts p) \<and> sint (pr_restartAttempts p) \<le> sint (rp_MaxAttempts pol)"
  using assms
proof (induction rule: proc_reachable.induct)
  case (start p ctx opts w r w' p')
  have "pr_restartAttempts p' = pr_restartAttempts p"
    using start.hyps(2) by (rule Start_cases) (simp_all add: not_started_def started_def)
  then show ?case
    using start Start_spec [OF start.hyps(2)] by simp
next
  case (stop p env r p')
  have "pr_restartAttempts p' = pr_restartAttempts p" "pr_spec p' = pr_spec p"
    using Stop_frame [of D env p] Stop_spec [of D env p] stop.hyps(2) by simp_all
  then show ?case
    using stop by simp
next
  case (child p e p')
  then show ?case
    using child_step_frame [OF child.hyps(2)] by (simp add: stop_frame_def)
next
  case (monitor p m p')
  then show ?case
    using receive_frame [OF monitor.hyps(2)] by (simp add: stop_frame_def)
next
  case (count p policy)
  have "spec_RestartPolicy (pr_spec p) = Some pol"
    using count.prems(1) by simp
  then have "policy = pol"
    using count.hyps(2) by simp
  have "0 \<le> sint (pr_restartAttempts p) \<and> sint (pr_restartAttempts p) \<le> sint (rp_MaxAttempts pol)"
    using count by simp
  from attempts_step [OF conjunct1 [OF this] conjunct2 [OF this] count.prems(2) _ refl]
  show ?case
    using count.hyps(3) \<open>policy = pol\<close> \<open>0 \<le> sint (pr_restartAttempts p) \<and> _\<close>
    by (simp add: incrementRestartAttempts_def)
qed (simp_all add: NewProcess_def go_defs)

text \<open>
  C16: A limit on restart attempts is kept in every reachable state: the counter of a process
  whose policy has a positive \<open>MaxAttempts\<close> lies between 0 and that limit, so that the
  truncation to \<open>int32\<close> in the comparison never loses anything.
\<close>

theorem restart_attempts_bounded:
  assumes "graph_library G edges" and "sv_reachable S D Y G scale sv" and "p \<in> set (sv_heap sv)"
    and "spec_RestartPolicy (pr_spec p) = Some policy" and "sint (rp_MaxAttempts policy) > 0"
  shows "0 \<le> sint (pr_restartAttempts p) \<and> sint (pr_restartAttempts p) \<le> sint (rp_MaxAttempts policy) \<and>
    sint (to_int32 (pr_restartAttempts p)) = sint (pr_restartAttempts p)"
proof -
  have "proc_reachable S D p"
    using sv_reachable_ok [OF assms(1,2)] assms(3) by (simp add: sv_ok_def)
  note b = proc_attempts [OF this assms(4,5)]
  have "fits_int32 (pr_restartAttempts p)"
    using b sint_lt [of "rp_MaxAttempts policy"] by (simp add: fits_int32_def)
  with b show ?thesis
    using of_to_int32 [of "pr_restartAttempts p"] sint_of_int32 [of "to_int32 (pr_restartAttempts p)"] by simp
qed

definition demo_policed :: Spec where
  "demo_policed = SSH_Spec (SSHSpecS (demo_spec\<lparr>ts_Name := ''web'', ts_DependsOn := [],
     ts_Restart := Some demo_restart\<rparr>))"

lemma restart_attempts_bounded_witness:
  "\<exists>(sv :: (mem, adj, nat) Supervisor) p. p \<in> set (sv_heap sv) \<and> 0 \<le> sint (pr_restartAttempts p) \<and>
    sint (pr_restartAttempts p) \<le> 3 \<and> spec_RestartPolicy (pr_spec p) = Some demo_restart"
proof -
  obtain pl where pl: "Plan adj_ops [(''web'', demo_policed)] [(''web'', demo_policed)]
      (AddSpec demo_policed (NewPlanner adj_ops Map.empty)) = Ret (Inr [demo_policed], pl)"
    by (simp add: Plan_def plan_tail_def adj_ops_def kahn.simps free_of_def adj_vertex_def
        demo_policed_def SSHSpec_Dependencies_def)
  define sv0 where "sv0 = NewSupervisor mem0 (NewPlanner adj_ops Map.empty :: (adj, nat) Planner)
      \<lparr>cfg_Tunnels = Map.empty, cfg_filePath = []\<rparr> ''/keys'' ''/tunnels''"
  have sv0: "sv_planner sv0 = NewPlanner adj_ops Map.empty" "sv_processes sv0 = Map.empty" "sv_heap sv0 = []"
    "sv_keyDir sv0 = ''/keys''" "sv_ctx sv0 = None"
    by (simp_all add: sv0_def NewSupervisor_def)
  have R0: "sv_reachable mem_os demo_durations demo_yaml adj_ops demo_scale sv0"
    unfolding sv0_def by (rule sv_reachable.init) (simp add: named_def)
  let ?sv1 = "new_proc mem_os demo_policed (sv0\<lparr>sv_planner := pl\<rparr>)"
  have add: "AddTunnel mem_os demo_durations demo_yaml adj_ops [] [(''web'', demo_policed)] [(''web'', demo_policed)]
      [] demo_policed False sv0 = Ret (None, ?sv1)"
    by (simp add: AddTunnel_def checkPortConflicts_def register_def Let_def sv0 pl)
  have e0: "enumerates [] (sv_processes sv0)"
    by (simp add: enumerates_def sv0)
  have R1: "sv_reachable mem_os demo_durations demo_yaml adj_ops demo_scale ?sv1"
    by (rule sv_reachable.step [OF R0 sv_step.add [OF e0 add]])
  have pol: "spec_RestartPolicy (pr_spec (NewProcess mem_os demo_policed ''/keys'')) = Some demo_restart"
    by (simp add: demo_policed_def SSHSpec_RestartPolicy_def)
  have mem: "NewProcess mem_os demo_policed ''/keys'' \<in> set (sv_heap ?sv1)"
    by (simp add: sv0)
  from restart_attempts_bounded [OF adj_library R1 mem pol] mem pol show ?thesis
    by (intro exI [of _ ?sv1] exI [of _ "NewProcess mem_os demo_policed ''/keys''"]) (simp add: demo_restart_def)
qed

text \<open>
  the delay before a restart. The first attempt, and every attempt without backoff, waits
  the configured delay. With backoff the delay never exceeds a positive \<open>MaxDelay\<close>, whatever the
  floating point computation returned, and below it the delay is scaled by the configured
  multiplier, or by 2 when this is zero or negative.
\<close>

theorem restart_delay_correct:
  "(rp_Backoff policy = None \<or> sint attempts \<le> 0 \<longrightarrow> restart_delay D scale policy attempts = das D (rp_Delay policy)) \<and>
   (\<forall>b. rp_Backoff policy = Some b \<longrightarrow> sint attempts > 0 \<longrightarrow>
     (sint (das D (bo_MaxDelay b)) > 0 \<longrightarrow> sint (restart_delay D scale policy attempts) \<le> sint (das D (bo_MaxDelay b))) \<and>
     restart_delay D scale policy attempts \<in> {das D (bo_MaxDelay b),
       scale (das D (rp_Delay policy)) (if float32_nonpos (bo_Multiplier b) then float32_two else bo_Multiplier b) attempts})"
  by (auto simp: restart_delay_def Let_def split: option.splits)

lemma restart_delay_correct_witness:
  "restart_delay demo_durations demo_scale (demo_restart\<lparr>rp_Backoff := None\<rparr>) 1 = 0 \<and>
   sint (restart_delay demo_durations (\<lambda>d m n. 900) (demo_restart\<lparr>rp_Backoff :=
     Some \<lparr>bo_Multiplier = 0, bo_MaxDelay = Some \<lparr>dur_Seconds = 100, dur_Nanos = 0\<rparr>\<rparr>\<rparr>) 1) \<le> 100"
  using restart_delay_correct [of "demo_restart\<lparr>rp_Backoff := None\<rparr>" 1 demo_durations demo_scale]
    restart_delay_correct [of "demo_restart\<lparr>rp_Backoff :=
     Some \<lparr>bo_Multiplier = 0, bo_MaxDelay = Some \<lparr>dur_Seconds = 100, dur_Nanos = 0\<rparr>\<rparr>\<rparr>" 1 demo_durations "\<lambda>d m n. 900"]
  by (auto simp: demo_restart_def demo_durations_def)

section \<open>Waiting for health\<close>

definition no_restart :: "RestartPolicySpec option \<Rightarrow> bool" where
  "no_restart policy \<longleftrightarrow> (case policy of None \<Rightarrow> True | Some r \<Rightarrow> rp_Policy r = ''never'')"

fun transient :: "RestartPolicySpec option \<Rightarrow> duration \<Rightarrow> wait_event \<Rightarrow> bool" where
  "transient policy timeout (WaitDone st e) = False"
| "transient policy timeout (WaitTick st t) =
    (st \<noteq> StatusRunning \<and> \<not> (st = StatusFailed \<and> no_restart policy) \<and> t \<le> sint timeout)"

lemma wait_loop_tick:
  "wait_loop policy timeout (WaitTick st t # evs) =
    (if st = StatusRunning then Some (StatusRunning, None)
     else if st = StatusFailed \<and> no_restart policy then Some (StatusFailed, Some ''tunnel failed'')
     else if t > sint timeout then Some (st, Some ''timeout waiting for health'')
     else wait_loop policy timeout evs)"
  by (simp add: no_restart_def)

lemma wait_loop_skips: "\<forall>e \<in> set pre. transient policy timeout e \<Longrightarrow>
    wait_loop policy timeout (pre @ evs) = wait_loop policy timeout evs"
proof (induction pre)
  case (Cons e pre)
  then show ?case
    by (cases e) (auto simp: wait_loop_tick simp del: wait_loop.simps(3))
qed simp

lemma wait_loop_success:
  "wait_loop policy timeout evs = Some (st, None) \<Longrightarrow> st = StatusRunning \<and> (\<exists>t. WaitTick StatusRunning t \<in> set evs)"
proof (induction evs)
  case (Cons e evs)
  then show ?case
    by (cases e) (auto simp: wait_loop_tick simp del: wait_loop.simps(3) split: if_splits)
qed simp

lemma wait_loop_done: "WaitDone st e \<in> set evs \<Longrightarrow> wait_loop policy timeout evs \<noteq> None"
proof (induction evs)
  case (Cons x evs)
  then show ?case
    by (cases x) (auto simp: wait_loop_tick simp del: wait_loop.simps(3) split: if_splits)
qed simp

lemma wait_loop_ends: "WaitTick st t \<in> set evs \<Longrightarrow> t > sint timeout \<Longrightarrow> wait_loop policy timeout evs \<noteq> None"
proof (induction evs)
  case (Cons e evs)
  then show ?case
    by (cases e) (auto simp: wait_loop_tick simp del: wait_loop.simps(3) split: if_splits)
qed simp

text \<open>
  \<open>WaitHealthy\<close> succeeds only when it has seen the tunnel running, and does so at the first
  tick that shows it running as long as nothing before was decisive: the context done, a
  failure that the restart policy will not repair, or a tick after the deadline. It returns at
  the latest with the first tick after the deadline (30 s when no timeout is given).
\<close>

theorem WaitHealthy_correct:
  fixes sv :: "('w, 'g, 'i) Supervisor" and timeout :: duration
  assumes "sv_processes sv nm = Some i"
  defines "limit \<equiv> if timeout = 0 then DefaultWaitTimeout else timeout"
    and "policy \<equiv> spec_RestartPolicy (pr_spec (proc sv i))"
  shows "(\<forall>st. WaitHealthy nm timeout evs sv = Some (st, None) \<longrightarrow> st = Some StatusRunning \<and>
      (pr_status (proc sv i) = StatusRunning \<or> (\<exists>t. WaitTick StatusRunning t \<in> set evs))) \<and>
    (\<forall>pre t post. evs = pre @ WaitTick StatusRunning t # post \<longrightarrow> (\<forall>e \<in> set pre. transient policy limit e) \<longrightarrow>
      WaitHealthy nm timeout evs sv = Some (Some StatusRunning, None)) \<and>
    (\<forall>st t. WaitTick st t \<in> set evs \<longrightarrow> t > sint limit \<longrightarrow> WaitHealthy nm timeout evs sv \<noteq> None)"
proof -
  have eq: "WaitHealthy nm timeout evs sv = (if pr_status (proc sv i) = StatusRunning
      then Some (Some StatusRunning, None)
      else map_option (\<lambda>(st, e). (Some st, e)) (wait_loop policy limit evs))"
    using assms(1) by (simp add: WaitHealthy_def limit_def policy_def)
  have "wait_loop policy limit (pre @ WaitTick StatusRunning t # post) = Some (StatusRunning, None)"
    if "\<forall>e \<in> set pre. transient policy limit e" for pre t post
    using wait_loop_skips [OF that] by simp
  moreover have "\<exists>b a. wait_loop policy limit evs = Some (a, b)"
    if "WaitTick st t \<in> set evs" "t > sint limit" for st t
    using wait_loop_ends [OF that, of policy] by auto
  ultimately show ?thesis
    unfolding eq using wait_loop_success [of policy limit evs] by auto
qed

lemma WaitHealthy_correct_witness:
  "\<exists>sv :: (mem, adj, nat) Supervisor. sv_processes sv ''bastion'' = Some 0 \<and>
    WaitHealthy ''bastion'' 0 [WaitTick StatusStarting 0, WaitTick StatusRunning 1] sv = Some (Some StatusRunning, None)"
proof -
  obtain sv0 :: "(mem, adj, nat) Supervisor" where "sv_processes sv0 = [''bastion'' \<mapsto> 0]"
    using demo_live by blast
  then obtain sv :: "(mem, adj, nat) Supervisor" where sv: "sv_processes sv ''bastion'' = Some 0"
    using that [of sv0] by simp
  let ?evs = "[WaitTick StatusStarting 0, WaitTick StatusRunning 1]"
  have pre: "\<forall>e \<in> set [WaitTick StatusStarting 0]. transient (spec_RestartPolicy (pr_spec (proc sv 0)))
      (if (0 :: duration) = 0 then DefaultWaitTimeout else 0) e"
    by (simp add: go_defs)
  have evs: "?evs = [WaitTick StatusStarting 0] @ WaitTick StatusRunning 1 # []"
    by simp
  from WaitHealthy_correct [OF sv, of 0 ?evs] evs pre sv show ?thesis by blast
qed

section \<open>Starting what runs already\<close>

text \<open>
  \<open>StartTunnel\<close> is idempotent: on a tunnel that is starting or running with a live process
  it succeeds and changes nothing. On any other it returns what \<open>startAndNotify\<close> returns under
  the context of \<open>Run\<close>; before \<open>Run\<close> there is none, and starting an idle tunnel panics as soon
  as its log file can be opened.
\<close>

theorem StartTunnel_correct:
  assumes "sv_processes sv nm = Some i"
  shows "StartTunnel S D opts nm sv =
    (if pr_status (proc sv i) \<in> {StatusRunning, StatusStarting} \<and> IsProcessAlive (proc sv i) then Ret (None, sv)
     else startAndNotify S D (sv_ctx sv) opts i sv) \<and>
    (sv_ctx sv = None \<longrightarrow> idle (proc sv i) \<longrightarrow>
      (\<forall>w1 w2. os_mkdirall S (sv_world sv) (Dir (pr_logPath (proc sv i))) PermDirPublic = (None, w1) \<longrightarrow>
         os_openappend S w1 (pr_logPath (proc sv i)) PermFilePublic = (None, w2) \<longrightarrow>
         StartTunnel S D opts nm sv = Panic))"
proof -
  have eq: "StartTunnel S D opts nm sv =
    (if pr_status (proc sv i) \<in> {StatusRunning, StatusStarting} \<and> IsProcessAlive (proc sv i) then Ret (None, sv)
     else startAndNotify S D (sv_ctx sv) opts i sv)"
    using assms by (simp add: StartTunnel_def)
  have "StartTunnel S D opts nm sv = Panic"
    if ctx: "sv_ctx sv = None" and id: "idle (proc sv i)"
      and w: "os_mkdirall S (sv_world sv) (Dir (pr_logPath (proc sv i))) PermDirPublic = (None, w1)"
        "os_openappend S w1 (pr_logPath (proc sv i)) PermFilePublic = (None, w2)" for w1 w2
  proof -
    have "startAndNotify S D None opts i sv = Panic"
      using Start_idle(3) [OF id w] by (simp add: startAndNotify_def)
    then show ?thesis
      unfolding eq ctx using id by auto
  qed
  with eq show ?thesis by blast
qed

lemma StartTunnel_correct_witness:
  "\<exists>sv :: (mem, adj, nat) Supervisor. sv_reachable mem_os demo_durations demo_yaml adj_ops demo_scale sv \<and>
    StartTunnel mem_os demo_durations [] ''bastion'' sv = Panic"
proof -
  obtain sv where sv: "sv_reachable mem_os demo_durations demo_yaml adj_ops demo_scale sv"
    "sv_processes sv = [''bastion'' \<mapsto> 0]" "sv_heap sv = [NewProcess mem_os demo_bastion ''/keys'']" "sv_ctx sv = None"
    using demo_registered by blast
  have reg: "sv_processes sv ''bastion'' = Some 0"
    using sv(2) by simp
  have "idle (proc sv 0)"
    by (simp add: proc_def sv(3) NewProcess_def)
  with StartTunnel_correct [OF reg, of mem_os demo_durations "[]"] sv(1,4) show ?thesis
    by auto
qed

end
