(* ===== verification/Races.thy ===== *)
theory Races
  imports Supervisor_Props
begin

text \<open>
  Interleavings of the supervisor's operations with its monitors that the code allows. Each
  theorem follows the calls the code makes, in an order the goroutines can run in, from a
  state described by its hypotheses, and says where they end.
\<close>

section \<open>A stopped tunnel that is shown as running\<close>

lemma proc_set_proc_same [simp]: "i < length (sv_heap sv) \<Longrightarrow> proc (set_proc i p sv) i = p"
  by (simp add: proc_set_proc)

lemma set_proc_same: "set_proc i (proc sv i) sv = sv"
  by (simp add: set_proc_def proc_def)

lemma started_simps [simp]:
  "pr_status (started p d argv ms) = StatusStarting" "pr_cancel (started p d argv ms) = Some (length (pr_runs p))"
  "pr_spec (started p d argv ms) = pr_spec p"
  by (simp_all add: started_def)

lemma IsProcessAlive_cong:
  "pr_cmd q = pr_cmd p \<Longrightarrow> pr_runs q = pr_runs p \<Longrightarrow> IsProcessAlive q = IsProcessAlive p"
  unfolding IsProcessAlive_def by (simp only:)

text \<open>What \<open>Stop\<close> leaves when it takes the exit of the child it has just killed.\<close>

lemma Stop_takes_exit:
  fixes p :: Process and e k :: "err option"
  defines "n \<equiv> length (pr_runs p)"
  defines "env \<equiv> \<lparr>se_events = [ChildExits n, WaiterReaps n e, WaiterSends n], se_take = True, se_kill = k\<rparr>"
  shows "\<exists>q. Stop D env (started p False argv ms) = (None, q) \<and>
     pr_status q = (case e of None \<Rightarrow> StatusStopped | Some m \<Rightarrow> StatusFailed) \<and>
     pr_expectedState q = DesiredStopped \<and> pr_cmd q = Some n \<and> pr_spec q = pr_spec p \<and>
     \<not> IsProcessAlive q \<and> rn_child (pr_runs q ! n) = Notified \<and> receive q = None"
proof -
  let ?p1 = "(with_run p True argv ms Alive [])\<lparr>pr_expectedState := DesiredStopped\<rparr>"
  let ?s = "\<lambda>c ch. (with_run p True argv ms c ch)\<lparr>pr_expectedState := DesiredStopped\<rparr>"
  have b: "stop_begin (started p False argv ms) = ?p1"
    by (simp add: stop_begin_def Let_def with_run_def started_def go_defs)
  have h: "has_process ?p1"
    by (simp add: has_process_def with_run_def started_def)
  have 1: "child_step (ChildExits n) ?p1 = Some (?s Dead [])"
    by (simp add: n_def with_run_def started_def go_defs)
  have 2: "child_step (WaiterReaps n e) (?s Dead []) = Some (reap e (?s (Reaped e) []))"
    by (cases e) (simp_all add: n_def with_run_def started_def reap_def go_defs)
  have 3: "child_step (WaiterSends n) (reap e (?s (Reaped e) [])) = Some (reap e (?s Notified [e]))"
    by (cases e) (simp_all add: n_def with_run_def started_def reap_def go_defs)
  have ev: "child_events (se_events env) ?p1 = reap e (?s Notified [e])"
    by (simp only: env_def stop_env.simps child_events.simps 1 2 3 option.case)
  have rc: "receive (reap e (?s Notified [e])) = Some (e, reap e (?s Notified []))"
    by (cases e) (simp_all add: receive_def with_run_def reap_def go_defs started_def)
  have "Stop D env (started p False argv ms) = (None, reap e (?s Notified []))"
    unfolding Stop_def Let_def b using h by (simp add: ev stop_select_def rc) (simp add: env_def)
  then show ?thesis
    by (intro exI [of _ "reap e (?s Notified [])"])
      (cases e; simp add: with_run_def reap_def go_defs started_def IsProcessAlive_def receive_def n_def)
qed

text \<open>
  C18: Stopping a tunnel that has no failing health check can leave it shown as running for
  good. When \<open>Stop\<close> takes the exit of the child from \<open>waitCh\<close> before the monitor does, the
  monitor keeps polling; its next tick sets the status of the dead process to running, and from
  then on \<open>StartTunnel\<close> fails with ``process already running'' without starting anything.
\<close>

theorem stopped_tunnel_shown_running:
  fixes sv :: "('w, 'g, 'i) Supervisor" and p :: Process
  assumes "sv_processes sv nm = Some i" and "i < length (sv_heap sv)"
    and "proc sv i = started p False argv ms"
    and "k < length (sv_monitors sv)" and "mo_proc (sv_monitors sv ! k) = i"
    and "Check dial (NewChecker D (mo_health (sv_monitors sv ! k))) = None"
  defines "n \<equiv> length (pr_runs p)"
  shows "\<exists>sv1 sv2 sv3.
    StopTunnel D \<lparr>se_events = [ChildExits n, WaiterReaps n e, WaiterSends n], se_take = True, se_kill = None\<rparr> nm sv
      = (None, sv1) \<and>
    \<not> IsProcessAlive (proc sv1 i) \<and> monitor_event D dial MonExit k sv1 = None \<and>
    monitor_event D dial (MonTick t) k sv1 = Some sv2 \<and>
    pr_status (proc sv2 i) = StatusRunning \<and> pr_expectedState (proc sv2 i) = DesiredStopped \<and>
    \<not> IsProcessAlive (proc sv2 i) \<and>
    StartTunnel S D opts nm sv2 = Ret (Some ''process already running'', sv3) \<and> sv_heap sv3 = sv_heap sv2"
proof -
  let ?env = "\<lparr>se_events = [ChildExits n, WaiterReaps n e, WaiterSends n], se_take = True, se_kill = None\<rparr>"
  obtain q where q: "Stop D ?env (started p False argv ms) = (None, q)"
    "pr_status q = (case e of None \<Rightarrow> StatusStopped | Some m \<Rightarrow> StatusFailed)"
    "pr_expectedState q = DesiredStopped" "\<not> IsProcessAlive q" "receive q = None"
    using Stop_takes_exit [of D p e None argv ms] unfolding n_def by blast
  let ?q2 = "resetRestartAttempts (setError None (setStatus StatusRunning q))"
  let ?sv1 = "set_proc i q sv" and ?sv2 = "set_proc i ?q2 (set_proc i q sv)"
  have stop: "StopTunnel D ?env nm sv = (None, ?sv1)"
    using assms(1,3) q(1) by (simp add: StopTunnel_def)
  have p1: "proc ?sv1 i = q" and p2: "proc ?sv2 i = ?q2"
    using assms(2) by simp_all
  have nrun: "pr_status q \<noteq> StatusRunning"
    using q(2) by (auto split: option.splits)
  have tick: "monitor_event D dial (MonTick t) k ?sv1 = Some ?sv2"
    using assms(5,6) p1 nrun by (simp add: Let_def)
  have exit: "monitor_event D dial MonExit k ?sv1 = None"
    using assms(5) p1 q(5) by (simp add: Let_def)
  have "IsProcessAlive ?q2 = IsProcessAlive q"
    by (rule IsProcessAlive_cong) (simp_all add: go_defs)
  then have q2: "pr_status ?q2 = StatusRunning" "pr_expectedState ?q2 = DesiredStopped" "\<not> IsProcessAlive ?q2"
    using q(3,4) by (simp_all add: go_defs)
  have "Start S (sv_ctx sv) opts (sv_world sv) ?q2 = Ret (Some ''process already running'', sv_world sv, ?q2)"
    by (rule Start_busy) (simp add: q2(1))
  then have "StartTunnel S D opts nm ?sv2 = Ret (Some ''process already running'',
      (set_proc i ?q2 ?sv2)\<lparr>sv_world := sv_world sv\<rparr>)"
    using assms(1) p2 q2 by (simp add: StartTunnel_def startAndNotify_def Let_def)
  then show ?thesis
    using stop p1 p2 q(4) exit tick q2
    by (intro exI [of _ ?sv1] exI [of _ ?sv2] exI [of _ "(set_proc i ?q2 ?sv2)\<lparr>sv_world := sv_world sv\<rparr>"])
      (simp add: set_proc_def)
qed

definition demo_monitor :: monitor where
  "demo_monitor = \<lparr>mo_proc = 0, mo_name = ''bastion'', mo_health = None, mo_timeout = DefaultStartupTimeout,
     mo_interval = DefaultHealthInterval, mo_state = Polling\<rparr>"

definition demo_running :: "(mem, adj, nat) Supervisor" where
  "demo_running = demo_sv\<lparr>sv_processes := [''bastion'' \<mapsto> 0],
     sv_heap := [started demo_process False (''ssh'', []) []], sv_monitors := [demo_monitor], sv_ctx := Some False\<rparr>"

lemma demo_running_simps:
  "sv_processes demo_running ''bastion'' = Some 0" "length (sv_heap demo_running) = 1"
  "proc demo_running 0 = started demo_process False (''ssh'', []) []" "sv_monitors demo_running = [demo_monitor]"
  by (simp_all add: demo_running_def proc_def)

lemma stopped_tunnel_shown_running_witness:
  "\<exists>env sv1 sv2. StopTunnel demo_durations env ''bastion'' demo_running = (None, sv1) \<and>
    monitor_event demo_durations (\<lambda>a t. None) (MonTick 0) 0 sv1 = Some sv2 \<and>
    pr_status (proc sv2 0) = StatusRunning \<and> \<not> IsProcessAlive (proc sv2 0)"
  using stopped_tunnel_shown_running [of demo_running "''bastion''" 0 demo_process "(''ssh'', [])" "[]" 0
      "\<lambda>a t. None" demo_durations "Some ''signal: killed''" 0 mem_os "[]"] demo_running_simps
  by (auto simp: demo_monitor_def NewChecker_def NoneChecker_Check_def)

section \<open>A health timeout leaves the old child running\<close>



section \<open>A stop during the backoff is lost\<close>

text \<open>
  A tunnel stopped while its monitor sleeps before a restart is started again when the
  sleep ends: the restart does not look at the expected state, and sets it back to running.
\<close>

theorem stop_during_backoff_lost:
  assumes "sv_processes sv nm = Some i" and "i < length (sv_heap sv)"
    and "k < length (sv_monitors sv)" and "mo_state (sv_monitors sv ! k) = Sleeping i d"
    and "StopTunnel D env nm sv = (r, sv1)" and "idle (proc sv1 i)"
    and "monitor_restart S D opts k i sv1 = Ret sv2"
  shows "pr_expectedState (proc sv1 i) = DesiredStopped \<and> pr_expectedState (proc sv2 i) = DesiredRunning"
proof -
  obtain r' p' where st: "Stop D env (proc sv i) = (r', p')" by (rule prod.exhaust)
  then have sv1: "sv1 = set_proc i p' sv"
    using assms(1,5) by (simp add: StopTunnel_def)
  have "pr_expectedState (proc sv1 i) = DesiredStopped"
    using Stop_expected [of D env "proc sv i"] st assms(2) by (simp add: sv1)
  moreover obtain e sv3 where go: "startAndNotify S D (sv_ctx sv1) opts i sv1 = Ret (e, sv3)"
    and sv2: "sv2 = set_monitor k Finished sv3"
    using assms(7) by (auto simp: monitor_restart_def bind_go_Ret_iff)
  have "pr_expectedState (proc sv3 i) = DesiredRunning"
    by (rule startAndNotify_expected [OF go _ assms(6)]) (use assms(2) sv1 in simp)
  then have "pr_expectedState (proc sv2 i) = DesiredRunning"
    by (simp add: sv2 proc_def)
  ultimately show ?thesis by blast
qed


lemma stop_during_backoff_lost_witness:
  "\<exists>sv1 sv2. StopTunnel demo_durations demo_stop ''bastion''
      (demo_running\<lparr>sv_heap := [demo_process], sv_monitors := [demo_monitor\<lparr>mo_state := Sleeping 0 0\<rparr>]\<rparr>) = (None, sv1) \<and>
    monitor_restart mem_os demo_durations [] 0 0 sv1 = Ret sv2 \<and>
    pr_expectedState (proc sv1 0) = DesiredStopped \<and> pr_expectedState (proc sv2 0) = DesiredRunning"
proof -
  let ?sv = "demo_running\<lparr>sv_heap := [demo_process], sv_monitors := [demo_monitor\<lparr>mo_state := Sleeping 0 0\<rparr>]\<rparr>"
  have sv: "sv_processes ?sv ''bastion'' = Some 0" "0 < length (sv_heap ?sv)" "0 < length (sv_monitors ?sv)"
    "mo_state (sv_monitors ?sv ! 0) = Sleeping 0 0" "proc ?sv 0 = demo_process"
    by (simp_all add: demo_running_def proc_def)
  have q: "Stop demo_durations demo_stop demo_process = (None, demo_process\<lparr>pr_expectedState := DesiredStopped\<rparr>)"
    by (simp add: Stop_def stop_begin_def demo_process_def NewProcess_def has_process_def setExpectedState_def Let_def)
  let ?sv1 = "set_proc 0 (demo_process\<lparr>pr_expectedState := DesiredStopped\<rparr>) ?sv"
  have stop: "StopTunnel demo_durations demo_stop ''bastion'' ?sv = (None, ?sv1)"
    using sv q by (simp add: StopTunnel_def)
  have p1: "proc ?sv1 0 = demo_process\<lparr>pr_expectedState := DesiredStopped\<rparr>"
    using sv(2) by simp
  then have idle: "idle (proc ?sv1 0)" and wf: "wf_spec (pr_spec (proc ?sv1 0))"
    using demo_process_wf by (simp_all add: demo_process_def NewProcess_def)
  have "sv_ctx ?sv1 = Some False"
    by (simp add: demo_running_def)
  then obtain sv2 where go: "monitor_restart mem_os demo_durations [] 0 0 ?sv1 = Ret sv2"
    using startAndNotify_returns [OF wf, of mem_os demo_durations False "[]"] by (auto simp: monitor_restart_def)
  from stop_during_backoff_lost [OF sv(1-4) stop idle go] stop go show ?thesis by blast
qed

section \<open>A removed tunnel that comes back\<close>

lemma stop_all_other:
  assumes "\<forall>e \<in> set es. snd e \<noteq> i"
  shows "proc (stop_all D env es sv) i = proc sv i"
  using assms
proof (induction es arbitrary: sv)
  case (Cons e es)
  obtain n j where e: "e = (n, j)"
    by (rule prod.exhaust)
  with Cons.prems have "j \<noteq> i"
    by simp
  then have "proc (set_proc j q sv) i = proc sv i" for q
    by (simp add: proc_def set_proc_def)
  with Cons e show ?case by simp
qed simp

text \<open>No call can reach a process that is not registered.\<close>

lemma unregistered_untouched:
  assumes "\<forall>n. sv_processes sv n \<noteq> Some i"
  shows "proc (snd (StopTunnel D env n sv)) i = proc sv i" and "proc (snd (RemoveTunnel D env n sv)) i = proc sv i"
    and "enumerates es (sv_processes sv) \<Longrightarrow> proc (snd (StopAll D envs es sv)) i = proc sv i"
proof -
  have other: "proc (set_proc j q sv) i = proc sv i" if "sv_processes sv n = Some j" for j q
    using that assms by (cases "j = i") (auto simp: proc_def set_proc_def)
  have same: "proc (x\<lparr>sv_processes := m, sv_planner := pl\<rparr>) i = proc x i" for x :: "('a, 'b, 'c) Supervisor" and m pl
    by (simp add: proc_def)
  show "proc (snd (StopTunnel D env n sv)) i = proc sv i" "proc (snd (RemoveTunnel D env n sv)) i = proc sv i"
    by (cases "sv_processes sv n", simp_all add: StopTunnel_def RemoveTunnel_def split_def other same)+
  assume es: "enumerates es (sv_processes sv)"
  have "snd e \<noteq> i" if "e \<in> set es" for e
    using assms enumerates_mem [OF es, of "fst e" "snd e"] that by (metis prod.collapse)
  then show "proc (snd (StopAll D envs es sv)) i = proc sv i"
    using stop_all_other [of es i D envs sv] by (simp add: StopAll_def)
qed

text \<open>
  C26: A tunnel that is removed while its monitor sleeps before a restart is started again when the
  sleep ends. Its child then runs although the registry does not have it, so its addresses are
  free for other tunnels, no later call to stop or remove a tunnel reaches it, and neither does
  the \<open>StopAll\<close> at the end of the daemon: only the cancelled context ends it.
\<close>

theorem removed_tunnel_comes_back:
  assumes "sv_ok S D sv" and "sv_processes sv nm = Some i"
    and "k < length (sv_monitors sv)" and "mo_state (sv_monitors sv ! k) = Sleeping i d"
    and "RemoveTunnel D env nm sv = (r, sv1)"
    and "sv_ctx sv1 = Some False" and "idle (proc sv1 i)"
    and "start_ok S False opts (sv_world sv1) (proc sv1 i) argv ms v"
  shows "mo_state (sv_monitors sv1 ! k) = Sleeping i d \<and>
    (\<exists>sv2. monitor_restart S D opts k i sv1 = Ret sv2 \<and> IsProcessAlive (proc sv2 i) \<and>
      pr_expectedState (proc sv2 i) = DesiredRunning \<and> (\<forall>n. sv_processes sv2 n \<noteq> Some i) \<and>
      (\<forall>env n. proc (snd (StopTunnel D env n sv2)) i = proc sv2 i \<and> proc (snd (RemoveTunnel D env n sv2)) i = proc sv2 i) \<and>
      (\<forall>envs es. enumerates es (sv_processes sv2) \<longrightarrow> proc (snd (StopAll D envs es sv2)) i = proc sv2 i))"
proof -
  have len: "i < length (sv_heap sv)"
    by (rule sv_ok_registered(1) [OF assms(1,2)])
  have sv1: "sv1 = (set_proc i (snd (Stop D env (proc sv i))) sv)
      \<lparr>sv_processes := (sv_processes sv)(nm := None), sv_planner := RemoveSpec nm (sv_planner sv)\<rparr>"
    using assms(2,5) by (simp add: RemoveTunnel_def)
  have others: "n = nm" if "sv_processes sv n = Some i" for n
    using sv_ok_registered(3) [OF assms(1) that] sv_ok_registered(3) [OF assms(1,2)] by simp
  have free: "\<forall>n. sv_processes sv1 n \<noteq> Some i"
    using others by (auto simp: sv1)
  let ?q = "started (proc sv1 i) False argv ms"
  obtain sv3 where go: "startAndNotify S D (Some False) opts i sv1 = Ret (None, sv3)"
      and p3: "proc sv3 i = ?q" "sv_processes sv3 = sv_processes sv1"
    using Start_ok [OF assms(7,8)] len
    by (simp add: startAndNotify_def Let_def) (simp add: proc_def set_proc_def sv1)
  let ?sv2 = "set_monitor k Finished sv3"
  have sv2: "proc ?sv2 i = ?q" "sv_processes ?sv2 = sv_processes sv1"
    using p3 by (simp_all add: proc_def set_monitor_def)
  have free2: "\<forall>n. sv_processes ?sv2 n \<noteq> Some i"
    unfolding sv2(2) by (rule free)
  have "monitor_restart S D opts k i sv1 = Ret ?sv2"
    using go assms(6) by (simp add: monitor_restart_def)
  moreover have "IsProcessAlive (proc ?sv2 i)" "pr_expectedState (proc ?sv2 i) = DesiredRunning"
    by (simp_all add: sv2 started_def IsProcessAlive_def)
  moreover have "mo_state (sv_monitors sv1 ! k) = Sleeping i d"
    using assms(4) by (simp add: sv1 set_proc_def)
  ultimately show ?thesis
    using free2 unregistered_untouched [OF free2] by blast
qed

lemma removed_tunnel_comes_back_witness:
  "\<exists>sv1 sv2. RemoveTunnel demo_durations demo_stop ''bastion''
      (demo_running\<lparr>sv_planner := NewPlanner adj_ops [''bastion'' \<mapsto> demo_bastion], sv_heap := [demo_process],
        sv_monitors := [demo_monitor\<lparr>mo_state := Sleeping 0 0\<rparr>]\<rparr>) = (None, sv1) \<and>
    monitor_restart mem_os demo_durations [] 0 0 sv1 = Ret sv2 \<and>
    sv_processes sv2 = Map.empty \<and> IsProcessAlive (proc sv2 0)"
proof -
  let ?sv = "demo_running\<lparr>sv_planner := NewPlanner adj_ops [''bastion'' \<mapsto> demo_bastion], sv_heap := [demo_process],
    sv_monitors := [demo_monitor\<lparr>mo_state := Sleeping 0 0\<rparr>]\<rparr>"
  have pd: "pr_spec demo_process = demo_bastion"
    by (simp add: demo_process_def NewProcess_def)
  have "proc_reachable mem_os demo_durations demo_process"
    unfolding demo_process_def by (rule proc_reachable.new)
  then have ok: "sv_ok mem_os demo_durations ?sv"
    using pd by (auto simp: sv_ok_def named_def sv_registry_def sv_disjoint_def demo_running_def proc_def monitor_ok_def
        demo_monitor_def split: if_splits)
  have sv: "sv_processes ?sv ''bastion'' = Some 0" "0 < length (sv_monitors ?sv)"
    "mo_state (sv_monitors ?sv ! 0) = Sleeping 0 0" "proc ?sv 0 = demo_process"
    by (simp_all add: demo_running_def proc_def)
  let ?p = "demo_process\<lparr>pr_expectedState := DesiredStopped\<rparr>"
  have q: "Stop demo_durations demo_stop demo_process = (None, ?p)"
    by (simp add: Stop_def stop_begin_def demo_process_def NewProcess_def has_process_def setExpectedState_def Let_def)
  obtain sv1 where rem: "RemoveTunnel demo_durations demo_stop ''bastion'' ?sv = (None, sv1)"
    and p1: "proc sv1 0 = ?p" and f: "sv_ctx sv1 = Some False" "sv_world sv1 = mem0" "sv_processes sv1 = Map.empty"
    using sv q by (simp add: RemoveTunnel_def)
      (simp add: proc_def set_proc_def demo_running_def demo_sv_def NewSupervisor_def)
  obtain argv ms v where "start_ok mem_os False [] mem0 demo_process argv ms v"
    using demo_start_ok by blast
  then have so: "start_ok mem_os False [] (sv_world sv1) (proc sv1 0) argv ms v"
    by (simp add: p1 f start_ok_def)
  have idle: "idle (proc sv1 0)"
    unfolding p1 by (simp add: demo_process_def NewProcess_def)
  from removed_tunnel_comes_back [OF ok sv(1-3) rem f(1) idle so] obtain sv2 where
    sv2: "monitor_restart mem_os demo_durations [] 0 0 sv1 = Ret sv2" "IsProcessAlive (proc sv2 0)"
    by blast
  have "sv_processes sv2 = sv_processes sv1"
    using sv2(1) startAndNotify_frame(2) by (fastforce simp: monitor_restart_def bind_go_Ret_iff set_monitor_def)
  then show ?thesis
    using rem sv2 f(3) by auto
qed

end
