(* ===== verification/Recovery.thy ===== *)
theory Recovery
  imports Races
begin

text \<open>
  What the supervisor is for: a tunnel whose child has died is brought back. The path goes
  through the waiting goroutine, the monitor, the restart policy and a new monitor.
\<close>

section \<open>The death of a child\<close>

text \<open>The latest run has a child that lives and a channel with room.\<close>

definition child_up :: "nat \<Rightarrow> Process \<Rightarrow> bool" where
  "child_up c p \<longleftrightarrow> pr_cmd p = Some c \<and> pr_waitCh p = Some c \<and> c < length (pr_runs p) \<and>
     rn_child (pr_runs p ! c) = Alive \<and> rn_ch (pr_runs p ! c) = []"

text \<open>What a restart takes over from the process before.\<close>

definition carried :: "Process \<Rightarrow> Spec \<times> string \<times> string \<times> ExpectedState \<times> gint" where
  "carried p = (pr_spec p, pr_logPath p, pr_keyDir p, pr_expectedState p, pr_restartAttempts p)"

lemma child_dies:
  assumes "child_up c p"
  obtains p1 p2 p3 q where "child_step (ChildExits c) p = Some p1" "child_step (WaiterReaps c e) p1 = Some p2"
    "child_step (WaiterSends c) p2 = Some p3" "receive p3 = Some (e, q)" "idle q" "carried q = carried p"
    "\<not> IsProcessAlive p3"
proof -
  let ?p1 = "upd_run c (\<lambda>r. r\<lparr>rn_child := Dead\<rparr>) p"
  let ?p2 = "reap e (upd_run c (\<lambda>r. r\<lparr>rn_child := Reaped e\<rparr>) ?p1)"
  let ?p3 = "upd_run c (\<lambda>r. r\<lparr>rn_ch := [e]\<rparr>) (upd_run c (\<lambda>r. r\<lparr>rn_child := Notified\<rparr>) ?p2)"
  let ?q = "upd_run c (\<lambda>r. r\<lparr>rn_ch := []\<rparr>) ?p3"
  have c: "pr_waitCh p = Some c" "c < length (pr_runs p)" "rn_child (pr_runs p ! c) = Alive" "rn_ch (pr_runs p ! c) = []"
    using assms by (simp_all add: child_up_def)
  show thesis
  proof (rule that)
    show "child_step (ChildExits c) p = Some ?p1"
      using c by simp
    show "child_step (WaiterReaps c e) ?p1 = Some ?p2"
      using c by (simp add: upd_run_def)
    show "child_step (WaiterSends c) ?p2 = Some ?p3"
      using c by (cases e) (simp_all add: reap_def go_defs)
    show "receive ?p3 = Some (e, ?q)"
      using c by (cases e) (simp_all add: receive_def reap_def go_defs)
    show "idle ?q"
      by (cases e) (simp_all add: reap_def go_defs)
    show "carried ?q = carried p"
      by (cases e) (simp_all add: carried_def reap_def go_defs)
    show "\<not> IsProcessAlive ?p3"
      using assms by (cases e) (simp_all add: child_up_def IsProcessAlive_def reap_def go_defs)
  qed
qed

section \<open>The decision to restart\<close>

definition names_only :: "nat \<Rightarrow> string \<Rightarrow> ('w, 'g, 'i) Supervisor \<Rightarrow> bool" where
  "names_only i nm sv \<longleftrightarrow> (\<forall>n. sv_processes sv n = Some i \<longleftrightarrow> n = nm)"

lemma sv_ok_names_only:
  assumes "sv_ok S D sv" and "sv_processes sv nm = Some i"
  shows "names_only i nm sv"
  unfolding names_only_def using assms sv_ok_registered(3) [OF assms(1)] by blast

lemma stop_dependents_frame [simp]:
  "sv_monitors (stop_dependents D env ds sv) = sv_monitors sv"
  "sv_processes (stop_dependents D env ds sv) = sv_processes sv"
  "sv_world (stop_dependents D env ds sv) = sv_world sv" "sv_ctx (stop_dependents D env ds sv) = sv_ctx sv"
  by (induction ds arbitrary: sv) (auto split: option.splits)

lemma handleFailure_restarts:
  assumes "names_only i nm sv" and "i < length (sv_heap sv)" and "pr_expectedState (proc sv i) = DesiredRunning"
    and "DependentsOf G (sv_planner sv) nm = Ret deps" and "\<And>ds. deps = Inr ds \<Longrightarrow> nm \<notin> set ds"
    and "spec_RestartPolicy (pr_spec (proc sv i)) = Some policy" and "rp_Policy policy \<noteq> ''never''"
    and "\<not> attempts_exhausted policy (pr_restartAttempts (proc sv i))"
  shows "\<exists>d sv'. handleFailure D G scale env nm sv = Ret (Some (i, d), sv') \<and>
    proc sv' i = incrementRestartAttempts (proc sv i) \<and> sv_monitors sv' = sv_monitors sv \<and>
    sv_processes sv' = sv_processes sv \<and> sv_world sv' = sv_world sv \<and> sv_ctx sv' = sv_ctx sv \<and>
    length (sv_heap sv') = length (sv_heap sv)"
proof -
  define sv1 where "sv1 = (case deps of Inl e \<Rightarrow> sv | Inr ds \<Rightarrow> stop_dependents D env ds sv)"
  have same: "proc sv1 i = proc sv i" "sv_monitors sv1 = sv_monitors sv" "sv_processes sv1 = sv_processes sv"
    "sv_world sv1 = sv_world sv" "sv_ctx sv1 = sv_ctx sv" "length (sv_heap sv1) = length (sv_heap sv)"
  proof -
    have "proc (stop_dependents D env ds sv) i = proc sv i" if "deps = Inr ds" for ds
      using assms(1,2) assms(5) [OF that] by (intro stop_dependents_other) (auto simp: names_only_def)
    then show "proc sv1 i = proc sv i" "sv_monitors sv1 = sv_monitors sv" "sv_processes sv1 = sv_processes sv"
      "sv_world sv1 = sv_world sv" "sv_ctx sv1 = sv_ctx sv" "length (sv_heap sv1) = length (sv_heap sv)"
      by (simp_all add: sv1_def split: sum.split)
  qed
  let ?sv2 = "set_proc i (incrementRestartAttempts (proc sv i)) sv1"
  let ?d = "restart_delay D scale policy (pr_restartAttempts (proc sv i))"
  have "apply_policy D scale i sv1 = (Some ?d, ?sv2)"
    using assms(6-8) by (simp add: apply_policy_def same Let_def)
  moreover have "sv_processes sv nm = Some i"
    using assms(1) by (simp add: names_only_def)
  ultimately have "handleFailure D G scale env nm sv = Ret (Some (i, ?d), ?sv2)"
    using assms(3,4) by (simp add: handleFailure_def sv1_def [symmetric] Let_def)
  moreover have "proc ?sv2 i = incrementRestartAttempts (proc sv i)"
    using assms(2) same(6) by (simp add: proc_set_proc)
  ultimately show ?thesis
    using same by (intro exI [of _ ?d] exI [of _ ?sv2]) simp
qed

section \<open>The way back\<close>

lemma set_proc_twice: "set_proc i p (set_proc i q sv) = set_proc i p sv"
  by (simp add: set_proc_def)

lemma proc_set_monitor [simp]: "proc (set_monitor k st sv) = proc sv"
  by (simp add: proc_def fun_eq_iff set_monitor_def)

lemma EffectiveHealthCheck_cong:
  assumes "pr_spec p = pr_spec q" and "pr_portMappings p = pr_portMappings q"
  shows "EffectiveHealthCheck p = EffectiveHealthCheck q"
  by (simp only: EffectiveHealthCheck_def assms)

text \<open>The exit of the child, as steps of the supervisor.\<close>

lemma child_dies_steps:
  assumes len: "i < length (sv_heap sv)" and up: "child_up c (proc sv i)"
  obtains q q' where "child_events [ChildExits c, WaiterReaps c e, WaiterSends c] (proc sv i) = q"
    "(sv_step S D Y G scale)\<^sup>*\<^sup>* sv (set_proc i q sv)" "receive q = Some (e, q')" "idle q'"
    "carried q' = carried (proc sv i)" "\<not> IsProcessAlive q"
proof -
  obtain p1 p2 p3 q where p: "child_step (ChildExits c) (proc sv i) = Some p1" "child_step (WaiterReaps c e) p1 = Some p2"
      "child_step (WaiterSends c) p2 = Some p3" "receive p3 = Some (e, q)" "idle q" "carried q = carried (proc sv i)"
      "\<not> IsProcessAlive p3"
    by (rule child_dies [OF up])
  have step: "sv_step S D Y G scale (set_proc i x sv) (set_proc i y sv)" if "child_step ev x = Some y" for ev x y
    using sv_step.child [of i "set_proc i x sv" ev y S D Y G scale] len that
    by (simp add: proc_set_proc set_proc_twice)
  have "(sv_step S D Y G scale)\<^sup>*\<^sup>* sv (set_proc i p1 sv)"
    by (rule r_into_rtranclp) (rule sv_step.child [OF len p(1)])
  then have "(sv_step S D Y G scale)\<^sup>*\<^sup>* sv (set_proc i p2 sv)"
    by (rule rtranclp.rtrancl_into_rtrancl) (rule step [OF p(2)])
  then have "(sv_step S D Y G scale)\<^sup>*\<^sup>* sv (set_proc i p3 sv)"
    by (rule rtranclp.rtrancl_into_rtrancl) (rule step [OF p(3)])
  then show thesis
    by (intro that [of p3 q]) (use p in simp_all)
qed

text \<open>The monitor takes the exit, decides to restart the tunnel and sleeps.\<close>

lemma exit_handled:
  assumes "names_only i nm sv" and "i < length (sv_heap sv)"
    and "k < length (sv_monitors sv)" and "mo_proc (sv_monitors sv ! k) = i" and "mo_name (sv_monitors sv ! k) = nm"
    and "mo_state (sv_monitors sv ! k) = Polling" and "receive (proc sv i) = Some (e, q)"
    and "pr_expectedState q = DesiredRunning"
    and "DependentsOf G (sv_planner sv) nm = Ret deps" and "\<And>ds. deps = Inr ds \<Longrightarrow> nm \<notin> set ds"
    and "spec_RestartPolicy (pr_spec q) = Some policy" and "rp_Policy policy \<noteq> ''never''"
    and "\<not> attempts_exhausted policy (pr_restartAttempts q)"
  shows "\<exists>d sv'. (sv_step S D Y G scale)\<^sup>*\<^sup>* sv sv' \<and> proc sv' i = incrementRestartAttempts q \<and>
    k < length (sv_monitors sv') \<and> mo_state (sv_monitors sv' ! k) = Sleeping i d \<and>
    sv_processes sv' = sv_processes sv \<and> sv_world sv' = sv_world sv \<and> sv_ctx sv' = sv_ctx sv \<and>
    length (sv_heap sv') = length (sv_heap sv)"
proof -
  let ?env = "\<lambda>n. \<lparr>se_events = [], se_take = False, se_kill = None\<rparr>"
  define sv1 where "sv1 = set_monitor k Handling (set_proc i q sv)"
  have "monitor_event D dial MonExit k sv = Some sv1" for dial
    using assms(4,7) by (simp add: sv1_def Let_def)
  note s1 = sv_step.monitor [OF assms(3,6) this, of S Y G scale]
  have f1: "proc sv1 i = q" "sv_processes sv1 = sv_processes sv" "sv_planner sv1 = sv_planner sv" "sv_ctx sv1 = sv_ctx sv"
    "sv_world sv1 = sv_world sv" "length (sv_heap sv1) = length (sv_heap sv)" "length (sv_monitors sv1) = length (sv_monitors sv)"
    "mo_name (sv_monitors sv1 ! k) = nm" "mo_state (sv_monitors sv1 ! k) = Handling"
    using assms(2,3,5) by (simp_all add: sv1_def proc_set_proc) (simp_all add: set_monitor_def)
  have names: "names_only i nm sv1"
    using assms(1) by (simp add: names_only_def f1)
  obtain d sv2 where h: "handleFailure D G scale ?env nm sv1 = Ret (Some (i, d), sv2)"
      "proc sv2 i = incrementRestartAttempts q" "sv_monitors sv2 = sv_monitors sv1" "sv_processes sv2 = sv_processes sv1"
      "sv_world sv2 = sv_world sv1" "sv_ctx sv2 = sv_ctx sv1" "length (sv_heap sv2) = length (sv_heap sv1)"
    using handleFailure_restarts [OF names, of G deps policy D scale] assms(2,8-13) f1 by force
  have "monitor_handle D G scale ?env k sv1 = Ret (set_monitor k (Sleeping i d) sv2)"
    using h(1) f1 by (simp add: monitor_handle_def)
  then have s2: "sv_step S D Y G scale sv1 (set_monitor k (Sleeping i d) sv2)"
    using sv_step.failure [of k sv1 D G scale] assms(3) f1(7,9) by simp
  have "(sv_step S D Y G scale)\<^sup>*\<^sup>* sv (set_monitor k (Sleeping i d) sv2)"
    by (rule converse_rtranclp_into_rtranclp, rule s1, rule r_into_rtranclp, rule s2)
  moreover have "k < length (sv_monitors (set_monitor k (Sleeping i d) sv2))"
    "mo_state (sv_monitors (set_monitor k (Sleeping i d) sv2) ! k) = Sleeping i d"
    using assms(3) f1(7) h(3) by (simp_all add: set_monitor_def)
  ultimately show ?thesis
    using h f1 by (intro exI [of _ d] exI [of _ "set_monitor k (Sleeping i d) sv2"]) simp
qed

text \<open>The restart after the sleep, and the first look of the new monitor.\<close>

lemma restart_runs:
  assumes len: "i < length (sv_heap sv)" and idle: "idle (proc sv i)" and ctx: "sv_ctx sv = Some False"
    and k: "k < length (sv_monitors sv)" "mo_state (sv_monitors sv ! k) = Sleeping i d"
    and ok: "start_ok S False opts (sv_world sv) (proc sv i) argv ms v"
    and chk: "Check dial (NewChecker D (EffectiveHealthCheck ((proc sv i)\<lparr>pr_portMappings := ms\<rparr>))) = None"
  shows "\<exists>sv'. (sv_step S D Y G scale)\<^sup>*\<^sup>* sv sv' \<and> sv_processes sv' = sv_processes sv \<and>
    pr_status (proc sv' i) = StatusRunning \<and> IsProcessAlive (proc sv' i) \<and> pr_restartAttempts (proc sv' i) = 0 \<and>
    pr_lastError (proc sv' i) = None \<and>
    (\<exists>m \<in> set (sv_monitors sv'). mo_proc m = i \<and> mo_name m = spec_Name (pr_spec (proc sv i)) \<and> mo_state m = Polling)"
proof -
  let ?q = "started (proc sv i) False argv ms" and ?n = "length (sv_monitors sv)"
  let ?m = "new_monitor D i ?q"
  define sv1 where "sv1 = (set_proc i ?q sv)\<lparr>sv_world := v, sv_monitors := sv_monitors sv @ [?m]\<rparr>"
  define sv2 where "sv2 = set_monitor k Finished sv1"
  define sv3 where "sv3 = set_proc i (resetRestartAttempts (setError None (setStatus StatusRunning ?q))) sv2"
  have "startAndNotify S D (Some False) opts i sv = Ret (None, sv1)"
    using Start_ok [OF idle ok] by (simp add: startAndNotify_def Let_def sv1_def)
  then have "monitor_restart S D opts k i sv = Ret sv2"
    using ctx by (simp add: monitor_restart_def sv2_def)
  note s1 = sv_step.restart [OF k this, of Y G scale]
  have mon: "sv_monitors sv2 ! ?n = ?m" "?n < length (sv_monitors sv2)"
    using k(1) by (simp_all add: sv2_def sv1_def set_monitor_def nth_append)
  have p2: "proc sv2 i = ?q"
    using len by (simp add: sv2_def sv1_def) (simp add: proc_def set_proc_def)
  have h: "mo_health ?m = EffectiveHealthCheck ((proc sv i)\<lparr>pr_portMappings := ms\<rparr>)" "mo_proc ?m = i"
    "mo_state ?m = Polling" "mo_name ?m = spec_Name (pr_spec (proc sv i))"
    by (simp_all add: new_monitor_def Let_def started_def) (rule EffectiveHealthCheck_cong; simp)
  have "monitor_event D dial (MonTick 0) ?n sv2 = Some sv3"
    using chk by (simp add: mon h p2 Let_def sv3_def)
  note s2 = sv_step.monitor [OF mon(2) _ this, of S Y G scale]
  have "(sv_step S D Y G scale)\<^sup>*\<^sup>* sv sv3"
    using s1 s2 mon(1) h(3) by simp
  moreover have "proc sv3 i = resetRestartAttempts (setError None (setStatus StatusRunning ?q))"
    using len by (simp add: sv3_def sv2_def sv1_def)
  moreover have procs: "sv_processes sv3 = sv_processes sv"
    by (simp add: sv3_def sv2_def sv1_def)
  moreover have "sv_monitors sv3 = sv_monitors sv2"
    by (simp add: sv3_def)
  then have "\<exists>m \<in> set (sv_monitors sv3). mo_proc m = i \<and> mo_name m = spec_Name (pr_spec (proc sv i)) \<and> mo_state m = Polling"
    using h(2-4) nth_mem [OF mon(2)] unfolding mon(1) by (intro bexI [of _ ?m]) simp_all
  ultimately show ?thesis
    by (intro exI [of _ sv3]) (simp add: go_defs started_def IsProcessAlive_def)
qed


text \<open>The tunnel with a restart policy, planned, running and watched.\<close>

definition demo_policed_process :: Process where
  "demo_policed_process = NewProcess mem_os demo_policed ''/keys''"

lemma demo_policed_simps:
  "spec_Name demo_policed = ''web''" "spec_Dependencies demo_policed = []"
  "spec_RestartPolicy demo_policed = Some demo_restart"
  by (simp_all add: demo_policed_def SSHSpec_Name_def SSHSpec_Dependencies_def SSHSpec_RestartPolicy_def)

lemma demo_policed_planner:
  "\<exists>pl. pl_specs pl = [''web'' \<mapsto> demo_policed] \<and> DependentsOf adj_ops pl ''web'' = Ret (Inr [])"
proof -
  have "\<exists>pl. Plan adj_ops [(''web'', demo_policed)] [(''web'', demo_policed)]
      (AddSpec demo_policed (NewPlanner adj_ops Map.empty)) = Ret (Inr [demo_policed], pl) \<and>
      pl_specs pl = [''web'' \<mapsto> demo_policed] \<and> DependentsOf adj_ops pl ''web'' = Ret (Inr [])"
    by (simp add: Plan_def plan_tail_def adj_ops_def kahn.simps free_of_def adj_vertex_def demo_policed_simps
        DependentsOf_def succs_def)
  then show ?thesis by blast
qed

lemma demo_policed_start_ok:
  "\<exists>argv ms v. start_ok mem_os False [] mem0 demo_policed_process argv ms v"
  unfolding start_ok_def
  by (simp add: demo_policed_process_def NewProcess_def demo_policed_def SSHSpec_ToProto_def demo_spec_def demo_ssh_def
      ResolvePortsInProto_def Let_def resolve_port_def allocatePort_def mem_listen_def mem0_def FromProto_def
      SSHSpec_BuildCommand_def identity_path_def)


end
