(* ===== verification/Stays_Down.thy ===== *)
theory Stays_Down
  imports Recovery
begin

text \<open>
  What the daemon does by itself, without a call of a client: its monitors, restarts and
  children. A tunnel that has been told to stop is not started by any of it, unless a restart
  of it was already pending; so the dependents of a failed tunnel stay down.
\<close>

section \<open>Steps without a call\<close>

inductive auto_step :: "'w os \<Rightarrow> duration_ops \<Rightarrow> ('g, 'i) graph_ops \<Rightarrow> scale \<Rightarrow>
    ('w, 'g, 'i) Supervisor \<Rightarrow> ('w, 'g, 'i) Supervisor \<Rightarrow> bool" for S D G scale where
  auto_monitor: "k < length (sv_monitors sv) \<Longrightarrow> mo_state (sv_monitors sv ! k) = Polling \<Longrightarrow>
    monitor_event D dial e k sv = Some sv' \<Longrightarrow> auto_step S D G scale sv sv'"
| auto_failure: "k < length (sv_monitors sv) \<Longrightarrow> mo_state (sv_monitors sv ! k) = Handling \<Longrightarrow>
    monitor_handle D G scale envs k sv = Ret sv' \<Longrightarrow> auto_step S D G scale sv sv'"
| auto_restart: "k < length (sv_monitors sv) \<Longrightarrow> mo_state (sv_monitors sv ! k) = Sleeping i delay \<Longrightarrow>
    monitor_restart S D opts k i sv = Ret sv' \<Longrightarrow> auto_step S D G scale sv sv'"
| auto_child: "i < length (sv_heap sv) \<Longrightarrow> child_step e (proc sv i) = Some p' \<Longrightarrow>
    auto_step S D G scale sv (set_proc i p' sv)"
| auto_world: "auto_step S D G scale sv (sv\<lparr>sv_world := w\<rparr>)"

lemma auto_step_sv_step: "auto_step S D G scale sv sv' \<Longrightarrow> sv_step S D Y G scale sv sv'"
  by (induction rule: auto_step.induct) (blast intro: sv_step.intros)+

lemma auto_steps_sv_steps:
  "(auto_step S D G scale)\<^sup>*\<^sup>* sv sv' \<Longrightarrow> (sv_step S D Y G scale)\<^sup>*\<^sup>* sv sv'"
  by (induction rule: rtranclp_induct) (auto intro: auto_step_sv_step rtranclp.rtrancl_into_rtrancl)

section \<open>A tunnel that is down\<close>

text \<open>Process \<open>i\<close> has been told to stop, has had \<open>n\<close> runs, and no restart of it is pending.\<close>

definition down :: "nat \<Rightarrow> nat \<Rightarrow> ('w, 'g, 'i) Supervisor \<Rightarrow> bool" where
  "down i n sv \<longleftrightarrow> i < length (sv_heap sv) \<and> pr_expectedState (proc sv i) = DesiredStopped \<and>
     length (pr_runs (proc sv i)) = n \<and> (\<forall>m \<in> set (sv_monitors sv). \<forall>d. mo_state m \<noteq> Sleeping i d)"

text \<open>The part of a process that \<open>down\<close> reads.\<close>

definition told :: "Process \<Rightarrow> ExpectedState \<times> nat" where
  "told p = (pr_expectedState p, length (pr_runs p))"

lemma told_upd_run [simp]: "told (upd_run c f p) = told p"
  by (simp add: told_def upd_run_def)

lemma told_set [simp]: "told (setStatus st p) = told p" "told (setError e p) = told p"
  "told (incrementRestartAttempts p) = told p" "told (resetRestartAttempts p) = told p" "told (reap e p) = told p"
  by (simp_all add: told_def setStatus_def setError_def incrementRestartAttempts_def resetRestartAttempts_def reap_def
      split: option.split)

lemma child_step_told: "child_step e p = Some p' \<Longrightarrow> told p' = told p"
  by (cases e) (auto split: if_splits child.splits option.splits)

lemma child_events_told: "told (child_events es p) = told p"
  by (induction es arbitrary: p) (auto split: option.splits dest: child_step_told)

lemma receive_told: "receive p = Some (m, p') \<Longrightarrow> told p' = told p"
  by (auto simp: receive_def split: option.splits list.splits)

lemma Stop_told: "told (snd (Stop D env p)) = (DesiredStopped, length (pr_runs p))"
proof -
  have sel: "told (snd (stop_select D env q)) = told q" for q
    by (auto simp: stop_select_def split: option.splits if_splits dest: receive_told)
  have beg: "told (stop_begin p) = (DesiredStopped, length (pr_runs p))"
    by (simp add: stop_begin_def Let_def told_def go_defs split: option.split)
  show ?thesis
    by (simp add: Stop_def Let_def sel beg child_events_told)
qed

text \<open>A step that keeps the process and adds no pending restart of it keeps it down.\<close>

lemma down_keep:
  assumes "down i n sv" and "length (sv_heap sv') = length (sv_heap sv)"
    and "told (proc sv' i) = told (proc sv i) \<or> told (proc sv' i) = (DesiredStopped, length (pr_runs (proc sv i)))"
    and "\<And>m d. m \<in> set (sv_monitors sv') \<Longrightarrow> mo_state m = Sleeping i d \<Longrightarrow> m \<in> set (sv_monitors sv)"
  shows "down i n sv'"
  using assms unfolding down_def told_def by auto

lemma set_monitor_mem:
  assumes "m \<in> set (sv_monitors (set_monitor k st sv))"
  shows "m \<in> set (sv_monitors sv) \<or> mo_state m = st"
proof -
  have "m \<in> insert ((sv_monitors sv ! k)\<lparr>mo_state := st\<rparr>) (set (sv_monitors sv))"
    using assms set_update_subset_insert unfolding set_monitor_def by fastforce
  then show ?thesis by auto
qed

lemma told_set_proc:
  assumes "i < length (sv_heap sv)" and "j = i \<Longrightarrow> told q = told (proc sv i)"
  shows "told (proc (set_proc j q sv) i) = told (proc sv i)"
  using assms by (cases "j = i") (auto simp: proc_set_proc)

lemma stop_dependents_told:
  "i < length (sv_heap sv) \<Longrightarrow> told (proc (stop_dependents D env ds sv) i) = told (proc sv i) \<or>
     told (proc (stop_dependents D env ds sv) i) = (DesiredStopped, length (pr_runs (proc sv i)))"
proof (induction ds arbitrary: sv)
  case (Cons d ds)
  let ?sv = "case sv_processes sv d of None \<Rightarrow> sv
    | Some j \<Rightarrow> if pr_status (proc sv j) \<noteq> StatusStopped then set_proc j (snd (Stop D (env d) (proc sv j))) sv else sv"
  have len: "i < length (sv_heap ?sv)"
    using Cons.prems by (simp split: option.split)
  have one: "told (proc ?sv i) = told (proc sv i) \<or> told (proc ?sv i) = (DesiredStopped, length (pr_runs (proc sv i)))"
    using Cons.prems by (auto simp: proc_set_proc Stop_told split: option.split)
  from Cons.IH [OF len] one show ?case
    by (auto simp: told_def)
qed simp

lemma apply_policy_form: "\<exists>p. snd (apply_policy D scale j sv) \<in> {sv, set_proc j p sv}"
  by (auto simp: apply_policy_def Let_def split: option.split)

lemma down_apply_policy:
  assumes "down i n sv" and "j \<noteq> i" and "apply_policy D scale j sv = (dl, sv')"
  shows "down i n sv'"
proof -
  obtain p where "sv' \<in> {sv, set_proc j p sv}"
    using apply_policy_form [of D scale j sv] assms(3) by auto
  then show ?thesis
    using assms(1,2) by (auto intro!: down_keep [OF assms(1)] simp: down_def proc_set_proc)
qed

lemma down_handleFailure:
  assumes "down i n sv" and run: "handleFailure D G scale env nm sv = Ret (r, sv')"
  shows "down i n sv' \<and> (\<forall>d. r \<noteq> Some (i, d))"
proof (cases "sv_processes sv nm")
  case None
  then show ?thesis
    using assms by (simp add: handleFailure_def)
next
  case (Some j)
  show ?thesis
  proof (cases "pr_expectedState (proc sv j) = DesiredStopped \<or> pr_expectedState (proc sv j) = DesiredDisabled")
    case True
    then show ?thesis
      using assms Some by (simp add: handleFailure_def)
  next
    case False
    then have ne: "j \<noteq> i"
      using assms(1) by (auto simp: down_def)
    obtain deps where deps: "DependentsOf G (sv_planner sv) nm = Ret deps"
      using run Some False by (auto simp: handleFailure_def bind_go_Ret_iff)
    define sv1 where "sv1 = (case deps of Inl e \<Rightarrow> sv | Inr ds \<Rightarrow> stop_dependents D env ds sv)"
    have len: "i < length (sv_heap sv)"
      using assms(1) by (simp add: down_def)
    have d1: "down i n sv1"
      by (rule down_keep [OF assms(1)])
        (use stop_dependents_told [OF len] in \<open>auto simp: sv1_def split: sum.splits\<close>)
    obtain dl sv2 where ap: "apply_policy D scale j sv1 = (dl, sv2)"
      by (rule prod.exhaust)
    have "sv' = sv2 \<and> (\<forall>d. r \<noteq> Some (i, d))"
      using run Some False deps ap ne by (cases dl) (auto simp: handleFailure_def sv1_def [symmetric] Let_def)
    moreover have "down i n sv2"
      by (rule down_apply_policy [OF d1 ne ap])
    ultimately show ?thesis by simp
  qed
qed

lemma down_set_monitor:
  assumes "down i n sv" and "\<And>d. st \<noteq> Sleeping i d"
  shows "down i n (set_monitor k st sv)"
  by (rule down_keep [OF assms(1)]) (use set_monitor_mem assms(2) in fastforce)+

lemma down_set_proc:
  assumes "down i n sv" and "told q = told (proc sv j)"
  shows "down i n (set_proc j q sv)"
proof -
  have "told (proc (set_proc j q sv) i) = told (proc sv i)"
    by (rule told_set_proc) (use assms in \<open>auto simp: down_def\<close>)
  then show ?thesis
    by (intro down_keep [OF assms(1)]) simp_all
qed

lemma down_step:
  assumes "auto_step S D G scale sv sv'" and "down i n sv"
  shows "down i n sv'"
  using assms
proof (induction rule: auto_step.induct)
  case (auto_monitor k sv dial e sv')
  show ?case
  proof (cases e)
    case MonExit
    obtain x q where "receive (proc sv (mo_proc (sv_monitors sv ! k))) = Some (x, q)"
      "sv' = set_monitor k Handling (set_proc (mo_proc (sv_monitors sv ! k)) q sv)"
      using auto_monitor(3) MonExit by (auto simp: Let_def split: option.splits)
    then show ?thesis
      using auto_monitor(4) by (auto intro!: down_set_monitor down_set_proc dest: receive_told)
  qed (use auto_monitor(3,4) in \<open>auto simp: Let_def intro!: down_set_monitor down_set_proc split: option.splits if_splits\<close>)
next
  case (auto_failure k sv envs sv')
  obtain r sv1 where h: "handleFailure D G scale envs (mo_name (sv_monitors sv ! k)) sv = Ret (r, sv1)"
    "sv' = set_monitor k (case r of None \<Rightarrow> Finished | Some (j, d) \<Rightarrow> Sleeping j d) sv1"
    using auto_failure(3) by (auto simp: monitor_handle_def bind_go_Ret_iff)
  from down_handleFailure [OF auto_failure(4) h(1)] show ?case
    unfolding h(2) by (intro down_set_monitor) (auto split: option.splits)
next
  case (auto_restart k sv j delay opts sv')
  obtain e sv1 where go: "startAndNotify S D (sv_ctx sv) opts j sv = Ret (e, sv1)" "sv' = set_monitor k Finished sv1"
    using auto_restart(3) by (auto simp: monitor_restart_def bind_go_Ret_iff)
  have ne: "j \<noteq> i"
    using auto_restart(1,2,4) nth_mem unfolding down_def by blast
  obtain w' p' where sv1: "sv1 = (set_proc j p' sv)\<lparr>sv_world := w',
       sv_monitors := sv_monitors sv @ (if e = None then [new_monitor D j p'] else [])\<rparr>"
    by (rule startAndNotify_cases [OF go(1)])
  have "proc sv1 i = proc sv i"
    using ne by (simp add: sv1 proc_def set_proc_def)
  moreover have "mo_state (new_monitor D j p') = Polling"
    by (simp add: new_monitor_def Let_def)
  ultimately have "down i n sv1"
    by (intro down_keep [OF auto_restart(4)]) (auto simp: sv1 split: if_splits)
  then show ?case
    by (simp add: go(2) down_set_monitor)
next
  case (auto_child j sv e p')
  then show ?case
    by (intro down_set_proc child_step_told)
next
  case (auto_world sv w)
  then show ?case by (simp add: down_def proc_def)
qed

lemma down_steps: "(auto_step S D G scale)\<^sup>*\<^sup>* sv sv' \<Longrightarrow> down i n sv \<Longrightarrow> down i n sv'"
  by (induction rule: rtranclp_induct) (auto intro: down_step)

lemma handleFailure_processes:
  "handleFailure D G scale env nm sv = Ret (r, sv') \<Longrightarrow> sv_processes sv' = sv_processes sv"
  by (auto simp: handleFailure_def apply_policy_def Let_def bind_go_Ret_iff split: option.splits if_splits sum.splits)

lemma auto_step_processes: "auto_step S D G scale sv sv' \<Longrightarrow> sv_processes sv' = sv_processes sv"
proof (induction rule: auto_step.induct)
  case (auto_monitor k sv dial e sv')
  then show ?case
    by (cases e) (auto simp: Let_def split: option.splits if_splits)
next
  case (auto_failure k sv envs sv')
  then show ?case
    by (auto simp: monitor_handle_def bind_go_Ret_iff dest: handleFailure_processes)
next
  case (auto_restart k sv j delay opts sv')
  then show ?case
    by (auto simp: monitor_restart_def bind_go_Ret_iff dest: startAndNotify_frame(2))
qed simp_all

lemma auto_steps_processes: "(auto_step S D G scale)\<^sup>*\<^sup>* sv sv' \<Longrightarrow> sv_processes sv' = sv_processes sv"
  by (induction rule: rtranclp_induct) (auto dest: auto_step_processes)

section \<open>Dependents\<close>

text \<open>The dependents that the handling of a failure leaves down.\<close>

lemma handleFailure_downs:
  assumes "sv_ok S D sv" and "sv_processes sv nm = Some i" and "pr_expectedState (proc sv i) = DesiredRunning"
    and "DependentsOf G (sv_planner sv) nm = Ret (Inr ds)" and "d \<in> set ds" and "d \<noteq> nm"
    and "sv_processes sv d = Some j" and "pr_status (proc sv j) \<noteq> StatusStopped"
    and "\<forall>m \<in> set (sv_monitors sv). \<forall>t. mo_state m \<noteq> Sleeping j t"
    and "handleFailure D G scale env nm sv = Ret (r, sv')"
  shows "down j (length (pr_runs (proc sv j))) sv' \<and> (\<forall>t. r \<noteq> Some (j, t))"
proof -
  have len: "j < length (sv_heap sv)" and ne: "i \<noteq> j"
    using sv_ok_registered(1,3) [OF assms(1,7)] sv_ok_registered(3) [OF assms(1,2)] assms(6) by auto
  let ?sv1 = "stop_dependents D env ds sv"
  have "down j (length (pr_runs (proc sv j))) ?sv1"
    using stop_dependents_stops [OF assms(5,7) len assms(8)] stop_dependents_told [OF len, of D env ds] len assms(9)
    by (auto simp: down_def told_def)
  moreover obtain dl sv2 where ap: "apply_policy D scale i ?sv1 = (dl, sv2)"
    by (rule prod.exhaust)
  ultimately have "down j (length (pr_runs (proc sv j))) sv2"
    using ne down_apply_policy by blast
  moreover have "sv' = sv2 \<and> (\<forall>t. r \<noteq> Some (j, t))"
    using assms(2-4,10) ap ne by (cases dl) (auto simp: handleFailure_def)
  ultimately show ?thesis by simp
qed

text \<open>
  C5: The dependents of a failed tunnel stay down. When a registered tunnel that is expected to
  run fails, take a dependent of it that is not stopped and of which no restart is pending. Then
  whatever the daemon does without a call of a client from there on, the recovery of the failed
  tunnel included, the dependent is expected to be stopped, and it never gets another child; only
  a client can start it again.
\<close>

theorem dependents_stay_down:
  assumes "sv_ok S D sv" and "sv_processes sv nm = Some i"
    and "pr_expectedState (proc sv i) = DesiredRunning" and "DependentsOf G (sv_planner sv) nm = Ret (Inr ds)"
    and "d \<in> set ds" and "d \<noteq> nm" and "sv_processes sv d = Some j" and "pr_status (proc sv j) \<noteq> StatusStopped"
    and "\<forall>m \<in> set (sv_monitors sv). \<forall>t. mo_state m \<noteq> Sleeping j t"
    and "k < length (sv_monitors sv)" and "mo_name (sv_monitors sv ! k) = nm"
    and "monitor_handle D G scale envs k sv = Ret sv1" and "(auto_step S D G scale)\<^sup>*\<^sup>* sv1 sv2"
  shows "sv_processes sv2 d = Some j \<and> pr_expectedState (proc sv2 j) = DesiredStopped \<and>
    length (pr_runs (proc sv2 j)) = length (pr_runs (proc sv j))"
proof -
  obtain r sv0 where h: "handleFailure D G scale envs nm sv = Ret (r, sv0)"
    "sv1 = set_monitor k (case r of None \<Rightarrow> Finished | Some (j, t) \<Rightarrow> Sleeping j t) sv0"
    using assms(11,12) by (auto simp: monitor_handle_def bind_go_Ret_iff)
  from handleFailure_downs [OF assms(1-9) h(1)]
  have "down j (length (pr_runs (proc sv j))) sv1"
    unfolding h(2) by (intro down_set_monitor) (auto split: option.splits)
  then have "down j (length (pr_runs (proc sv j))) sv2"
    by (rule down_steps [OF assms(13)])
  moreover have "sv_processes sv2 = sv_processes sv"
    using auto_steps_processes [OF assms(13)] handleFailure_processes [OF h(1)] by (simp add: h(2))
  ultimately show ?thesis
    using assms(7) by (simp add: down_def)
qed

text \<open>A tunnel with a dependent, both running.\<close>

definition demo_leaf :: Spec where
  "demo_leaf = SSH_Spec (SSHSpecS (demo_spec\<lparr>ts_Name := ''leaf'', ts_DependsOn := [''web''],
     ts_Type := Some (TunnelSpec_Ssh (demo_ssh\<lparr>ssh_LocalForwards := []\<rparr>))\<rparr>))"

definition demo_two :: "(string \<times> Spec) list" where
  "demo_two = [(''leaf'', demo_leaf), (''web'', demo_policed)]"

lemma demo_leaf_simps:
  "spec_Name demo_leaf = ''leaf''" "spec_Dependencies demo_leaf = [''web'']"
  by (simp_all add: demo_leaf_def SSHSpec_Name_def SSHSpec_Dependencies_def)

lemma demo_two_planner:
  "\<exists>pl. pl_specs pl = map_of demo_two \<and> DependentsOf adj_ops pl ''web'' = Ret (Inr [''leaf''])"
proof -
  have "\<exists>pl. Plan adj_ops demo_two demo_two (NewPlanner adj_ops (map_of demo_two)) = Ret (Inr [demo_policed, demo_leaf], pl) \<and>
      pl_specs pl = map_of demo_two \<and> DependentsOf adj_ops pl ''web'' = Ret (Inr [''leaf''])"
    by (simp add: demo_two_def Plan_def plan_tail_def adj_ops_def kahn.simps free_of_def adj_vertex_def demo_policed_simps
        demo_leaf_simps DependentsOf_def succs_def adj_connect_def find_None_iff Let_def eval_nat_numeral)
  then show ?thesis by blast
qed

lemma demo_leaf_start_ok:
  "\<exists>argv ms v. start_ok mem_os False [] mem0 (NewProcess mem_os demo_leaf ''/keys'') argv ms v"
  unfolding start_ok_def
  by (simp add: NewProcess_def demo_leaf_def SSHSpec_ToProto_def demo_spec_def demo_ssh_def
      ResolvePortsInProto_def Let_def mem0_def FromProto_def SSHSpec_BuildCommand_def identity_path_def)

lemma demo_leaf_keys: "spec_keys demo_leaf = {}"
  by (simp add: spec_keys_def demo_leaf_def LocalPortKeys_def SSHSpec_ToProto_def ssh_keys_def)

lemma dependents_stay_down_witness:
  "\<exists>(sv :: (mem, adj, nat) Supervisor) sv1. DependentsOf adj_ops (sv_planner sv) ''web'' = Ret (Inr [''leaf'']) \<and>
    monitor_handle demo_durations adj_ops demo_scale (\<lambda>n. demo_stop) 0 sv = Ret sv1 \<and>
    (\<exists>t. mo_state (sv_monitors sv1 ! 0) = Sleeping 0 t) \<and>
    pr_expectedState (proc sv 1) = DesiredRunning \<and>
    (\<forall>sv2. (auto_step mem_os demo_durations adj_ops demo_scale)\<^sup>*\<^sup>* sv1 sv2 \<longrightarrow>
      pr_expectedState (proc sv2 1) = DesiredStopped)"
proof -
  obtain pl where pl: "pl_specs pl = map_of demo_two" "DependentsOf adj_ops pl ''web'' = Ret (Inr [''leaf''])"
    using demo_two_planner by blast
  obtain argv ms v where so: "start_ok mem_os False [] mem0 demo_policed_process argv ms v"
    using demo_policed_start_ok by blast
  let ?leaf = "NewProcess mem_os demo_leaf ''/keys''"
  obtain argv' ms' v' where so': "start_ok mem_os False [] mem0 ?leaf argv' ms' v'"
    using demo_leaf_start_ok by blast
  let ?p = "started demo_policed_process False argv ms" and ?q = "started ?leaf False argv' ms'"
  define sv where "sv = demo_running\<lparr>sv_planner := pl, sv_processes := [''web'' \<mapsto> 0, ''leaf'' \<mapsto> 1],
    sv_heap := [?p, ?q], sv_monitors := [demo_monitor\<lparr>mo_name := ''web'', mo_state := Handling\<rparr>]\<rparr>"
  have sv: "sv_processes sv = [''web'' \<mapsto> 0, ''leaf'' \<mapsto> 1]" "sv_heap sv = [?p, ?q]" "proc sv 0 = ?p" "proc sv (Suc 0) = ?q"
    "sv_planner sv = pl" "sv_monitors sv = [demo_monitor\<lparr>mo_name := ''web'', mo_state := Handling\<rparr>]"
    by (simp_all add: sv_def proc_def)
  have p: "pr_spec ?p = demo_policed" "pr_spec ?q = demo_leaf" "idle demo_policed_process" "idle ?leaf"
    "pr_restartAttempts ?p = 0" "pr_expectedState ?p = DesiredRunning" "pr_expectedState ?q = DesiredRunning"
    "pr_status ?q = StatusStarting"
    by (simp_all add: demo_policed_process_def NewProcess_def) (simp_all add: started_def)
  have "proc_reachable mem_os demo_durations ?p" "proc_reachable mem_os demo_durations ?q"
    using proc_reachable.start [OF _ Start_ok [OF p(3) so]] proc_reachable.start [OF proc_reachable.new Start_ok [OF p(4) so']]
    by (simp_all add: demo_policed_process_def proc_reachable.new)
  then have ok: "sv_ok mem_os demo_durations sv"
    using pl(1) p(1,2) demo_leaf_keys by (auto simp: sv_ok_def named_def sv_registry_def sv_disjoint_def sv proc_keys_spec
        monitor_ok_def demo_monitor_def demo_two_def demo_policed_simps demo_leaf_simps split: if_splits)
  have left: "\<not> attempts_exhausted demo_restart 0"
    by (simp add: attempts_exhausted_def demo_restart_def to_int32_def)
  have dep: "DependentsOf adj_ops (sv_planner sv) ''web'' = Ret (Inr [''leaf''])"
    using pl(2) by (simp add: sv)
  have reg: "sv_processes sv ''web'' = Some 0" "sv_processes sv ''leaf'' = Some 1"
    by (simp_all add: sv)
  have none: "\<forall>m \<in> set (sv_monitors sv). \<forall>t. mo_state m \<noteq> Sleeping 1 t"
    by (simp add: sv)
  have "names_only 0 ''web'' sv"
    by (rule sv_ok_names_only [OF ok reg(1)])
  then obtain d sv0 where h: "handleFailure demo_durations adj_ops demo_scale (\<lambda>n. demo_stop) ''web'' sv = Ret (Some (0, d), sv0)"
    and h0: "sv_monitors sv0 = sv_monitors sv"
    using handleFailure_restarts [of 0 "''web''" sv adj_ops "Inr [''leaf'']" demo_restart demo_durations demo_scale
        "\<lambda>n. demo_stop"] dep left p by (auto simp: sv demo_policed_simps demo_restart_def)
  let ?sv1 = "set_monitor 0 (Sleeping 0 d) sv0"
  have run: "monitor_handle demo_durations adj_ops demo_scale (\<lambda>n. demo_stop) 0 sv = Ret ?sv1"
    using h by (simp add: monitor_handle_def sv)
  have mons: "sv_monitors sv0 = sv_monitors sv"
    using h0 by simp
  have "pr_expectedState (proc sv2 1) = DesiredStopped"
    if "(auto_step mem_os demo_durations adj_ops demo_scale)\<^sup>*\<^sup>* ?sv1 sv2" for sv2
    using dependents_stay_down [OF ok reg(1) _ dep _ _ reg(2) _ none _ _ run that] p by (simp add: sv)
  then show ?thesis
    using dep run mons p by (intro exI [of _ sv] exI [of _ ?sv1]) (simp add: sv set_monitor_def)
qed

end
