(* ===== verification/Desired_State.thy ===== *)
theory Desired_State
  imports Stays_Down
begin

text \<open>
  An abstract specification of the supervisor: which tunnels there are, with which spec, and
  whether they are meant to run. The calls of the supervisor refine functions on this state;
  processes, monitors, planner and files are below it.
\<close>

section \<open>The abstract state\<close>

type_synonym desired = "string \<rightharpoonup> Spec \<times> ExpectedState"

definition desired :: "('w, 'g, 'i) Supervisor \<Rightarrow> desired" where
  "desired sv = (\<lambda>n. map_option (\<lambda>i. (pr_spec (proc sv i), pr_expectedState (proc sv i))) (sv_processes sv n))"

definition want :: "string \<Rightarrow> ExpectedState \<Rightarrow> desired \<Rightarrow> desired" where
  "want n e A = (case A n of None \<Rightarrow> A | Some (s, x) \<Rightarrow> A(n \<mapsto> (s, e)))"

definition want_among :: "string set \<Rightarrow> ExpectedState \<Rightarrow> desired \<Rightarrow> desired" where
  "want_among N e A = (\<lambda>n. if n \<in> N then map_option (\<lambda>(s, x). (s, e)) (A n) else A n)"

definition enter :: "Spec \<Rightarrow> ExpectedState \<Rightarrow> desired \<Rightarrow> desired" where
  "enter s e A = A(spec_Name s \<mapsto> (s, e))"

lemma want_among_one: "want_among {n} e A = want n e A"
  by (auto simp: want_among_def want_def fun_eq_iff split: option.split)

lemma want_among_none [simp]: "want_among {} e A = A"
  by (simp add: want_among_def)

lemma want_among_twice: "want_among N e (want_among M e A) = want_among (N \<union> M) e A"
  by (auto simp: want_among_def fun_eq_iff option.map_comp comp_def split_def)

section \<open>What the registry shares\<close>

text \<open>Every name has a process of its own.\<close>

definition own_processes :: "('w, 'g, 'i) Supervisor \<Rightarrow> bool" where
  "own_processes sv \<longleftrightarrow> (\<forall>n i. sv_processes sv n = Some i \<longrightarrow> i < length (sv_heap sv) \<and>
     (\<forall>m. sv_processes sv m = Some i \<longrightarrow> m = n))"

lemma sv_ok_own: "sv_ok S D sv \<Longrightarrow> own_processes sv"
  unfolding own_processes_def using sv_ok_registered(1,3) by metis

lemma own_processes_cong:
  assumes "own_processes sv" and "sv_processes sv' = sv_processes sv" and "length (sv_heap sv') = length (sv_heap sv)"
  shows "own_processes sv'"
  using assms(1) unfolding own_processes_def assms(2,3) .

lemma own_processes_set [simp]: "own_processes (set_proc i p sv) = own_processes sv"
  by (simp add: own_processes_def)

lemma desired_frame [simp]:
  "desired (sv\<lparr>sv_world := w\<rparr>) = desired sv" "desired (sv\<lparr>sv_planner := pl\<rparr>) = desired sv"
  "desired (sv\<lparr>sv_ctx := c\<rparr>) = desired sv" "desired (sv\<lparr>sv_monitors := ms\<rparr>) = desired sv"
  "desired (sv\<lparr>sv_config := cfg\<rparr>) = desired sv" "desired (set_monitor k st sv) = desired sv"
  by (simp_all add: desired_def proc_def set_monitor_def)

lemma desired_at: "desired sv n = (case sv_processes sv n of None \<Rightarrow> None
    | Some i \<Rightarrow> Some (pr_spec (proc sv i), pr_expectedState (proc sv i)))"
  by (simp add: desired_def split: option.split)

lemma desired_set_proc:
  assumes "own_processes sv" and "sv_processes sv n = Some i" and "pr_spec p = pr_spec (proc sv i)"
  shows "desired (set_proc i p sv) = want n (pr_expectedState p) (desired sv)"
proof -
  have "proc (set_proc i p sv) j = (if j = i then p else proc sv j)" if "sv_processes sv m = Some j" for m j
    using assms(1) that by (auto simp: own_processes_def proc_set_proc)
  note other = this
  have "desired (set_proc i p sv) m = want n (pr_expectedState p) (desired sv) m" for m
  proof (cases "sv_processes sv m")
    case None
    then show ?thesis
      using assms(2) by (auto simp: want_def desired_at)
  next
    case (Some j)
    then have "j = i \<longleftrightarrow> m = n"
      using assms(1,2) unfolding own_processes_def by auto
    then show ?thesis
      using Some assms(2,3) other [OF Some] by (auto simp: want_def desired_at)
  qed
  then show ?thesis by blast
qed

lemma desired_unchanged:
  assumes "own_processes sv" and "pr_spec p = pr_spec (proc sv i)" and "pr_expectedState p = pr_expectedState (proc sv i)"
  shows "desired (set_proc i p sv) = desired sv"
proof -
  have "pr_spec (proc (set_proc i p sv) j) = pr_spec (proc sv j) \<and>
      pr_expectedState (proc (set_proc i p sv) j) = pr_expectedState (proc sv j)" if "sv_processes sv m = Some j" for m j
    using assms that by (auto simp: own_processes_def proc_set_proc)
  then show ?thesis
    by (auto simp: desired_at fun_eq_iff split: option.split)
qed

section \<open>The calls\<close>

lemma desired_startAndNotify:
  assumes own: "own_processes sv" and reg: "sv_processes sv n = Some i"
    and run: "startAndNotify S D ctx opts i sv = Ret (r, sv')"
  shows "desired sv' = (if idle (proc sv i) then want n DesiredRunning (desired sv) else desired sv)"
  using run
proof (cases rule: startAndNotify_cases)
  case (1 w' p')
  have d: "desired sv' = want n (pr_expectedState p') (desired sv)"
    using desired_set_proc [OF own reg Start_spec [OF 1(1)]] by (simp add: 1(2))
  have "pr_expectedState p' = (if idle (proc sv i) then DesiredRunning else pr_expectedState (proc sv i))"
    using 1(1) by (cases rule: Start_cases) (auto simp: not_started_def started_def)
  moreover have "want n (pr_expectedState (proc sv i)) (desired sv) = desired sv"
    using reg by (auto simp: want_def desired_def)
  ultimately show ?thesis
    using d by auto
qed

lemma desired_StartTunnel:
  assumes own: "own_processes sv" and reg: "sv_processes sv n = Some i"
    and run: "StartTunnel S D opts n sv = Ret (r, sv')"
  shows "desired sv' = (if idle (proc sv i) then want n DesiredRunning (desired sv) else desired sv)"
proof (cases "(pr_status (proc sv i) = StatusRunning \<or> pr_status (proc sv i) = StatusStarting) \<and> IsProcessAlive (proc sv i)")
  case True
  then show ?thesis
    using run reg by (auto simp: StartTunnel_def)
next
  case False
  then have "startAndNotify S D (sv_ctx sv) opts i sv = Ret (r, sv')"
    using run reg by (simp only: StartTunnel_def option.case if_False)
  then show ?thesis
    by (rule desired_startAndNotify [OF own reg])
qed

lemma desired_StopTunnel:
  assumes "own_processes sv" and "StopTunnel D env n sv = (r, sv')"
  shows "desired sv' = want n DesiredStopped (desired sv)"
proof (cases "sv_processes sv n")
  case None
  then show ?thesis
    using assms(2) by (simp add: StopTunnel_def want_def desired_def)
next
  case (Some i)
  then have "sv' = set_proc i (snd (Stop D env (proc sv i))) sv"
    using assms(2) by (simp add: StopTunnel_def split_def)
  then show ?thesis
    using desired_set_proc [OF assms(1) Some Stop_spec] by (simp add: Stop_expected)
qed

lemma desired_set_enabled:
  assumes "set_enabled S Y n b sv = (e, sv1)"
  shows "desired sv1 = desired sv" and "sv_processes sv1 = sv_processes sv" and "sv_heap sv1 = sv_heap sv"
  using assms by (auto simp: set_enabled_def desired_def proc_def split: prod.splits)

lemma desired_EnableTunnel:
  assumes own: "own_processes sv" and run: "EnableTunnel S D Y opts n sv = Ret (r, sv')"
  shows "desired sv' = want n DesiredRunning (desired sv) \<or> r \<noteq> None \<and> desired sv' = desired sv"
proof (cases "sv_processes sv n")
  case None
  then show ?thesis
    using run by (auto simp: EnableTunnel_def)
next
  case (Some i)
  obtain e sv1 where en: "set_enabled S Y n True sv = (e, sv1)"
    by (rule prod.exhaust)
  show ?thesis
  proof (cases e)
    case None
    then have go: "startAndNotify S D (sv_ctx sv1) opts i sv1 = Ret (r, sv')"
      using run Some en by (simp add: EnableTunnel_def)
    have "own_processes sv1"
      by (rule own_processes_cong [OF own]) (simp_all add: desired_set_enabled [OF en])
    moreover have "r \<noteq> None" if "\<not> idle (proc sv1 i)"
      using go that by (elim startAndNotify_cases Start_cases) auto
    ultimately show ?thesis
      using desired_startAndNotify [OF _ _ go, of n] Some desired_set_enabled [OF en] by (auto split: if_splits)
  next
    case (Some m)
    then show ?thesis
      using run \<open>sv_processes sv n = Some i\<close> en desired_set_enabled [OF en] by (auto simp: EnableTunnel_def)
  qed
qed

lemma desired_DisableTunnel:
  assumes own: "own_processes sv" and run: "DisableTunnel S D Y env n sv = (r, sv')"
  shows "desired sv' = want n DesiredStopped (desired sv) \<or> r \<noteq> None \<and> desired sv' = desired sv"
proof (cases "sv_processes sv n")
  case None
  then show ?thesis
    using run by (auto simp: DisableTunnel_def)
next
  case (Some i)
  obtain e sv1 where en: "set_enabled S Y n False sv = (e, sv1)"
    by (rule prod.exhaust)
  have own1: "own_processes sv1" and reg1: "sv_processes sv1 n = Some i"
    by (rule own_processes_cong [OF own]; simp add: desired_set_enabled [OF en]) (simp add: desired_set_enabled [OF en] Some)
  show ?thesis
  proof (cases e)
    case None
    then have "sv' = set_proc i (snd (Stop D env (proc sv1 i))) sv1"
      using run Some en by (simp add: DisableTunnel_def split_def)
    then show ?thesis
      using desired_set_proc [OF own1 reg1 Stop_spec] by (simp add: Stop_expected desired_set_enabled [OF en])
  next
    case (Some m)
    then show ?thesis
      using run \<open>sv_processes sv n = Some i\<close> en desired_set_enabled [OF en] by (auto simp: DisableTunnel_def)
  qed
qed

lemma desired_RemoveTunnel:
  assumes "own_processes sv" and "RemoveTunnel D env n sv = (r, sv')"
  shows "desired sv' = (desired sv)(n := None)"
proof (cases "sv_processes sv n")
  case None
  then show ?thesis
    using assms(2) by (auto simp: RemoveTunnel_def desired_def)
next
  case (Some i)
  let ?q = "snd (Stop D env (proc sv i))"
  have "sv' = (set_proc i ?q sv)\<lparr>sv_processes := (sv_processes sv)(n := None), sv_planner := RemoveSpec n (sv_planner sv)\<rparr>"
    using assms(2) Some by (simp add: RemoveTunnel_def)
  moreover have "proc (set_proc i ?q sv) j = proc sv j" if "sv_processes sv m = Some j" "m \<noteq> n" for m j
    using assms(1) Some that unfolding own_processes_def by (metis proc_set_proc)
  ultimately show ?thesis
    by (auto simp: desired_at fun_eq_iff proc_def split: option.split)
qed

lemma desired_stop_all:
  assumes "own_processes sv" and "\<forall>(n, i) \<in> set es. sv_processes sv n = Some i"
  shows "desired (stop_all D env es sv) = want_among (fst ` set es) DesiredStopped (desired sv)"
  using assms
proof (induction es arbitrary: sv)
  case (Cons e es)
  obtain n i where e: "e = (n, i)"
    by (rule prod.exhaust)
  let ?sv = "set_proc i (snd (Stop D (env n) (proc sv i))) sv"
  have reg: "sv_processes sv n = Some i"
    using Cons.prems(2) by (simp add: e)
  have "desired (stop_all D env es ?sv) = want_among (fst ` set es) DesiredStopped (desired ?sv)"
    using Cons.prems by (intro Cons.IH) (simp_all add: e)
  also have "desired ?sv = want_among {n} DesiredStopped (desired sv)"
    using desired_set_proc [OF Cons.prems(1) reg Stop_spec] by (simp add: Stop_expected want_among_one)
  finally show ?case
    by (simp add: e want_among_twice)
qed simp

lemma desired_StopAll:
  assumes "own_processes sv" and "enumerates es (sv_processes sv)" and "StopAll D env es sv = (r, sv')"
  shows "desired sv' = want_among UNIV DesiredStopped (desired sv)"
proof -
  have "\<forall>(n, i) \<in> set es. sv_processes sv n = Some i"
    using enumerates_mem [OF assms(2)] by auto
  then have "desired sv' = want_among (fst ` set es) DesiredStopped (desired sv)"
    using desired_stop_all [OF assms(1)] assms(3) by (auto simp: StopAll_def)
  moreover have "n \<in> fst ` set es" if "desired sv n \<noteq> None" for n
    using that enumerates_mem [OF assms(2)] by (force simp: desired_def)
  then have "want_among (fst ` set es) DesiredStopped (desired sv) n = want_among UNIV DesiredStopped (desired sv) n" for n
    by (cases "desired sv n") (simp_all add: want_among_def)
  ultimately show ?thesis
    by (simp add: fun_eq_iff)
qed

text \<open>A new process enters the registry as stopped; the start that follows makes it wanted.\<close>

lemma own_processes_new_proc:
  assumes "own_processes sv"
  shows "own_processes (new_proc S spec sv)"
  using assms unfolding own_processes_def by (auto simp: less_Suc_eq split: if_splits)

lemma desired_new_proc:
  assumes "own_processes sv"
  shows "desired (new_proc S spec sv) = enter spec DesiredStopped (desired sv)"
proof
  fix n
  show "desired (new_proc S spec sv) n = enter spec DesiredStopped (desired sv) n"
  proof (cases "n = spec_Name spec \<or> sv_processes sv n = None")
    case True
    then show ?thesis
      by (auto simp: desired_at enter_def) (simp_all add: NewProcess_def)
  next
    case False
    then obtain i where "sv_processes sv n = Some i" by auto
    moreover from this have "i < length (sv_heap sv)"
      using assms by (simp add: own_processes_def)
    ultimately show ?thesis
      using False by (simp add: desired_at enter_def proc_new_proc_old)
  qed
qed

lemma want_enter: "want (spec_Name s) e (enter s x A) = enter s e A"
  by (simp add: want_def enter_def)

lemma desired_started_new:
  assumes own: "own_processes sv"
    and run: "startAndNotify S D ctx opts (length (sv_heap sv)) (new_proc S spec sv) = Ret (r, sv')"
  shows "desired sv' = enter spec DesiredRunning (desired sv) \<and> own_processes sv'"
proof -
  have "idle (proc (new_proc S spec sv) (length (sv_heap sv)))"
    by (simp add: NewProcess_def)
  then have "desired sv' = enter spec DesiredRunning (desired sv)"
    using desired_startAndNotify [OF own_processes_new_proc [OF own] _ run, of "spec_Name spec"]
    by (simp add: desired_new_proc [OF own] want_enter)
  moreover have "own_processes sv'"
    by (rule own_processes_cong [OF own_processes_new_proc [OF own] startAndNotify_frame(2,5) [OF run]])
  ultimately show ?thesis by blast
qed

lemma desired_register:
  assumes own: "own_processes sv" and run: "register S D G es1 es2 opts spec sv = Ret (r, sv')"
  shows "(r \<noteq> None \<and> desired sv' = desired sv) \<or>
    desired sv' = enter spec (if sv_ctx sv = None then DesiredStopped else DesiredRunning) (desired sv)"
  using run
proof (cases rule: register_cases)
  case (rejected e pl)
  then show ?thesis by simp
next
  case (idle ss pl)
  have "own_processes (sv\<lparr>sv_planner := pl\<rparr>)"
    using own by (simp add: own_processes_def)
  from desired_new_proc [OF this] idle show ?thesis by simp
next
  case (running ss pl d)
  have "own_processes (sv\<lparr>sv_planner := pl\<rparr>)"
    using own by (simp add: own_processes_def)
  from desired_started_new [OF this] running show ?thesis by fastforce
qed

lemma desired_AddTunnel:
  assumes own: "own_processes sv" and run: "AddTunnel S D Y G es es1 es2 opts spec persistent sv = Ret (r, sv')"
  shows "(r \<noteq> None \<and> desired sv' = desired sv) \<or> desired sv (spec_Name spec) = None \<and>
    desired sv' = enter spec (if sv_ctx sv = None then DesiredStopped else DesiredRunning) (desired sv)"
  using run
proof (cases rule: AddTunnel_cases)
  case unsaved
  then have "same_registry sv sv'"
    using persist_frame(1) by blast
  then show ?thesis
    using unsaved by (simp add: same_registry_def desired_def proc_def)
next
  case (saved sv1)
  then have "own_processes sv1" "desired sv1 = desired sv" "sv_ctx sv1 = sv_ctx sv"
    using own by (simp_all add: same_registry_def own_processes_def desired_def proc_def)
  with desired_register [OF _ saved(6)] saved(1) show ?thesis
    by (auto simp: desired_at)
qed simp_all

lemma desired_start_order:
  assumes "own_processes sv" and "start_order S D opts ctx order sv = Ret sv'"
  shows "desired sv' = foldl (\<lambda>A s. enter s DesiredRunning A) (desired sv) order"
  using assms
proof (induction order arbitrary: sv)
  case (Cons s order)
  obtain e sv1 where "startAndNotify S D ctx (opts (spec_Name s)) (length (sv_heap sv)) (new_proc S s sv) = Ret (e, sv1)"
    "start_order S D opts ctx order sv1 = Ret sv'"
    using Cons.prems(2) by (auto simp: bind_go_Ret_iff)
  then show ?case
    using desired_started_new [OF Cons.prems(1)] Cons.IH by fastforce
qed simp

lemma foldl_enter:
  assumes "\<forall>s \<in> set order. specs (spec_Name s) = Some s"
  shows "foldl (\<lambda>A s. enter s e A) A order n =
    (if n \<in> spec_Name ` set order then map_option (\<lambda>s. (s, e)) (specs n) else A n)"
  using assms
proof (induction order arbitrary: A)
  case (Cons s order)
  then show ?case
    by (cases "n = spec_Name s") (auto simp: enter_def)
qed simp

lemma desired_Run:
  assumes lib: "graph_library G edges" and ok: "sv_ok S D sv"
    and es: "enumerates es1 (pl_specs (sv_planner sv))" "enumerates es2 (pl_specs (sv_planner sv))"
    and run: "Run S D G es1 es2 opts ctx sv = Ret (r, sv')"
  shows "desired sv' = (if r = None then (\<lambda>n. map_option (\<lambda>s. (s, DesiredRunning)) (pl_specs (sv_planner sv) n))
    else desired sv)"
proof -
  have nm: "named (pl_specs (sv_planner sv))" and own: "own_processes sv"
    using ok sv_ok_own by (auto simp: sv_ok_def)
  obtain res pl where plan: "Plan G es1 es2 (sv_planner sv) = Ret (res, pl)"
    using run by (auto simp: Run_def bind_go_Ret_iff)
  let ?sv = "sv\<lparr>sv_ctx := ctx, sv_planner := pl\<rparr>"
  show ?thesis
  proof (cases "r = None")
    case False
    then have "sv' = ?sv"
      using run plan by (auto simp: Run_def Let_def bind_go_Ret_iff split: sum.splits option.splits)
    then show ?thesis
      by (simp add: False)
  next
    case True
    then obtain order where order: "res = Inr order" "start_order S D opts ctx order ?sv = Ret sv'"
      using run plan by (auto simp: Run_def Let_def bind_go_Ret_iff split: sum.splits option.splits)
    have "is_plan (pl_specs (sv_planner sv)) order"
      using graph_library.Plan_returns [OF lib es nm] plan order(1) by (metis go.inject prod.inject sum.inject(2) sum.distinct(1))
    then have ran: "set order = ran (pl_specs (sv_planner sv))"
      by (simp add: is_plan_def)
    have at: "\<forall>s \<in> set order. pl_specs (sv_planner sv) (spec_Name s) = Some s"
      using ran nm by (auto simp: named_def ran_def)
    have "own_processes ?sv"
      by (rule own_processes_cong [OF own]) simp_all
    from desired_start_order [OF this order(2)]
    have fold: "desired sv' = foldl (\<lambda>A s. enter s DesiredRunning A) (desired sv) order"
      by simp
    have "desired sv' n = map_option (\<lambda>s. (s, DesiredRunning)) (pl_specs (sv_planner sv) n)" for n
    proof (cases "pl_specs (sv_planner sv) n")
      case None
      then have "sv_processes sv n = None"
        using sv_ok_registered(2) [OF ok] by (cases "sv_processes sv n") auto
      then show ?thesis
        using None foldl_enter [OF at] fold by (auto simp: desired_at)
    next
      case (Some s)
      then have "n \<in> spec_Name ` set order"
        using ran nm by (force simp: named_def ran_def)
      then show ?thesis
        using foldl_enter [OF at] fold by simp
    qed
    then show ?thesis
      using True by (simp add: fun_eq_iff)
  qed
qed

section \<open>What happens without a call\<close>

lemma child_step_expected: "child_step e p = Some p' \<Longrightarrow> pr_expectedState p' = pr_expectedState p"
  using child_step_told by (simp add: told_def)

lemma receive_expected: "receive p = Some (m, p') \<Longrightarrow> pr_expectedState p' = pr_expectedState p"
  using receive_told by (simp add: told_def)

lemma desired_monitor_event:
  assumes own: "own_processes sv" and run: "monitor_event D dial e k sv = Some sv'"
  shows "desired sv' = desired sv"
proof (cases e)
  case MonDone
  then show ?thesis
    using run by (auto split: if_splits)
next
  case MonExit
  let ?i = "mo_proc (sv_monitors sv ! k)"
  obtain x q where q: "receive (proc sv ?i) = Some (x, q)" "sv' = set_monitor k Handling (set_proc ?i q sv)"
    using run MonExit by (auto simp: Let_def split: option.splits)
  then show ?thesis
    using desired_unchanged [OF own receive_spec [OF q(1)] receive_expected [OF q(1)]] by simp
next
  case (MonTick t)
  let ?i = "mo_proc (sv_monitors sv ! k)"
  have keep: "desired (set_proc ?i (setStatus st (setError er (proc sv ?i))) sv) = desired sv"
    "desired (set_proc ?i (resetRestartAttempts (setError er (setStatus st (proc sv ?i)))) sv) = desired sv" for st er
    by (rule desired_unchanged [OF own]; simp add: go_defs)+
  show ?thesis
    using run MonTick keep by (auto simp: Let_def split: option.splits if_splits)
qed

lemma desired_stop_dependents:
  assumes "own_processes sv"
  shows "\<exists>N \<subseteq> set ds. desired (stop_dependents D env ds sv) = want_among N DesiredStopped (desired sv)"
  using assms
proof (induction ds arbitrary: sv)
  case Nil
  then show ?case by simp
next
  case (Cons d ds)
  define sv1 where "sv1 = (case sv_processes sv d of None \<Rightarrow> sv
    | Some j \<Rightarrow> if pr_status (proc sv j) \<noteq> StatusStopped then set_proc j (snd (Stop D (env d) (proc sv j))) sv else sv)"
  have own: "own_processes sv1"
    using Cons.prems by (simp add: sv1_def split: option.split)
  have "sv1 = sv \<or> desired sv1 = want_among {d} DesiredStopped (desired sv)"
  proof (cases "sv_processes sv d")
    case (Some j)
    have "desired (set_proc j (snd (Stop D (env d) (proc sv j))) sv) = want_among {d} DesiredStopped (desired sv)"
      using desired_set_proc [OF Cons.prems Some Stop_spec] by (simp add: Stop_expected want_among_one)
    then show ?thesis
      by (simp add: sv1_def Some)
  qed (simp add: sv1_def)
  then have "desired sv1 = want_among {} DesiredStopped (desired sv) \<or> desired sv1 = want_among {d} DesiredStopped (desired sv)"
    by auto
  then obtain M where M: "M \<subseteq> {d}" "desired sv1 = want_among M DesiredStopped (desired sv)"
    by blast
  obtain N where N: "N \<subseteq> set ds" "desired (stop_dependents D env ds sv1) = want_among N DesiredStopped (desired sv1)"
    using Cons.IH [OF own] by blast
  have "stop_dependents D env (d # ds) sv = stop_dependents D env ds sv1"
    by (simp add: sv1_def)
  then show ?case
    using M N by (intro exI [of _ "N \<union> M"]) (auto simp: want_among_twice)
qed

lemma desired_handleFailure:
  assumes own: "own_processes sv" and run: "handleFailure D G scale env nm sv = Ret (r, sv')"
  shows "desired sv' = desired sv \<or> (\<exists>ds. \<exists>N \<subseteq> set ds. DependentsOf G (sv_planner sv) nm = Ret (Inr ds) \<and>
    desired sv' = want_among N DesiredStopped (desired sv))"
proof (cases "sv_processes sv nm")
  case None
  then show ?thesis
    using run by (simp add: handleFailure_def)
next
  case (Some j)
  show ?thesis
  proof (cases "pr_expectedState (proc sv j) = DesiredStopped \<or> pr_expectedState (proc sv j) = DesiredDisabled")
    case True
    then show ?thesis
      using run Some by (simp add: handleFailure_def)
  next
    case False
    obtain deps where deps: "DependentsOf G (sv_planner sv) nm = Ret deps"
      using run Some False by (auto simp: handleFailure_def bind_go_Ret_iff)
    define sv1 where "sv1 = (case deps of Inl e \<Rightarrow> sv | Inr ds \<Rightarrow> stop_dependents D env ds sv)"
    have own1: "own_processes sv1"
      by (rule own_processes_cong [OF own]) (simp_all add: sv1_def split: sum.split)
    obtain p where p: "sv' \<in> {sv1, set_proc j p sv1}" "pr_spec p = pr_spec (proc sv1 j)"
        "pr_expectedState p = pr_expectedState (proc sv1 j)"
    proof -
      obtain dl sv2 where ap: "apply_policy D scale j sv1 = (dl, sv2)"
        by (rule prod.exhaust)
      have "sv' = sv2"
        using run Some False deps ap by (cases dl) (auto simp: handleFailure_def sv1_def [symmetric] Let_def)
      then show thesis
        using ap that [of "incrementRestartAttempts (proc sv1 j)"] that [of "setError er (setStatus st (proc sv1 j))" for er st]
        by (auto simp: apply_policy_def Let_def go_defs split: option.splits if_splits)
    qed
    then have "desired sv' = desired sv1"
      using desired_unchanged [OF own1] by auto
    then show ?thesis
      using desired_stop_dependents [OF own] deps by (cases deps) (auto simp: sv1_def)
  qed
qed

lemma desired_unregistered:
  assumes "\<forall>n. sv_processes sv n \<noteq> Some i"
  shows "desired (set_proc i p sv) = desired sv"
proof
  fix n
  show "desired (set_proc i p sv) n = desired sv n"
  proof (cases "sv_processes sv n")
    case (Some j)
    then have "proc (set_proc i p sv) j = proc sv j"
      using assms by (cases "i = j") (simp_all add: proc_def set_proc_def)
    then show ?thesis
      using Some by (simp add: desired_at)
  qed (simp add: desired_at)
qed

lemma desired_monitor_restart:
  assumes own: "own_processes sv" and run: "monitor_restart S D opts k i sv = Ret sv'"
  shows "desired sv' = desired sv \<or> (\<exists>n. sv_processes sv n = Some i \<and> desired sv' = want n DesiredRunning (desired sv))"
proof -
  obtain e sv1 where go: "startAndNotify S D (sv_ctx sv) opts i sv = Ret (e, sv1)" "sv' = set_monitor k Finished sv1"
    using run by (auto simp: monitor_restart_def bind_go_Ret_iff)
  show ?thesis
  proof (cases "\<exists>n. sv_processes sv n = Some i")
    case True
    then obtain n where n: "sv_processes sv n = Some i" by blast
    from desired_startAndNotify [OF own n go(1)] n show ?thesis
      by (auto simp: go(2))
  next
    case False
    obtain w' p' where "sv1 = (set_proc i p' sv)\<lparr>sv_world := w',
         sv_monitors := sv_monitors sv @ (if e = None then [new_monitor D i p'] else [])\<rparr>"
      by (rule startAndNotify_cases [OF go(1)])
    then show ?thesis
      using desired_unregistered [of sv i] False by (simp add: go(2))
  qed
qed

definition pending :: "('w, 'g, 'i) Supervisor \<Rightarrow> nat \<Rightarrow> bool" where
  "pending sv i \<longleftrightarrow> (\<exists>m \<in> set (sv_monitors sv). \<exists>t. mo_state m = Sleeping i t)"

lemma desired_auto_step:
  assumes "auto_step S D G scale sv sv'" and "own_processes sv"
  shows "desired sv' = desired sv \<or>
    (\<exists>nm ds N. DependentsOf G (sv_planner sv) nm = Ret (Inr ds) \<and> N \<subseteq> set ds \<and>
       desired sv' = want_among N DesiredStopped (desired sv)) \<or>
    (\<exists>n i. sv_processes sv n = Some i \<and> pending sv i \<and> desired sv' = want n DesiredRunning (desired sv))"
  using assms
proof (induction rule: auto_step.induct)
  case (auto_monitor k sv dial e sv')
  then show ?case
    using desired_monitor_event by blast
next
  case (auto_failure k sv envs sv')
  then obtain r sv1 where h: "handleFailure D G scale envs (mo_name (sv_monitors sv ! k)) sv = Ret (r, sv1)"
    "desired sv' = desired sv1"
    by (auto simp: monitor_handle_def bind_go_Ret_iff)
  from desired_handleFailure [OF auto_failure(4) h(1)] show ?case
    unfolding h(2) by blast
next
  case (auto_restart k sv i t opts sv')
  have "pending sv i"
    using nth_mem [OF auto_restart(1)] auto_restart(2) unfolding pending_def by blast
  then show ?case
    using desired_monitor_restart [OF auto_restart(4,3)] by blast
next
  case (auto_child i sv e p')
  then show ?case
    using desired_unchanged [OF auto_child(3) child_step_spec child_step_expected] by blast
next
  case (auto_world sv w)
  then show ?case by simp
qed

section \<open>The refinement\<close>

text \<open>
  C2: The supervisor refines a registry of wishes. In every state that satisfies the invariant
  the effect of each call on what is registered, with which spec, and meant to run, is a
  function of that alone: removing deletes the name; stopping, of one tunnel or all, changes
  only wishes; starting makes a tunnel wanted exactly when its process is idle; enabling and
  disabling that succeed do the same, and otherwise at most that; adding enters a
  new name, as wanted once the supervisor runs, and otherwise nothing; a successful \<open>Run\<close> leaves
  exactly the planned specs, all wanted. Without a call no tunnel appears, disappears or
  changes its spec: dependents of a tunnel may become stopped, and a single tunnel wanted, of
  which a restart was pending.
\<close>

theorem supervisor_refines_desired:
  fixes sv :: "('w, 'g, 'i) Supervisor"
  assumes "graph_library G edges" and "sv_ok S D sv"
  shows "(\<forall>env n. desired (snd (RemoveTunnel D env n sv)) = (desired sv)(n := None)) \<and>
    (\<forall>env n. desired (snd (StopTunnel D env n sv)) = want n DesiredStopped (desired sv)) \<and>
    (\<forall>envs es. enumerates es (sv_processes sv) \<longrightarrow>
      desired (snd (StopAll D envs es sv)) = want_among UNIV DesiredStopped (desired sv)) \<and>
    (\<forall>opts n i r sv'. sv_processes sv n = Some i \<longrightarrow> StartTunnel S D opts n sv = Ret (r, sv') \<longrightarrow>
      desired sv' = (if idle (proc sv i) then want n DesiredRunning (desired sv) else desired sv)) \<and>
    (\<forall>Y opts n r sv'. EnableTunnel S D Y opts n sv = Ret (r, sv') \<longrightarrow>
      desired sv' = want n DesiredRunning (desired sv) \<or> r \<noteq> None \<and> desired sv' = desired sv) \<and>
    (\<forall>Y env n r sv'. DisableTunnel S D Y env n sv = (r, sv') \<longrightarrow>
      desired sv' = want n DesiredStopped (desired sv) \<or> r \<noteq> None \<and> desired sv' = desired sv) \<and>
    (\<forall>Y es es1 es2 opts spec persistent r sv'.
      AddTunnel S D Y G es es1 es2 opts spec persistent sv = Ret (r, sv') \<longrightarrow>
      (r \<noteq> None \<and> desired sv' = desired sv) \<or> desired sv (spec_Name spec) = None \<and>
        desired sv' = enter spec (if sv_ctx sv = None then DesiredStopped else DesiredRunning) (desired sv)) \<and>
    (\<forall>es1 es2 opts ctx r sv'. enumerates es1 (pl_specs (sv_planner sv)) \<longrightarrow> enumerates es2 (pl_specs (sv_planner sv)) \<longrightarrow>
      Run S D G es1 es2 opts ctx sv = Ret (r, sv') \<longrightarrow>
      desired sv' = (if r = None then (\<lambda>n. map_option (\<lambda>s. (s, DesiredRunning)) (pl_specs (sv_planner sv) n))
        else desired sv)) \<and>
    (\<forall>scale sv'. auto_step S D G scale sv sv' \<longrightarrow> desired sv' = desired sv \<or>
      (\<exists>nm ds N. DependentsOf G (sv_planner sv) nm = Ret (Inr ds) \<and> N \<subseteq> set ds \<and>
        desired sv' = want_among N DesiredStopped (desired sv)) \<or>
      (\<exists>n i. sv_processes sv n = Some i \<and> pending sv i \<and> desired sv' = want n DesiredRunning (desired sv)))"
proof -
  note own = sv_ok_own [OF assms(2)]
  show ?thesis
  proof (intro conjI allI impI, goal_cases)
    case (1 env n)
    show ?case by (rule desired_RemoveTunnel [OF own]) (rule prod.collapse [symmetric])
  next
    case (2 env n)
    show ?case by (rule desired_StopTunnel [OF own]) (rule prod.collapse [symmetric])
  next
    case (3 envs es)
    show ?case by (rule desired_StopAll [OF own 3]) (rule prod.collapse [symmetric])
  next
    case (4 opts n i r sv')
    then show ?case by (rule desired_StartTunnel [OF own])
  next
    case (5 Y opts n r sv')
    then show ?case by (rule desired_EnableTunnel [OF own])
  next
    case (6 Y env n r sv')
    then show ?case by (rule desired_DisableTunnel [OF own])
  next
    case (7 Y es es1 es2 opts spec persistent r sv')
    then show ?case by (rule desired_AddTunnel [OF own])
  next
    case (8 es1 es2 opts ctx r sv')
    then show ?case by (rule desired_Run [OF assms])
  next
    case (9 scale sv')
    then show ?case by (rule desired_auto_step [OF _ own])
  qed
qed

lemma supervisor_refines_desired_witness:
  "\<exists>sv :: (mem, adj, nat) Supervisor. desired sv = [''bastion'' \<mapsto> (demo_bastion, DesiredRunning)] \<and>
    desired (snd (StopTunnel demo_durations demo_stop ''bastion'' sv)) = [''bastion'' \<mapsto> (demo_bastion, DesiredStopped)] \<and>
    desired (snd (RemoveTunnel demo_durations demo_stop ''bastion'' sv)) = Map.empty"
proof -
  obtain sv :: "(mem, adj, nat) Supervisor" where sv:
    "sv_reachable mem_os demo_durations demo_yaml adj_ops demo_scale sv" "sv_processes sv = [''bastion'' \<mapsto> 0]"
    "pr_spec (proc sv 0) = demo_bastion" "pr_expectedState (proc sv 0) = DesiredRunning"
    using demo_live by blast
  have d: "desired sv = [''bastion'' \<mapsto> (demo_bastion, DesiredRunning)]"
    by (auto simp: desired_at sv fun_eq_iff)
  have "sv_ok mem_os demo_durations sv"
    by (rule sv_reachable_ok [OF adj_library sv(1)])
  note R = supervisor_refines_desired [OF adj_library this]
  have "desired (snd (StopTunnel demo_durations demo_stop ''bastion'' sv)) = want ''bastion'' DesiredStopped (desired sv)"
    by (rule R [THEN conjunct2, THEN conjunct1, THEN spec, THEN spec])
  moreover have "desired (snd (RemoveTunnel demo_durations demo_stop ''bastion'' sv)) = (desired sv)(''bastion'' := None)"
    by (rule R [THEN conjunct1, THEN spec, THEN spec])
  ultimately show ?thesis
    using d by (intro exI [of _ sv]) (simp add: want_def)
qed

end
