(* ===== verification/Api_Types.thy ===== *)
theory Api_Types
  imports Os
begin

text \<open>
  The messages of \<open>api/v1/tunnel.proto\<close> (the structs of \<open>pkg/api/v1/tunnel.pb.go\<close>) and the
  status errors of gRPC. As for the other messages, a pointer is an option, the runtime's own
  fields are left out and a message without fields is a unit.
\<close>

section \<open>Errors\<close>

text \<open>
  The codes the servers use. An error that is not a status error (a context's, or what
  \<open>stream.Send\<close> returned) has the code \<open>Unknown\<close>.
\<close>

datatype code = NotFound | InvalidArgument | Internal | Unknown

datatype rpc_error = Status_Error code err | Plain_Error err

fun rpc_code :: "rpc_error \<Rightarrow> code" where
  "rpc_code (Status_Error c e) = c"
| "rpc_code (Plain_Error e) = Unknown"

section \<open>Messages of the tunnel service\<close>

record TunnelStatus =
  st_Name :: string
  st_Status :: string
  st_Spec :: "TunnelSpec option"
  st_Error :: string
  st_ResolvedForwards :: "ResolvedForward list"

record StatusRequest = sr_Name :: string
record StatusResponse = sr_Tunnels :: "TunnelStatus list"

record WatchStatusRequest =
  wr_Name :: string
  wr_IntervalMs :: int32

record LogsRequest =
  lr_Name :: string
  lr_Follow :: bool

record LogsResponse = lr_Line :: string
record StartRequest = start_Name :: string
record StopRequest = stop_Name :: string
record EnableRequest = enable_Name :: string
record DisableRequest = disable_Name :: string
record DeleteRequest = delete_Name :: string

record WaitRequest =
  wait_Name :: string
  wait_TimeoutSeconds :: int64

record WaitResponse =
  wait_Status :: string
  wait_ResolvedForwards :: "ResolvedForward list"

record CreateRequest =
  create_Spec :: "TunnelSpec option"
  create_InlineKeys :: "string \<rightharpoonup> bytes"
  create_Persistent :: bool

record UpdateRequest =
  update_Spec :: "TunnelSpec option"
  update_InlineKeys :: "string \<rightharpoonup> bytes"
  update_Persistent :: bool

type_synonym StartResponse = unit
type_synonym StopResponse = unit
type_synonym EnableResponse = unit
type_synonym DisableResponse = unit
type_synonym DeleteResponse = unit
type_synonym CreateResponse = unit
type_synonym UpdateResponse = unit

section \<open>Messages of the key service\<close>

record AddKeyRequest =
  addkey_Name :: string
  addkey_Content :: bytes

record ListKeysResponse = keys_Names :: "string list"
record DeleteKeyRequest = delkey_Name :: string

type_synonym AddKeyResponse = unit
type_synonym DeleteKeyResponse = unit

end
