(* ===== verification/Api_Server.thy ===== *)
theory Api_Server
  imports Api_Types Supervisor_Props
begin

text \<open>
  \<open>internal/api/grpc_server.go\<close> and \<open>internal/api/key_server.go\<close>: the handlers of the two gRPC
  services on the supervisor. A handler returns its response or a status error, with the new
  state of the supervisor. The two streams are functions of what happens while they run.
\<close>

section \<open>Status\<close>

definition toProtoResolvedForwards :: "PortMapping list \<Rightarrow> ResolvedForward list" where
  "toProtoResolvedForwards ms =
    map (\<lambda>m. \<lparr>rf_LocalAddress = pm_LocalAddress m, rf_ConfiguredPort = pm_ConfiguredPort m,
      rf_ActualPort = pm_ActualPort m, rf_RemotePort = pm_RemotePort m\<rparr>) ms"

definition to_status :: "TunnelInfo \<Rightarrow> TunnelStatus" where
  "to_status info =
    \<lparr>st_Name = ti_Name info, st_Status = status_string (ti_Status info),
     st_Spec = Some (spec_ToProto (ti_Spec info)), st_Error = ti_Error info,
     st_ResolvedForwards = toProtoResolvedForwards (ti_PortMappings info)\<rparr>"

definition api_Status :: "(string \<times> nat) list \<Rightarrow> ('w, 'g, 'i) Supervisor \<Rightarrow> StatusRequest \<Rightarrow>
    rpc_error + StatusResponse" where
  "api_Status es sv req =
    (let tunnels = map to_status (filter (\<lambda>info. sr_Name req = [] \<or> ti_Name info = sr_Name req)
        (ListTunnels es sv)) in
     if sr_Name req \<noteq> [] \<and> tunnels = []
     then Inl (Status_Error NotFound (''tunnel '' @ quote (sr_Name req) @ '' not found''))
     else Inr \<lparr>sr_Tunnels = tunnels\<rparr>)"

section \<open>Watching\<close>

definition watch_interval :: "int32 \<Rightarrow> duration" where
  "watch_interval ms =
    (let interval = of_int32 ms * of_int Millisecond in
     if sint interval \<le> 0 then of_int (2 * Second)
     else if sint interval < 200 * Millisecond then of_int (200 * Millisecond)
     else if sint interval > 60 * Second then of_int (60 * Second)
     else interval)"

text \<open>
  One frame: the registry is visited in the order \<open>es\<close>, and \<open>sent\<close> is what \<open>stream.Send\<close>
  returns. The result is the frame that was sent, if one was, and the error that ends the stream.
\<close>

definition watch_send :: "(string \<times> nat) list \<Rightarrow> ('w, 'g, 'i) Supervisor \<Rightarrow> string \<Rightarrow> err option \<Rightarrow>
    StatusResponse option \<times> rpc_error option" where
  "watch_send es sv nm sent =
    (case api_Status es sv \<lparr>sr_Name = nm\<rparr> of
       Inl e \<Rightarrow> if rpc_code e = NotFound \<and> nm = []
         then (Some \<lparr>sr_Tunnels = []\<rparr>, map_option Plain_Error sent) else (None, Some e)
     | Inr resp \<Rightarrow> (Some resp, map_option Plain_Error sent))"

text \<open>
  What the stream's loop selects: its context is done, or the ticker fires, in the state that
  the supervisor has then. \<open>None\<close> as the result: still streaming when the events end.
\<close>

datatype ('w, 'g, 'i) watch_event =
  WatchDone err
| WatchTick "(string \<times> nat) list" "('w, 'g, 'i) Supervisor" "err option"

fun watch_loop :: "string \<Rightarrow> ('w, 'g, 'i) watch_event list \<Rightarrow> StatusResponse list \<times> rpc_error option" where
  "watch_loop nm [] = ([], None)"
| "watch_loop nm (WatchDone e # evs) = ([], Some (Plain_Error e))"
| "watch_loop nm (WatchTick es sv sent # evs) =
    (case watch_send es sv nm sent of
       (f, Some e) \<Rightarrow> (case f of None \<Rightarrow> [] | Some x \<Rightarrow> [x], Some e)
     | (f, None) \<Rightarrow> (case watch_loop nm evs of
         (fs, r) \<Rightarrow> ((case f of None \<Rightarrow> fs | Some x \<Rightarrow> x # fs), r)))"

definition api_WatchStatus :: "(string \<times> nat) list \<Rightarrow> ('w, 'g, 'i) Supervisor \<Rightarrow> err option \<Rightarrow>
    WatchStatusRequest \<Rightarrow> ('w, 'g, 'i) watch_event list \<Rightarrow>
    duration \<times> StatusResponse list \<times> rpc_error option" where
  "api_WatchStatus es sv sent req evs =
    (watch_interval (wr_IntervalMs req), watch_loop (wr_Name req) (WatchTick es sv sent # evs))"

section \<open>Logs\<close>

text \<open>
  What the reader of the log file returns: a whole line, the end of the file after a possibly
  empty rest, or another error. \<open>sent\<close> is what \<open>stream.Send\<close> returns if it is called, \<open>done\<close>
  the context's error if it is done when the loop looks.
\<close>

datatype log_event =
  LogLine string (log_sent: "err option") (log_done: "err option")
| LogEOF string (log_sent: "err option")
| LogFail string err (log_sent: "err option")

definition log_send :: "string \<Rightarrow> err option \<Rightarrow> LogsResponse list \<times> rpc_error option" where
  "log_send line sent =
    (if line \<noteq> [] then ([\<lparr>lr_Line = line\<rparr>], map_option Plain_Error sent) else ([], None))"

fun logs_loop :: "bool \<Rightarrow> log_event list \<Rightarrow> LogsResponse list \<times> (rpc_error option) option" where
  "logs_loop follow [] = ([], None)"
| "logs_loop follow (LogLine line sent dn # evs) =
    (case log_send line sent of
       (out, Some e) \<Rightarrow> (out, Some (Some e))
     | (out, None) \<Rightarrow>
        (case dn of
           Some e \<Rightarrow> (out, Some (Some (Plain_Error e)))
         | None \<Rightarrow> (case logs_loop follow evs of (outs, r) \<Rightarrow> (out @ outs, r))))"
| "logs_loop follow (LogEOF line sent # evs) =
    (case log_send line sent of
       (out, Some e) \<Rightarrow> (out, Some (Some e))
     | (out, None) \<Rightarrow>
        if \<not> follow then (out, Some None)
        else (case logs_loop follow evs of (outs, r) \<Rightarrow> (out @ outs, r)))"
| "logs_loop follow (LogFail line err sent # evs) =
    (case log_send line sent of
       (out, Some e) \<Rightarrow> (out, Some (Some e))
     | (out, None) \<Rightarrow> (out, Some (Some (Status_Error Internal (''error reading logs: '' @ err)))))"

definition api_Logs :: "'w os \<Rightarrow> ('w, 'g, 'i) Supervisor \<Rightarrow> LogsRequest \<Rightarrow> log_event list \<Rightarrow>
    LogsResponse list \<times> (rpc_error option) option" where
  "api_Logs S sv req evs =
    (case GetProcess (lr_Name req) sv of
       Inl e \<Rightarrow> ([], Some (Some (Status_Error NotFound e)))
     | Inr i \<Rightarrow>
        (case os_openread S (sv_world sv) (pr_logPath (proc sv i)) of
           Some (NotExist e) \<Rightarrow> ([], Some None)
         | Some (FileErr e) \<Rightarrow> ([], Some (Some (Status_Error Internal (''failed to open log file: '' @ e))))
         | None \<Rightarrow> logs_loop (lr_Follow req) evs))"

section \<open>Start, stop, enable, disable, wait and delete\<close>

definition internal :: "err option \<Rightarrow> rpc_error + unit" where
  "internal r = (case r of Some e \<Rightarrow> Inl (Status_Error Internal e) | None \<Rightarrow> Inr ())"

definition api_Start :: "'w os \<Rightarrow> duration_ops \<Rightarrow> (string \<times> string) list \<Rightarrow> StartRequest \<Rightarrow>
    ('w, 'g, 'i) Supervisor \<Rightarrow> ((rpc_error + StartResponse) \<times> ('w, 'g, 'i) Supervisor) go" where
  "api_Start S D opts req sv =
    bind_go (StartTunnel S D opts (start_Name req) sv) (\<lambda>(r, sv1). Ret (internal r, sv1))"

definition api_Stop :: "duration_ops \<Rightarrow> stop_env \<Rightarrow> StopRequest \<Rightarrow> ('w, 'g, 'i) Supervisor \<Rightarrow>
    (rpc_error + StopResponse) \<times> ('w, 'g, 'i) Supervisor" where
  "api_Stop D env req sv = (case StopTunnel D env (stop_Name req) sv of (r, sv1) \<Rightarrow> (internal r, sv1))"

definition api_Enable :: "'w os \<Rightarrow> duration_ops \<Rightarrow> yaml_ops \<Rightarrow> (string \<times> string) list \<Rightarrow> EnableRequest \<Rightarrow>
    ('w, 'g, 'i) Supervisor \<Rightarrow> ((rpc_error + EnableResponse) \<times> ('w, 'g, 'i) Supervisor) go" where
  "api_Enable S D Y opts req sv =
    bind_go (EnableTunnel S D Y opts (enable_Name req) sv) (\<lambda>(r, sv1). Ret (internal r, sv1))"

definition api_Disable :: "'w os \<Rightarrow> duration_ops \<Rightarrow> yaml_ops \<Rightarrow> stop_env \<Rightarrow> DisableRequest \<Rightarrow>
    ('w, 'g, 'i) Supervisor \<Rightarrow> (rpc_error + DisableResponse) \<times> ('w, 'g, 'i) Supervisor" where
  "api_Disable S D Y env req sv =
    (case DisableTunnel S D Y env (disable_Name req) sv of (r, sv1) \<Rightarrow> (internal r, sv1))"

definition api_Delete :: "duration_ops \<Rightarrow> stop_env \<Rightarrow> DeleteRequest \<Rightarrow> ('w, 'g, 'i) Supervisor \<Rightarrow>
    (rpc_error + DeleteResponse) \<times> ('w, 'g, 'i) Supervisor" where
  "api_Delete D env req sv =
    (case RemoveTunnel D env (delete_Name req) sv of (r, sv1) \<Rightarrow> (internal r, sv1))"

text \<open>\<open>sv'\<close> is the supervisor when the wait is over, \<open>None\<close> the wait that is not over.\<close>

definition wait_timeout :: "int64 \<Rightarrow> duration" where
  "wait_timeout s =
    (let timeout = s * of_int Second in if timeout = 0 then DefaultWaitTimeout else timeout)"

definition api_Wait :: "WaitRequest \<Rightarrow> wait_event list \<Rightarrow> ('w, 'g, 'i) Supervisor \<Rightarrow>
    ('w, 'g, 'i) Supervisor \<Rightarrow> (rpc_error + WaitResponse) option" where
  "api_Wait req evs sv sv' =
    (case WaitHealthy (wait_Name req) (wait_timeout (wait_TimeoutSeconds req)) evs sv of
       None \<Rightarrow> None
     | Some (st, Some e) \<Rightarrow> Some (Inl (Status_Error Internal e))
     | Some (st, None) \<Rightarrow> Some (Inr
         \<lparr>wait_Status = (case st of None \<Rightarrow> [] | Some x \<Rightarrow> status_string x),
          wait_ResolvedForwards =
            (case GetProcess (wait_Name req) sv' of
               Inl e \<Rightarrow> []
             | Inr i \<Rightarrow> toProtoResolvedForwards (pr_portMappings (proc sv' i)))\<rparr>))"

section \<open>Create and update\<close>

text \<open>\<open>ks\<close> is the order in which the inline keys are visited.\<close>

fun save_keys :: "'w os \<Rightarrow> (string \<times> bytes) list \<Rightarrow> ('w, 'g, 'i) Supervisor \<Rightarrow>
    rpc_error option \<times> ('w, 'g, 'i) Supervisor" where
  "save_keys S [] sv = (None, sv)"
| "save_keys S ((nm, content) # ks) sv =
    (case SaveKey S nm content sv of
       (Some e, sv1) \<Rightarrow>
         (Some (Status_Error Internal (''failed to save inline key '' @ quote nm @ '': '' @ e)), sv1)
     | (None, sv1) \<Rightarrow> save_keys S ks sv1)"

definition request_spec :: "TunnelSpec \<Rightarrow> rpc_error + Spec" where
  "request_spec p =
    (case FromProto p of
       Inl e \<Rightarrow> Inl (Status_Error InvalidArgument (''invalid spec: '' @ e))
     | Inr spec \<Rightarrow> Inr spec)"

definition spec_required :: rpc_error where
  "spec_required = Status_Error InvalidArgument ''spec is required''"

definition api_Create :: "'w os \<Rightarrow> duration_ops \<Rightarrow> yaml_ops \<Rightarrow> ('g, 'i) graph_ops \<Rightarrow>
    (string \<times> bytes) list \<Rightarrow> (string \<times> nat) list \<Rightarrow> (string \<times> Spec) list \<Rightarrow> (string \<times> Spec) list \<Rightarrow>
    (string \<times> string) list \<Rightarrow> CreateRequest \<Rightarrow> ('w, 'g, 'i) Supervisor \<Rightarrow>
    ((rpc_error + CreateResponse) \<times> ('w, 'g, 'i) Supervisor) go" where
  "api_Create S D Y G ks es es1 es2 opts req sv =
    (case create_Spec req of
       None \<Rightarrow> Ret (Inl spec_required, sv)
     | Some p \<Rightarrow>
        (case save_keys S ks sv of
           (Some e, sv1) \<Rightarrow> Ret (Inl e, sv1)
         | (None, sv1) \<Rightarrow>
            (case request_spec p of
               Inl e \<Rightarrow> Ret (Inl e, sv1)
             | Inr spec \<Rightarrow>
                bind_go (AddTunnel S D Y G es es1 es2 opts spec (create_Persistent req) sv1)
                  (\<lambda>(r, sv2). case r of
                     Some e \<Rightarrow>
                       if str_contains e ''already exists'' then Ret (Inr (), sv2)
                       else Ret (Inl (Status_Error Internal e), sv2)
                   | None \<Rightarrow> Ret (Inr (), sv2)))))"

text \<open>
  \<open>peq\<close> is \<open>proto.Equal\<close>. The loop over the tunnels looks for the first one with the name of
  the spec; \<open>es\<close> is the order of that loop, \<open>es'\<close>, \<open>es1\<close> and \<open>es2\<close> those of the loops of \<open>AddTunnel\<close>.
\<close>

definition api_Update :: "'w os \<Rightarrow> duration_ops \<Rightarrow> yaml_ops \<Rightarrow> ('g, 'i) graph_ops \<Rightarrow>
    (TunnelSpec \<Rightarrow> TunnelSpec \<Rightarrow> bool) \<Rightarrow> stop_env \<Rightarrow> (string \<times> bytes) list \<Rightarrow>
    (string \<times> nat) list \<Rightarrow> (string \<times> nat) list \<Rightarrow> (string \<times> Spec) list \<Rightarrow> (string \<times> Spec) list \<Rightarrow>
    (string \<times> string) list \<Rightarrow> UpdateRequest \<Rightarrow> ('w, 'g, 'i) Supervisor \<Rightarrow>
    ((rpc_error + UpdateResponse) \<times> ('w, 'g, 'i) Supervisor) go" where
  "api_Update S D Y G peq env ks es es' es1 es2 opts req sv =
    (case update_Spec req of
       None \<Rightarrow> Ret (Inl spec_required, sv)
     | Some p \<Rightarrow>
        (case save_keys S ks sv of
           (Some e, sv1) \<Rightarrow> Ret (Inl e, sv1)
         | (None, sv1) \<Rightarrow>
            (case request_spec p of
               Inl e \<Rightarrow> Ret (Inl e, sv1)
             | Inr spec \<Rightarrow>
                if (case find (\<lambda>info. ti_Name info = spec_Name spec) (ListTunnels es sv1) of
                      None \<Rightarrow> False
                    | Some info \<Rightarrow> peq (spec_ToProto (ti_Spec info)) (spec_ToProto spec))
                then bind_go (StartTunnel S D opts (spec_Name spec) sv1) (\<lambda>(r, sv2). Ret (internal r, sv2))
                else bind_go (AddTunnel S D Y G es' es1 es2 opts spec (update_Persistent req)
                    (snd (RemoveTunnel D env (spec_Name spec) sv1)))
                  (\<lambda>(r, sv2). Ret (internal r, sv2)))))"

section \<open>Keys\<close>

definition api_AddKey :: "'w os \<Rightarrow> AddKeyRequest \<Rightarrow> ('w, 'g, 'i) Supervisor \<Rightarrow>
    (rpc_error + AddKeyResponse) \<times> ('w, 'g, 'i) Supervisor" where
  "api_AddKey S req sv =
    (if addkey_Name req = [] then (Inl (Status_Error InvalidArgument ''key name is required''), sv)
     else if addkey_Content req = []
     then (Inl (Status_Error InvalidArgument ''key content is required''), sv)
     else (case SaveKey S (addkey_Name req) (addkey_Content req) sv of
       (Some e, sv1) \<Rightarrow> (Inl (Status_Error Internal (''failed to save key: '' @ e)), sv1)
     | (None, sv1) \<Rightarrow> (Inr (), sv1)))"

definition api_ListKeys :: "'w os \<Rightarrow> ('w, 'g, 'i) Supervisor \<Rightarrow> rpc_error + ListKeysResponse" where
  "api_ListKeys S sv =
    (case os_readdir S (sv_world sv) (sv_keyDir sv) of
       Inl (NotExist e) \<Rightarrow> Inr \<lparr>keys_Names = []\<rparr>
     | Inl (FileErr e) \<Rightarrow> Inl (Status_Error Internal (''failed to read key directory: '' @ e))
     | Inr entries \<Rightarrow> Inr \<lparr>keys_Names = map fst (filter (\<lambda>e. \<not> snd e) entries)\<rparr>)"

definition api_DeleteKey :: "'w os \<Rightarrow> DeleteKeyRequest \<Rightarrow> ('w, 'g, 'i) Supervisor \<Rightarrow>
    (rpc_error + DeleteKeyResponse) \<times> ('w, 'g, 'i) Supervisor" where
  "api_DeleteKey S req sv =
    (if delkey_Name req = [] then (Inl (Status_Error InvalidArgument ''key name is required''), sv)
     else (case os_remove S (sv_world sv) (Join2 (sv_keyDir sv) (delkey_Name req)) of
       (Some (NotExist e), w) \<Rightarrow>
         (Inl (Status_Error NotFound (''key '' @ quote (delkey_Name req) @ '' not found'')), sv\<lparr>sv_world := w\<rparr>)
     | (Some (FileErr e), w) \<Rightarrow>
         (Inl (Status_Error Internal (''failed to delete key: '' @ e)), sv\<lparr>sv_world := w\<rparr>)
     | (None, w) \<Rightarrow> (Inr (), sv\<lparr>sv_world := w\<rparr>)))"

end
