(* ===== verification/Api_Props.thy ===== *)
theory Api_Props
  imports Api_Server
begin

text \<open>
  Properties of the gRPC handlers: every call is a sequence of steps of the supervisor, so
  its invariant holds whatever the clients do; what each handler answers and changes.
\<close>

section \<open>Calls are sequences of steps\<close>

lemma SaveKey_world: "\<exists>w. snd (SaveKey S nm content sv) = sv\<lparr>sv_world := w\<rparr>"
  by (auto simp: SaveKey_def split: prod.splits option.splits)

lemma save_keys_world: "\<exists>w. snd (save_keys S ks sv) = sv\<lparr>sv_world := w\<rparr>"
proof (induction ks arbitrary: sv)
  case Nil
  show ?case by (rule exI [of _ "sv_world sv"]) simp
next
  case (Cons k ks)
  obtain nm c where k: "k = (nm, c)"
    by (rule prod.exhaust)
  obtain e sv1 where sk: "SaveKey S nm c sv = (e, sv1)"
    by (rule prod.exhaust)
  obtain w where w: "sv1 = sv\<lparr>sv_world := w\<rparr>"
    using SaveKey_world [of S nm c sv] sk by auto
  show ?case
    using Cons.IH [of sv1] sk by (cases e) (auto simp: k w)
qed

lemma save_keys_fields:
  assumes "save_keys S ks sv = (e, sv1)"
  shows "sv_processes sv1 = sv_processes sv" "sv_heap sv1 = sv_heap sv" "sv_planner sv1 = sv_planner sv"
    "sv_monitors sv1 = sv_monitors sv" "sv_ctx sv1 = sv_ctx sv" "proc sv1 = proc sv"
    "proc_keys sv1 = proc_keys sv"
  using save_keys_world [of S ks sv] assms by (auto simp: proc_def proc_keys_def fun_eq_iff)

text \<open>The calls of the two services that change the state, each with some answer.\<close>

inductive api_call :: "'w os \<Rightarrow> duration_ops \<Rightarrow> yaml_ops \<Rightarrow> ('g, 'i) graph_ops \<Rightarrow>
    (TunnelSpec \<Rightarrow> TunnelSpec \<Rightarrow> bool) \<Rightarrow> ('w, 'g, 'i) Supervisor \<Rightarrow> ('w, 'g, 'i) Supervisor \<Rightarrow> bool"
  for S D Y G peq where
  create: "enumerates es (sv_processes sv) \<Longrightarrow>
    api_Create S D Y G ks es es1 es2 opts req sv = Ret (r, sv') \<Longrightarrow> api_call S D Y G peq sv sv'"
| update: "enumerates es (sv_processes sv) \<Longrightarrow>
    enumerates es' ((sv_processes sv)(spec_Name spec := None)) \<Longrightarrow>
    update_Spec req = Some p \<Longrightarrow> FromProto p = Inr spec \<Longrightarrow>
    api_Update S D Y G peq env ks es es' es1 es2 opts req sv = Ret (r, sv') \<Longrightarrow> api_call S D Y G peq sv sv'"
| start: "api_Start S D opts start_req sv = Ret (r, sv') \<Longrightarrow> api_call S D Y G peq sv sv'"
| stop: "api_Stop D env stop_req sv = (r, sv') \<Longrightarrow> api_call S D Y G peq sv sv'"
| enable: "api_Enable S D Y opts enable_req sv = Ret (r, sv') \<Longrightarrow> api_call S D Y G peq sv sv'"
| disable: "api_Disable S D Y env disable_req sv = (r, sv') \<Longrightarrow> api_call S D Y G peq sv sv'"
| delete: "api_Delete D env delete_req sv = (r, sv') \<Longrightarrow> api_call S D Y G peq sv sv'"
| add_key: "api_AddKey S addkey_req sv = (r, sv') \<Longrightarrow> api_call S D Y G peq sv sv'"
| delete_key: "api_DeleteKey S delkey_req sv = (r, sv') \<Longrightarrow> api_call S D Y G peq sv sv'"

inductive_cases api_callE: "api_call S D Y G peq sv sv'"

definition steps :: "'w os \<Rightarrow> duration_ops \<Rightarrow> yaml_ops \<Rightarrow> ('g, 'i) graph_ops \<Rightarrow> scale \<Rightarrow>
    ('w, 'g, 'i) Supervisor \<Rightarrow> ('w, 'g, 'i) Supervisor \<Rightarrow> bool" where
  "steps S D Y G scale = (sv_step S D Y G scale)\<^sup>*\<^sup>*"

lemma steps_refl [simp]: "steps S D Y G scale sv sv"
  by (simp add: steps_def)

lemma steps_one: "sv_step S D Y G scale sv sv' \<Longrightarrow> steps S D Y G scale sv sv'"
  by (auto simp: steps_def)

lemma steps_then: "sv_step S D Y G scale sv sv1 \<Longrightarrow> steps S D Y G scale sv1 sv' \<Longrightarrow> steps S D Y G scale sv sv'"
  by (auto simp: steps_def intro: converse_rtranclp_into_rtranclp)

lemma steps_reachable:
  "steps S D Y G scale sv sv' \<Longrightarrow> sv_reachable S D Y G scale sv \<Longrightarrow> sv_reachable S D Y G scale sv'"
  unfolding steps_def by (induction rule: rtranclp_induct) (auto intro: sv_reachable.step)

lemma steps_keys:
  assumes "save_keys S ks sv = (e, sv1)" and "steps S D Y G scale sv1 sv'"
  shows "steps S D Y G scale sv sv'"
proof -
  obtain w where w: "sv1 = sv\<lparr>sv_world := w\<rparr>"
    using save_keys_world [of S ks sv] assms(1) by auto
  show ?thesis
    by (rule steps_then [OF sv_step.world assms(2) [unfolded w]])
qed

lemma Create_cases:
  assumes "api_Create S D Y G ks es es1 es2 opts req sv = Ret (r, sv')"
  obtains (no_spec) "create_Spec req = None" "r = Inl spec_required" "sv' = sv"
  | (keys) p e where "create_Spec req = Some p" "save_keys S ks sv = (Some e, sv')" "r = Inl e"
  | (invalid) p e where "create_Spec req = Some p" "save_keys S ks sv = (None, sv')" "request_spec p = Inl e" "r = Inl e"
  | (add) p sv1 spec e where "create_Spec req = Some p" "save_keys S ks sv = (None, sv1)"
      "request_spec p = Inr spec"
      "AddTunnel S D Y G es es1 es2 opts spec (create_Persistent req) sv1 = Ret (e, sv')"
      "r = (case e of None \<Rightarrow> Inr ()
        | Some m \<Rightarrow> if str_contains m ''already exists'' then Inr () else Inl (Status_Error Internal m))"
proof (cases "create_Spec req")
  case None
  show thesis
    by (rule no_spec) (use assms None in \<open>simp_all add: api_Create_def\<close>)
next
  case (Some p)
  obtain ke sv1 where ks: "save_keys S ks sv = (ke, sv1)"
    by (rule prod.exhaust)
  show thesis
  proof (cases ke)
    case (Some e)
    show thesis
      by (rule keys) (use assms \<open>create_Spec req = Some p\<close> ks Some in \<open>auto simp: api_Create_def\<close>)
  next
    case None
    show thesis
    proof (cases "request_spec p")
      case (Inl e)
      show thesis
        by (rule invalid) (use assms Some ks None Inl in \<open>auto simp: api_Create_def\<close>)
    next
      case (Inr spec)
      obtain e sv2 where at: "AddTunnel S D Y G es es1 es2 opts spec (create_Persistent req) sv1 = Ret (e, sv2)"
        using assms Some ks None Inr by (auto simp: api_Create_def bind_go_Ret_iff)
      show thesis
        by (rule add [OF Some _ Inr, of sv1 e]) (use assms Some ks None Inr at in
          \<open>cases e; auto simp: api_Create_def split: if_splits\<close>)+
    qed
  qed
qed

text \<open>Whether \<open>Update\<close> finds the tunnel with an equal spec.\<close>

definition unchanged :: "(TunnelSpec \<Rightarrow> TunnelSpec \<Rightarrow> bool) \<Rightarrow> Spec \<Rightarrow> ('w, 'g, 'i) Supervisor \<Rightarrow> bool" where
  "unchanged peq spec sv \<longleftrightarrow>
    (case sv_processes sv (spec_Name spec) of
       None \<Rightarrow> False
     | Some i \<Rightarrow> peq (spec_ToProto (pr_spec (proc sv i))) (spec_ToProto spec))"

lemma find_info:
  assumes "enumerates es m"
  shows "find (\<lambda>info. ti_Name info = nm) (map (\<lambda>(n, i). tunnel_info n (proc sv i)) es) =
    map_option (\<lambda>i. tunnel_info nm (proc sv i)) (m nm)"
proof -
  have "find (\<lambda>info. ti_Name info = nm) (map (\<lambda>(n, i). tunnel_info n (proc sv i)) es) =
      map_option (\<lambda>i. tunnel_info nm (proc sv i)) (map_of es nm)"
    by (induction es) (auto simp: tunnel_info_def)
  then show ?thesis
    using assms by (simp add: enumerates_def)
qed

lemma unchanged_find:
  assumes "enumerates es (sv_processes sv)"
  shows "(case find (\<lambda>info. ti_Name info = spec_Name spec) (ListTunnels es sv) of
      None \<Rightarrow> False
    | Some info \<Rightarrow> peq (spec_ToProto (ti_Spec info)) (spec_ToProto spec)) \<longleftrightarrow> unchanged peq spec sv"
  unfolding ListTunnels_def find_info [OF assms] unchanged_def
  by (simp add: tunnel_info_def split: option.splits)

lemma Update_cases:
  assumes "api_Update S D Y G peq env ks es es' es1 es2 opts req sv = Ret (r, sv')"
    and "enumerates es (sv_processes sv)"
  obtains (no_spec) "update_Spec req = None" "r = Inl spec_required" "sv' = sv"
  | (keys) p e where "update_Spec req = Some p" "save_keys S ks sv = (Some e, sv')" "r = Inl e"
  | (invalid) p e where "update_Spec req = Some p" "save_keys S ks sv = (None, sv')" "request_spec p = Inl e" "r = Inl e"
  | (same) p sv1 spec e where "update_Spec req = Some p" "save_keys S ks sv = (None, sv1)"
      "request_spec p = Inr spec" "unchanged peq spec sv"
      "StartTunnel S D opts (spec_Name spec) sv1 = Ret (e, sv')" "r = internal e"
  | (replace) p sv1 spec x sv2 e where "update_Spec req = Some p" "save_keys S ks sv = (None, sv1)"
      "request_spec p = Inr spec" "\<not> unchanged peq spec sv"
      "RemoveTunnel D env (spec_Name spec) sv1 = (x, sv2)"
      "AddTunnel S D Y G es' es1 es2 opts spec (update_Persistent req) sv2 = Ret (e, sv')" "r = internal e"
proof (cases "update_Spec req")
  case None
  show thesis
    by (rule no_spec) (use assms None in \<open>simp_all add: api_Update_def\<close>)
next
  case (Some p)
  obtain ke sv1 where ks: "save_keys S ks sv = (ke, sv1)"
    by (rule prod.exhaust)
  note f = save_keys_fields [OF ks]
  show thesis
  proof (cases ke)
    case (Some e)
    show thesis
      by (rule keys) (use assms(1) \<open>update_Spec req = Some p\<close> ks Some in \<open>auto simp: api_Update_def\<close>)
  next
    case None
    show thesis
    proof (cases "request_spec p")
      case (Inl e)
      show thesis
        by (rule invalid) (use assms(1) Some ks None Inl in \<open>auto simp: api_Update_def\<close>)
    next
      case (Inr spec)
      have en: "enumerates es (sv_processes sv1)"
        using assms(2) f(1) by simp
      have un: "unchanged peq spec sv1 = unchanged peq spec sv"
        using f(1,6) by (simp add: unchanged_def split: option.split)
      obtain x sv2 where rem: "RemoveTunnel D env (spec_Name spec) sv1 = (x, sv2)"
        by (rule prod.exhaust)
      have eq: "api_Update S D Y G peq env ks es es' es1 es2 opts req sv =
          (if unchanged peq spec sv
           then bind_go (StartTunnel S D opts (spec_Name spec) sv1) (\<lambda>(r, sv2). Ret (internal r, sv2))
           else bind_go (AddTunnel S D Y G es' es1 es2 opts spec (update_Persistent req) sv2)
             (\<lambda>(r, sv2). Ret (internal r, sv2)))"
        unfolding api_Update_def Some option.case ks prod.case None Inr sum.case
          unchanged_find [OF en] un rem snd_conv ..
      show thesis
      proof (cases "unchanged peq spec sv")
        case True
        with eq assms(1) have "bind_go (StartTunnel S D opts (spec_Name spec) sv1)
            (\<lambda>(r, sv2). Ret (internal r, sv2)) = Ret (r, sv')"
          by simp
        then obtain e where "StartTunnel S D opts (spec_Name spec) sv1 = Ret (e, sv')" "r = internal e"
          by (auto simp: bind_go_Ret_iff)
        then show thesis
          using ks None by (intro same [OF Some _ Inr True, of sv1 e]) simp_all
      next
        case False
        with eq assms(1) have "bind_go (AddTunnel S D Y G es' es1 es2 opts spec (update_Persistent req) sv2)
            (\<lambda>(r, sv2). Ret (internal r, sv2)) = Ret (r, sv')"
          by simp
        then obtain e where "AddTunnel S D Y G es' es1 es2 opts spec (update_Persistent req) sv2 = Ret (e, sv')"
            "r = internal e"
          by (auto simp: bind_go_Ret_iff)
        then show thesis
          using ks None by (intro replace [OF Some _ Inr False rem, of e]) simp_all
      qed
    qed
  qed
qed

lemma request_spec_Inr: "request_spec p = Inr spec \<longleftrightarrow> FromProto p = Inr spec"
  by (auto simp: request_spec_def split: sum.splits)

lemma RemoveTunnel_processes:
  "sv_processes (snd (RemoveTunnel D env nm sv)) = (sv_processes sv)(nm := None)"
  by (auto simp: RemoveTunnel_def split: option.splits)

lemma api_call_steps:
  assumes "api_call S D Y G peq sv sv'"
  shows "steps S D Y G scale sv sv'"
  using assms
proof (cases rule: api_call.cases)
  case (create es ks es1 es2 opts req r)
  from create(2) show ?thesis
  proof (cases rule: Create_cases)
    case (add p sv1 spec e)
    have "enumerates es (sv_processes sv1)"
      using create(1) save_keys_fields(1) [OF add(2)] by simp
    then show ?thesis
      using steps_keys [OF add(2)] steps_one [OF sv_step.add [OF _ add(4)]] by blast
  qed (auto intro: steps_keys)
next
  case (update es es' spec' req p' env ks es1 es2 opts r)
  from update(5,1) show ?thesis
  proof (cases rule: Update_cases)
    case (same p sv1 spec e)
    show ?thesis
      by (rule steps_keys [OF same(2) steps_one [OF sv_step.start [OF same(5)]]])
  next
    case (replace p sv1 spec x sv2 e)
    have "spec = spec'"
      using update(3,4) replace(1,3) by (simp add: request_spec_Inr)
    moreover have "sv_processes sv2 = (sv_processes sv1)(spec_Name spec := None)"
      using RemoveTunnel_processes [of D env "spec_Name spec" sv1] replace(5) by simp
    ultimately have "enumerates es' (sv_processes sv2)"
      using update(2) save_keys_fields(1) [OF replace(2)] by simp
    then show ?thesis
      by (rule steps_keys [OF replace(2) steps_then [OF sv_step.remove [OF replace(5)]
            steps_one [OF sv_step.add [OF _ replace(6)]]]])
  qed (auto intro: steps_keys)
next
  case (start opts req r)
  then show ?thesis
    by (auto simp: api_Start_def bind_go_Ret_iff intro: steps_one sv_step.start)
next
  case (stop env req r)
  then show ?thesis
    by (auto simp: api_Stop_def intro: steps_one sv_step.stop split: prod.splits)
next
  case (enable opts req r)
  then show ?thesis
    by (auto simp: api_Enable_def bind_go_Ret_iff intro: steps_one sv_step.enable)
next
  case (disable env req r)
  then show ?thesis
    by (auto simp: api_Disable_def intro: steps_one sv_step.disable split: prod.splits)
next
  case (delete env req r)
  then show ?thesis
    by (auto simp: api_Delete_def intro: steps_one sv_step.remove split: prod.splits)
next
  case (add_key req r)
  then show ?thesis
    by (auto simp: api_AddKey_def intro: steps_one sv_step.save_key split: if_splits prod.splits option.splits)
next
  case (delete_key req r)
  then show ?thesis
    by (auto simp: api_DeleteKey_def intro: steps_one sv_step.world
        split: if_splits prod.splits option.splits file_err.splits)
qed

section \<open>What the handlers answer\<close>

text \<open>The outcomes of \<open>AddTunnel\<close> with the messages the handlers see.\<close>

definition exists_error :: "Spec \<Rightarrow> err" where
  "exists_error spec = ''tunnel '' @ quote (spec_Name spec) @ '' already exists''"

definition in_conflict :: "Spec \<Rightarrow> ('w, 'g, 'i) Supervisor \<Rightarrow> bool" where
  "in_conflict spec sv \<longleftrightarrow> (\<exists>n i. sv_processes sv n = Some i \<and> proc_keys sv i \<inter> spec_keys spec \<noteq> {})"

lemma checkPortConflicts_Some:
  assumes "checkPortConflicts es spec sv = Some e"
  shows "\<exists>ex key. e = conflict_error spec ex key"
  using first_error_Some [OF assms [unfolded checkPortConflicts_def Let_def]]
  by (auto dest!: first_error_Some split: if_splits) blast

lemma AddTunnel_outcome:
  assumes lib: "graph_library G edges" and ok: "sv_ok S D sv" and es: "enumerates es (sv_processes sv)"
    and es12: "enumerates es1 (pl_specs (AddSpec spec (sv_planner sv)))"
      "enumerates es2 (pl_specs (AddSpec spec (sv_planner sv)))"
    and wf: "wf_spec spec"
    and pers: "persistent \<longrightarrow> ts_Health (spec_ToProto spec) \<noteq> None \<and> ts_Restart (spec_ToProto spec) \<noteq> None"
  obtains (taken) "sv_processes sv (spec_Name spec) \<noteq> None"
      "AddTunnel S D Y G es es1 es2 opts spec persistent sv = Ret (Some (exists_error spec), sv)"
  | (conflict) ex key where "sv_processes sv (spec_Name spec) = None" "in_conflict spec sv"
      "AddTunnel S D Y G es es1 es2 opts spec persistent sv = Ret (Some (conflict_error spec ex key), sv)"
  | (added) r sv' where "sv_processes sv (spec_Name spec) = None" "\<not> in_conflict spec sv"
      "AddTunnel S D Y G es es1 es2 opts spec persistent sv = Ret (r, sv')" "registered_new spec sv sv'"
  | (failed) e sv' where "sv_processes sv (spec_Name spec) = None" "\<not> in_conflict spec sv"
      "AddTunnel S D Y G es es1 es2 opts spec persistent sv = Ret (Some e, sv')"
      "sv_processes sv' = sv_processes sv" "sv_heap sv' = sv_heap sv"
proof -
  obtain r sv' where run: "AddTunnel S D Y G es es1 es2 opts spec persistent sv = Ret (r, sv')"
    and dec: "if sv_processes sv (spec_Name spec) \<noteq> None \<or> in_conflict spec sv
       then r \<noteq> None \<and> sv' = sv
       else registered_new spec sv sv' \<or>
         (r \<noteq> None \<and> sv_processes sv' = sv_processes sv \<and> sv_heap sv' = sv_heap sv)"
    using AddTunnel_decides [OF lib ok es es12 wf mp [OF pers]] unfolding in_conflict_def by blast
  show thesis
  proof (cases "sv_processes sv (spec_Name spec)")
    case (Some i)
    show thesis
      by (rule taken) (simp_all add: Some AddTunnel_def exists_error_def)
  next
    case name: None
    show thesis
    proof (cases "in_conflict spec sv")
      case True
      have "checkPortConflicts es spec sv \<noteq> None"
        using True enumerates_mem [OF es] unfolding checkPortConflicts_None in_conflict_def by fastforce
      then obtain e where e: "checkPortConflicts es spec sv = Some e"
        by blast
      then obtain ex key where "e = conflict_error spec ex key"
        using checkPortConflicts_Some [OF e] by blast
      then show thesis
        using name True e by (intro conflict [of ex key]) (simp_all add: AddTunnel_def)
    next
      case False
      then show thesis
        using name dec run added failed by auto
    qed
  qed
qed

lemma contains_exists: "str_contains (exists_error spec) ''already exists''"
  unfolding str_contains_iff exists_error_def
  by (rule exI [of _ "''tunnel '' @ quote (spec_Name spec) @ '' ''"], rule exI [of _ "[]"]) simp

lemma contains_conflict:
  assumes "str_contains (spec_Name spec) ''already exists''"
  shows "str_contains (conflict_error spec ex key) ''already exists''"
proof -
  obtain us vs where nm: "spec_Name spec = us @ ''already exists'' @ vs"
    using assms unfolding str_contains_iff by blast
  have "quote (spec_Name spec) =
      ([CHR 0x22] @ concat (map quote_char us)) @ ''already exists'' @ (concat (map quote_char vs) @ [CHR 0x22])"
    unfolding nm by (simp add: quote_def quote_char_def)
  then show ?thesis
    unfolding str_contains_iff conflict_error_def
    by (intro exI [of _ "''port conflict: '' @ [CHR 0x22] @ concat (map quote_char us)"]
        exI [of _ "(concat (map quote_char vs) @ [CHR 0x22]) @ '' and '' @ quote (spec_Name ex) @ '' both claim '' @ key"]) simp
qed

lemma sv_ok_keys: "save_keys S ks sv = (e, sv1) \<Longrightarrow> sv_ok S D sv \<Longrightarrow> sv_ok S D sv1"
  by (rule sv_ok_frame) (simp_all add: save_keys_fields)

lemma in_conflict_keys: "save_keys S ks sv = (e, sv1) \<Longrightarrow> in_conflict spec sv1 = in_conflict spec sv"
  by (simp only: in_conflict_def save_keys_fields [of S ks sv e sv1])



definition forget :: "string \<Rightarrow> ('w, 'g, 'i) Supervisor \<Rightarrow> ('w, 'g, 'i) Supervisor" where
  "forget nm sv = sv\<lparr>sv_processes := (sv_processes sv)(nm := None)\<rparr>"

lemma in_conflict_cong:
  assumes "sv_processes sv' = sv_processes sv"
    and "\<And>n i. sv_processes sv n = Some i \<Longrightarrow> pr_spec (proc sv' i) = pr_spec (proc sv i)"
  shows "in_conflict spec sv' = in_conflict spec sv"
  unfolding in_conflict_def proc_keys_spec assms(1)
  by (intro iff_exI conj_cong refl) (simp add: assms(2))

lemma RemoveTunnel_conflict:
  assumes "sv_ok S D sv"
  shows "in_conflict spec (snd (RemoveTunnel D env nm sv)) = in_conflict spec (forget nm sv)"
proof (rule in_conflict_cong)
  show "sv_processes (snd (RemoveTunnel D env nm sv)) = sv_processes (forget nm sv)"
    by (simp add: RemoveTunnel_processes forget_def)
next
  fix n j
  assume "sv_processes (forget nm sv) n = Some j"
  then have "sv_processes sv n = Some j"
    by (simp add: forget_def split: if_splits)
  note j = sv_ok_registered(1) [OF assms this]
  have "proc (forget nm sv) j = proc sv j"
    by (simp add: forget_def proc_def)
  then show "pr_spec (proc (snd (RemoveTunnel D env nm sv)) j) = pr_spec (proc (forget nm sv) j)"
    using j by (cases "sv_processes sv nm = Some j")
      (auto simp: RemoveTunnel_def proc_def set_proc_def nth_list_update Stop_spec split: option.splits)
qed

lemma RemoveTunnel_planner:
  "pl_specs (AddSpec spec (sv_planner (snd (RemoveTunnel D env (spec_Name spec) sv)))) =
    pl_specs (AddSpec spec (sv_planner sv))"
  by (auto simp: RemoveTunnel_def split: option.splits)

lemma AddTunnel_answered:
  assumes "graph_library G edges" and "sv_ok S D sv" and "enumerates es' (sv_processes sv)"
    and "enumerates es1 (pl_specs (AddSpec spec (sv_planner sv)))" and "enumerates es2 (pl_specs (AddSpec spec (sv_planner sv)))"
    and "wf_spec spec" and "sv_processes sv (spec_Name spec) = None"
    and "persistent \<longrightarrow> ts_Health (spec_ToProto spec) \<noteq> None \<and> ts_Restart (spec_ToProto spec) \<noteq> None"
  shows "\<exists>r sv'. bind_go (AddTunnel S D Y G es' es1 es2 opts spec persistent sv) (\<lambda>(r, sv2). Ret (internal r, sv2)) = Ret (r, sv') \<and>
    (registered_new spec sv sv' \<or> (\<exists>e. r = Inl (Status_Error Internal e)) \<and> sv_processes sv' = sv_processes sv) \<and>
    (in_conflict spec sv \<longrightarrow> (\<exists>e. r = Inl (Status_Error Internal e)) \<and> sv_processes sv' = sv_processes sv)"
proof (rule AddTunnel_outcome [OF assms(1-6,8), of Y opts], goal_cases taken conflict added failed)
  case taken
  then show ?case by (simp add: assms(7))
next
  case conflict: (conflict ex key)
  show ?case unfolding conflict(3) by (simp add: internal_def)
next
  case added: (added r sv')
  show ?case using added(2,4) unfolding added(3) by simp
next
  case failed: (failed e sv')
  show ?case using failed(2,4) unfolding failed(3) by (simp add: internal_def)
qed





section \<open>Status and its stream\<close>

lemma Status_cases:
  assumes "enumerates es (sv_processes sv)" and "nm \<noteq> []"
  shows "api_Status es sv \<lparr>sr_Name = nm\<rparr> =
    (case sv_processes sv nm of
       None \<Rightarrow> Inl (Status_Error NotFound (''tunnel '' @ quote nm @ '' not found''))
     | Some i \<Rightarrow> Inr \<lparr>sr_Tunnels = [to_status (tunnel_info nm (proc sv i))]\<rparr>)"
proof -
  have "filter (\<lambda>info. ti_Name info = nm) (map (\<lambda>(n, i). tunnel_info n (proc sv i)) es) =
      (case map_of es nm of None \<Rightarrow> [] | Some i \<Rightarrow> [tunnel_info nm (proc sv i)])"
    using enumerates_distinct [OF assms(1)]
  proof (induction es)
    case (Cons e es)
    have "map_of es (fst e) = None"
      using Cons.prems by (simp add: map_of_eq_None_iff)
    with Cons show ?case
      by (cases e) (auto simp: tunnel_info_def split: option.splits)
  qed simp
  moreover have "map_of es = sv_processes sv"
    using assms(1) by (simp add: enumerates_def)
  ultimately show ?thesis
    using assms(2) by (simp add: api_Status_def ListTunnels_def split: option.splits)
qed

lemma Status_all:
  "api_Status es sv \<lparr>sr_Name = []\<rparr> =
    Inr \<lparr>sr_Tunnels = map (\<lambda>(n, i). to_status (tunnel_info n (proc sv i))) es\<rparr>"
  by (simp add: api_Status_def ListTunnels_def comp_def split_def)

text \<open>
  \<open>Status\<close> without a name lists every registered tunnel once, with the status, error,
  spec and resolved ports of its process; with a name it returns that tunnel alone, or
  \<open>NotFound\<close> exactly when no tunnel of the name is registered.
\<close>

theorem Status_correct:
  assumes "enumerates es (sv_processes sv)"
  shows "(\<exists>resp. api_Status es sv \<lparr>sr_Name = []\<rparr> = Inr resp \<and>
      distinct (map st_Name (sr_Tunnels resp)) \<and>
      set (sr_Tunnels resp) = {to_status (tunnel_info n (proc sv i)) | n i. sv_processes sv n = Some i}) \<and>
    (\<forall>nm. nm \<noteq> [] \<longrightarrow> api_Status es sv \<lparr>sr_Name = nm\<rparr> =
      (case sv_processes sv nm of
         None \<Rightarrow> Inl (Status_Error NotFound (''tunnel '' @ quote nm @ '' not found''))
       | Some i \<Rightarrow> Inr \<lparr>sr_Tunnels = [to_status (tunnel_info nm (proc sv i))]\<rparr>))"
proof -
  have "map st_Name (map (\<lambda>(n, i). to_status (tunnel_info n (proc sv i))) es) = map fst es"
    by (auto simp: to_status_def tunnel_info_def)
  then have "distinct (map st_Name (map (\<lambda>(n, i). to_status (tunnel_info n (proc sv i))) es))"
    using enumerates_distinct [OF assms] by (simp only:)
  moreover have "set (map (\<lambda>(n, i). to_status (tunnel_info n (proc sv i))) es) =
      {to_status (tunnel_info n (proc sv i)) | n i. sv_processes sv n = Some i}"
    using enumerates_mem [OF assms] by force
  ultimately show ?thesis
    using Status_cases [OF assms] unfolding Status_all by simp
qed

lemma Status_correct_witness:
  "\<exists>sv :: (mem, adj, nat) Supervisor. sv_processes sv = [''bastion'' \<mapsto> 0] \<and>
    api_Status [(''bastion'', 0)] sv \<lparr>sr_Name = ''bastion''\<rparr> =
      Inr \<lparr>sr_Tunnels = [to_status (tunnel_info ''bastion'' (proc sv 0))]\<rparr>"
proof -
  obtain sv :: "(mem, adj, nat) Supervisor" where sv: "sv_processes sv = [''bastion'' \<mapsto> 0]"
    using demo_registered by blast
  have "enumerates [(''bastion'', 0)] (sv_processes sv)"
    by (simp add: enumerates_def sv)
  from Status_correct [OF this] sv show ?thesis
    by (intro exI [of _ sv]) simp
qed

lemma sint_ms: "sint (of_int32 ms * of_int Millisecond) = sint ms * Millisecond"
proof -
  have r: "- (2 ^ 31) \<le> sint ms" "sint ms < 2 ^ 31"
    using sint_range_size [of ms] by (simp_all add: word_size)
  have "sint (of_int32 ms * of_int Millisecond) = signed_take_bit 63 (sint ms * Millisecond)"
    by (simp add: signed_take_bit_mult sint_word_ariths Millisecond_def)
  also have "\<dots> = sint ms * Millisecond"
    using r by (intro signed_take_bit_int_eq_self) (simp_all add: Millisecond_def)
  finally show ?thesis .
qed

text \<open>
  The interval of the status stream is the requested one, clamped to 200 ms and 60 s, or
  2 s when the request asks for none or for a negative one; no request overflows.
\<close>

theorem watch_interval_bounds:
  "sint (watch_interval ms) =
    (if sint ms \<le> 0 then 2 * Second
     else max (200 * Millisecond) (min (60 * Second) (sint ms * Millisecond)))"
proof -
  have pos: "sint ms * Millisecond \<le> 0 \<longleftrightarrow> sint ms \<le> 0"
    by (simp add: Millisecond_def mult_le_0_iff)
  have c: "sint (of_int (2 * Second) :: duration) = 2 * Second"
    "sint (of_int (200 * Millisecond) :: duration) = 200 * Millisecond"
    "sint (of_int (60 * Second) :: duration) = 60 * Second"
    by (simp_all add: Second_def Millisecond_def)
  have le: "200 * Millisecond \<le> 60 * Second"
    by (simp add: Second_def Millisecond_def)
  show ?thesis
    unfolding watch_interval_def Let_def if_distrib [of sint] c sint_ms pos using le by auto
qed

definition watch_frame :: "string \<Rightarrow> (string \<times> nat) list \<times> ('w, 'g, 'i) Supervisor \<Rightarrow> StatusResponse" where
  "watch_frame nm ob =
    \<lparr>sr_Tunnels = map (\<lambda>(n, i). to_status (tunnel_info n (proc (snd ob) i)))
       (filter (\<lambda>e. nm = [] \<or> fst e = nm) (fst ob))\<rparr>"

lemma watch_send_ok:
  assumes "enumerates es (sv_processes sv)"
  shows "watch_send es sv nm None =
    (if nm = [] \<or> sv_processes sv nm \<noteq> None then (Some (watch_frame nm (es, sv)), None)
     else (None, Some (Status_Error NotFound (''tunnel '' @ quote nm @ '' not found''))))"
proof (cases "nm = []")
  case True
  then show ?thesis
    by (simp add: watch_send_def Status_all watch_frame_def)
next
  case False
  have m: "map_of es = sv_processes sv"
    using assms by (simp add: enumerates_def)
  have "filter (\<lambda>e. fst e = nm) es = (case map_of es nm of None \<Rightarrow> [] | Some i \<Rightarrow> [(nm, i)])"
    using enumerates_distinct [OF assms]
  proof (induction es)
    case (Cons e es)
    have "map_of es (fst e) = None"
      using Cons.prems by (simp add: map_of_eq_None_iff)
    with Cons show ?case
      by (cases e) (auto split: option.splits)
  qed simp
  with False show ?thesis
    unfolding watch_send_def Status_cases [OF assms False]
    by (simp add: m watch_frame_def split: option.splits)
qed

lemma watch_loop_ticks:
  assumes "\<forall>ob \<in> set obs. watch_send (fst ob) (snd ob) nm None =
      (if P ob then (Some (f ob), None) else (None, Some e))"
  shows "watch_loop nm (map (\<lambda>ob. WatchTick (fst ob) (snd ob) None) obs) =
    (map f (takeWhile P obs), if takeWhile P obs = obs then None else Some e)"
  using assms by (induction obs) (auto simp: takeWhile_eq_all_conv [THEN iffD2])

text \<open>
  C30: A status stream whose frames the client receives: the first frame is sent at once, one
  follows at every tick with the tunnels as they are then. A stream of all tunnels goes on
  until the client leaves; a stream of one tunnel ends with \<open>NotFound\<close> at the first tick at
  which no tunnel of the name is registered.
\<close>

theorem WatchStatus_correct:
  assumes "\<forall>ob \<in> set (ob0 # obs). enumerates (fst ob) (sv_processes (snd ob))"
  shows "snd (api_WatchStatus (fst ob0) (snd ob0) None req (map (\<lambda>ob. WatchTick (fst ob) (snd ob) None) obs)) =
    (let seen = takeWhile (\<lambda>ob. wr_Name req = [] \<or> sv_processes (snd ob) (wr_Name req) \<noteq> None) (ob0 # obs) in
     (map (watch_frame (wr_Name req)) seen,
      if seen = ob0 # obs then None
      else Some (Status_Error NotFound (''tunnel '' @ quote (wr_Name req) @ '' not found''))))"
proof -
  let ?nm = "wr_Name req"
  let ?P = "\<lambda>ob. ?nm = [] \<or> sv_processes (snd ob) ?nm \<noteq> None"
  have "\<forall>ob \<in> set (ob0 # obs). watch_send (fst ob) (snd ob) ?nm None =
      (if ?P ob then (Some (watch_frame ?nm ob), None)
       else (None, Some (Status_Error NotFound (''tunnel '' @ quote ?nm @ '' not found''))))"
    using assms watch_send_ok by fastforce
  from watch_loop_ticks [OF this] show ?thesis
    by (simp add: api_WatchStatus_def Let_def del: watch_loop.simps takeWhile.simps)
qed

lemma WatchStatus_correct_witness:
  "snd (api_WatchStatus [] demo_sv None \<lparr>wr_Name = ''web'', wr_IntervalMs = 0\<rparr>
      (map (\<lambda>ob. WatchTick (fst ob) (snd ob) None) [])) =
    ([], Some (Status_Error NotFound (''tunnel '' @ quote ''web'' @ '' not found'')))"
  using WatchStatus_correct [of "([], demo_sv)" "[]" "\<lparr>wr_Name = ''web'', wr_IntervalMs = 0\<rparr>"]
  by (simp add: enumerates_def)

section \<open>Waiting\<close>

text \<open>
  The timeout of \<open>Wait\<close> is exact up to 9223372036 seconds, with 30 s for zero. Beyond, the
  conversion to nanoseconds overflows: from 9223372037 to 18446744073 seconds the timeout is
  negative, and a wait for a tunnel that is still starting fails at its first look.
\<close>

theorem wait_timeout_overflow:
  "(\<bar>sint s\<bar> \<le> 9223372036 \<longrightarrow> sint (wait_timeout s) = (if s = 0 then 30 * Second else sint s * Second)) \<and>
   (9223372037 \<le> sint s \<and> sint s \<le> 18446744073 \<longrightarrow> sint (wait_timeout s) < 0 \<and>
     (\<forall>sv sv' i nm t evs. sv_processes sv nm = Some i \<longrightarrow> pr_status (proc sv i) = StatusStarting \<longrightarrow> 0 \<le> t \<longrightarrow>
       api_Wait \<lparr>wait_Name = nm, wait_TimeoutSeconds = s\<rparr> (WaitTick StatusStarting t # evs) sv sv' =
         Some (Inl (Status_Error Internal ''timeout waiting for health''))))"
proof -
  have prod: "sint (s * of_int Second) = signed_take_bit 63 (sint s * Second)"
    by (simp add: signed_take_bit_mult sint_word_ariths Second_def)
  have small: "sint (wait_timeout s) = (if s = 0 then 30 * Second else sint s * Second)"
    if "\<bar>sint s\<bar> \<le> 9223372036"
  proof -
    have e: "sint (s * of_int Second) = sint s * Second"
      unfolding prod using that by (intro signed_take_bit_int_eq_self) (auto simp: Second_def)
    have z: "s * of_int Second = 0 \<longleftrightarrow> s = 0"
    proof
      assume "s * of_int Second = 0"
      then have "sint s * Second = 0"
        using e by simp
      then have "sint s = sint (0 :: int64)"
        by (simp add: Second_def)
      then show "s = 0"
        by (rule signed_word_eqI)
    qed simp
    have d: "sint DefaultWaitTimeout = 30 * Second"
      by (simp add: DefaultWaitTimeout_def Second_def)
    show ?thesis
      unfolding wait_timeout_def Let_def z using e d by simp
  qed
  have big: "sint (s * of_int Second) < 0" if "9223372037 \<le> sint s" "sint s \<le> 18446744073"
  proof -
    have "signed_take_bit 63 (sint s * Second) = sint s * Second - 2 ^ 64"
    proof -
      have "signed_take_bit 63 (sint s * Second) = signed_take_bit 63 (sint s * Second - 2 ^ 64)"
        by (rule signed_take_bit_eq_iff_take_bit_eq [THEN iffD2]) (simp add: take_bit_eq_mod)
      also have "\<dots> = sint s * Second - 2 ^ 64"
        using that by (intro signed_take_bit_int_eq_self) (simp_all add: Second_def)
      finally show ?thesis .
    qed
    then show ?thesis
      unfolding prod using that by (simp add: Second_def)
  qed
  have neg: "wait_timeout s = s * of_int Second" if "sint (s * of_int Second) < 0"
    using that by (auto simp: wait_timeout_def Let_def)
  show ?thesis
    using small big neg by (auto simp: api_Wait_def WaitHealthy_def)
qed

text \<open>
  C31: A tunnel can be waited for: the ticker of \<open>WaitHealthy\<close> ticks every 500 ms, so its k-th tick is
  read no earlier than that. Then \<open>Wait\<close> always answers, whatever the tunnel does and whether or
  not it exists, after at most two ticks for every second of the timeout (30 s when it is zero)
  and one more. Timeouts from 9223372037 to 18446744073 seconds overflow the conversion to
  nanoseconds: of these waits none sees a second tick.
\<close>

theorem Wait_returns:
  assumes "\<forall>k < length evs. \<forall>st t. evs ! k = WaitTick st t \<longrightarrow> (int k + 1) * 500000000 \<le> t"
    and "\<bar>sint s\<bar> \<le> 9223372036 \<and> 2 * nat (if s = 0 then 30 else sint s) < length evs \<or>
      9223372037 \<le> sint s \<and> sint s \<le> 18446744073 \<and> evs \<noteq> []"
  shows "\<exists>r. api_Wait \<lparr>wait_Name = nm, wait_TimeoutSeconds = s\<rparr> evs sv sv' = Some r"
proof -
  let ?L = "sint (wait_timeout s)"
  have nz: "wait_timeout s \<noteq> 0"
    by (auto simp: wait_timeout_def DefaultWaitTimeout_def Second_def Let_def)
  have late: "?L < (int (length evs - 1) + 1) * 500000000" and ne: "evs \<noteq> []"
    using assms(2) wait_timeout_overflow [of s] by (auto simp: Second_def split: if_splits)
  have "wait_loop policy (wait_timeout s) evs \<noteq> None" for policy
  proof (cases "last evs")
    case (WaitDone st e)
    then show ?thesis
      using ne last_in_set [of evs] wait_loop_done by metis
  next
    case (WaitTick st t)
    then have "evs ! (length evs - 1) = WaitTick st t"
      using ne by (simp add: last_conv_nth)
    then have "(int (length evs - 1) + 1) * 500000000 \<le> t"
      using assms(1) ne by simp
    with late have "?L < t"
      by linarith
    then show ?thesis
      using WaitTick ne last_in_set [of evs] wait_loop_ends by metis
  qed
  then have "WaitHealthy nm (wait_timeout s) evs sv \<noteq> None"
    using nz by (simp add: WaitHealthy_def del: not_None_eq split: option.split)
  then obtain st e where "WaitHealthy nm (wait_timeout s) evs sv = Some (st, e)"
    by auto
  then show ?thesis
    by (cases e) (simp_all add: api_Wait_def)
qed

lemma Wait_returns_witness:
  "\<exists>r. api_Wait \<lparr>wait_Name = ''web'', wait_TimeoutSeconds = 1\<rparr>
      [WaitTick StatusStarting 500000000, WaitTick StatusStarting 1000000000, WaitTick StatusStarting 1500000000]
      demo_sv demo_sv = Some r"
  by (rule Wait_returns) (auto simp: nth_Cons split: nat.splits)

section \<open>Logs\<close>

text \<open>What has been sent, put together.\<close>

definition sent_text :: "LogsResponse list \<Rightarrow> string" where
  "sent_text out = concat (map lr_Line out)"

lemma logs_lines:
  assumes "\<forall>l \<in> set ls. l \<noteq> []"
  shows "logs_loop follow (map (\<lambda>l. LogLine l None None) ls @ evs) =
    (map (\<lambda>l. \<lparr>lr_Line = l\<rparr>) ls @ fst (logs_loop follow evs), snd (logs_loop follow evs))"
  using assms by (induction ls) (simp_all add: log_send_def split_def)

text \<open>
  Following no further, \<open>Logs\<close> of a registered tunnel whose file can be opened sends the
  whole file, the last line without its newline included, and then ends without an error.
  Following, it never ends at the end of the file, and as it looks at the client's context
  after a whole line only, it does not notice on a quiet log that the client has left.
\<close>

theorem Logs_correct:
  assumes "sv_processes sv (lr_Name req) = Some i"
    and "os_openread S (sv_world sv) (pr_logPath (proc sv i)) = None"
    and "\<forall>l \<in> set ls. l \<noteq> []"
  shows "if lr_Follow req
    then \<exists>out. api_Logs S sv req (map (\<lambda>l. LogLine l None None) ls @ LogEOF rest None # replicate k (LogEOF [] None))
        = (out, None) \<and> sent_text out = concat ls @ rest
    else \<exists>out. api_Logs S sv req (map (\<lambda>l. LogLine l None None) ls @ LogEOF rest None # evs)
        = (out, Some None) \<and> sent_text out = concat ls @ rest"
proof -
  have api: "api_Logs S sv req evs = logs_loop (lr_Follow req) evs" for evs
    using assms(1,2) by (simp add: api_Logs_def GetProcess_def)
  have quiet: "logs_loop True (replicate k (LogEOF [] None)) = ([], None)"
    by (induction k) (simp_all add: log_send_def)
  have sent: "concat (map (lr_Line \<circ> (\<lambda>l. \<lparr>lr_Line = l\<rparr>)) ls) = concat ls"
    by (simp add: comp_def)
  show ?thesis
    unfolding api logs_lines [OF assms(3)]
    using quiet sent by (auto simp: log_send_def sent_text_def)
qed

lemma Logs_correct_witness:
  "\<exists>(sv :: (mem, adj, nat) Supervisor) out. sv_processes sv = [''bastion'' \<mapsto> 0] \<and>
    api_Logs mem_os (sv\<lparr>sv_world := mem0\<lparr>mem_files := [(pr_logPath demo_process, [])]\<rparr>\<rparr>)
      \<lparr>lr_Name = ''bastion'', lr_Follow = False\<rparr> [LogLine ''up'' None None, LogEOF ''x'' None] = (out, Some None) \<and>
    sent_text out = ''upx''"
proof -
  obtain sv :: "(mem, adj, nat) Supervisor" where sv: "sv_processes sv = [''bastion'' \<mapsto> 0]"
      "sv_heap sv = [demo_process]"
    unfolding demo_process_def using demo_registered by blast
  let ?sv = "sv\<lparr>sv_world := mem0\<lparr>mem_files := [(pr_logPath demo_process, [])]\<rparr>\<rparr>"
  have "os_openread mem_os (sv_world ?sv) (pr_logPath (proc ?sv 0)) = None"
    by (simp add: proc_def sv)
  from Logs_correct [of ?sv "\<lparr>lr_Name = ''bastion'', lr_Follow = False\<rparr>", OF _ this, where ls = "[''up'']" and rest = "''x''" and evs = "[]"] sv(1)
  show ?thesis
    by (intro exI [of _ sv]) auto
qed

section \<open>Keys\<close>

lemma foldl_clean_snoc: "foldl (clean_step b) out (xs @ [x]) = clean_step b (foldl (clean_step b) out xs) x"
  by simp

lemma Join2_parent:
  assumes "d \<noteq> []" and "plain_name x"
  shows "Join2 (d @ CHR ''/'' # x) (''../'' @ n) = Join2 d n"
proof -
  have x: "split_slash x = [x]" "x \<noteq> []" "x \<noteq> ''.''" "x \<noteq> ''..''"
    using assms(2) by (auto simp: plain_name_def split_slash_no_slash)
  have up: "split_slash (''../'' @ n) = ''..'' # split_slash n"
    using split_slash_append [of "''..''" n] by simp
  have l: "split_slash ((d @ CHR ''/'' # x) @ CHR ''/'' # ''../'' @ n) = split_slash d @ x # ''..'' # split_slash n"
    unfolding split_slash_append x(1) up by simp
  have r: "split_slash (d @ CHR ''/'' # n) = split_slash d @ split_slash n"
    by (rule split_slash_append)
  have root: "is_rooted ((d @ CHR ''/'' # x) @ CHR ''/'' # ''../'' @ n) = is_rooted d"
    "is_rooted (d @ CHR ''/'' # n) = is_rooted d"
    using assms(1) by simp_all
  have "foldl (clean_step (is_rooted d)) [] (split_slash d @ x # ''..'' # split_slash n) =
      foldl (clean_step (is_rooted d)) [] (split_slash d @ split_slash n)"
    using x by simp
  then show ?thesis
    using assms(1) unfolding Join2_def Clean_def l r root by simp
qed



end
