(* ===== verification/Map_Order.thy ===== *)
theory Map_Order
  imports Prelude "HOL-Library.List_Lexorder" "HOL-Library.Char_ord"
begin

text \<open>The entries of a finite map in the order of its names: one of the orders in which a loop can visit it.\<close>

definition sorted_entries :: "(string \<rightharpoonup> 'v) \<Rightarrow> (string \<times> 'v) list" where
  "sorted_entries m = map (\<lambda>k. (k, the (m k))) (sorted_list_of_set (dom m))"

lemma sorted_entries_enumerates:
  assumes "finite (dom m)"
  shows "enumerates (sorted_entries m) m"
proof -
  have "map_of (map (\<lambda>k. (k, the (m k))) ks) = m |` set ks" if "set ks \<subseteq> dom m" for ks
    using that by (induction ks) (auto simp: restrict_map_def fun_eq_iff dom_def)
  from this [of "sorted_list_of_set (dom m)"] assms show ?thesis
    by (simp add: enumerates_def sorted_entries_def comp_def restrict_map_def fun_eq_iff domIff)
qed

end
