(* ===== verification/Server_Calls.thy ===== *)
theory Server_Calls
  imports Api_Props Map_Order
begin

text \<open>
  The daemon as its clients see it over a connection that works: the answers of its handlers,
  the states in which none of them can panic, and what the calls do to the set of tunnels.
\<close>

section \<open>The server\<close>

text \<open>The orders in which one daemon visits its maps.\<close>

record visits =
  vi_keys :: "(string \<rightharpoonup> bytes) \<Rightarrow> (string \<times> bytes) list"
  vi_tunnels :: "(string \<rightharpoonup> nat) \<Rightarrow> (string \<times> nat) list"
  vi_conflicts :: "(string \<rightharpoonup> nat) \<Rightarrow> (string \<times> nat) list"
  vi_add :: "(string \<rightharpoonup> Spec) \<Rightarrow> (string \<times> Spec) list"
  vi_connect :: "(string \<rightharpoonup> Spec) \<Rightarrow> (string \<times> Spec) list"
  vi_options :: "TunnelSpec option \<Rightarrow> (string \<times> string) list"

definition visits_ok :: "visits \<Rightarrow> bool" where
  "visits_ok vi \<longleftrightarrow> (\<forall>m. finite (dom m) \<longrightarrow> enumerates (vi_keys vi m) m) \<and>
     (\<forall>m. finite (dom m) \<longrightarrow> enumerates (vi_tunnels vi m) m \<and> enumerates (vi_conflicts vi m) m) \<and>
     (\<forall>m. finite (dom m) \<longrightarrow> enumerates (vi_add vi m) m \<and> enumerates (vi_connect vi m) m)"

text \<open>
  The answer of a handler as the client gets it, over a connection that works: \<open>msg\<close> is the
  error of a status. A handler that panics ends the daemon, and from then on every call fails
  with \<open>gone\<close>.
\<close>

definition answer :: "(rpc_error \<Rightarrow> err) \<Rightarrow> rpc_error + 'a \<Rightarrow> err option" where
  "answer msg r = (case r of Inl e \<Rightarrow> Some (msg e) | Inr x \<Rightarrow> None)"

definition served :: "(rpc_error \<Rightarrow> err) \<Rightarrow> err \<Rightarrow> ((rpc_error + 'a) \<times> 's) go \<Rightarrow> err option \<times> 's option" where
  "served msg gone x = (case x of Panic \<Rightarrow> (Some gone, None) | Ret (r, sv) \<Rightarrow> (answer msg r, Some sv))"

definition serve_Update :: "'w os \<Rightarrow> duration_ops \<Rightarrow> yaml_ops \<Rightarrow> ('g, 'i) graph_ops \<Rightarrow>
    (TunnelSpec \<Rightarrow> TunnelSpec \<Rightarrow> bool) \<Rightarrow> stop_env \<Rightarrow> visits \<Rightarrow> UpdateRequest \<Rightarrow> ('w, 'g, 'i) Supervisor \<Rightarrow>
    ((rpc_error + UpdateResponse) \<times> ('w, 'g, 'i) Supervisor) go" where
  "serve_Update S D Y G peq env vi req sv =
    (let nm = (case update_Spec req of None \<Rightarrow> [] | Some p \<Rightarrow> ts_Name p);
         specs = (case map_option FromProto (update_Spec req) of
           Some (Inr spec) \<Rightarrow> pl_specs (AddSpec spec (sv_planner sv)) | _ \<Rightarrow> Map.empty)
     in api_Update S D Y G peq env (vi_keys vi (update_InlineKeys req)) (vi_tunnels vi (sv_processes sv))
          (vi_conflicts vi ((sv_processes sv)(nm := None))) (vi_add vi specs) (vi_connect vi specs)
          (vi_options vi (update_Spec req)) req sv)"

definition push_request :: "TunnelSpec \<Rightarrow> UpdateRequest" where
  "push_request p = \<lparr>update_Spec = Some p, update_InlineKeys = Map.empty, update_Persistent = False\<rparr>"

definition sv_good :: "'w os \<Rightarrow> duration_ops \<Rightarrow> ('w, 'g, 'i) Supervisor \<Rightarrow> bool" where
  "sv_good S D sv \<longleftrightarrow> sv_ok S D sv \<and> sv_ctx sv \<noteq> None \<and> finite (dom (pl_specs (sv_planner sv))) \<and>
     (\<forall>p \<in> set (sv_heap sv). wf_spec (pr_spec p))"

text \<open>The specs of the registered tunnels, and the tunnels that need no start.\<close>

definition sv_tunnels :: "('w, 'g, 'i) Supervisor \<Rightarrow> string \<rightharpoonup> TunnelSpec" where
  "sv_tunnels sv nm = map_option (\<lambda>i. spec_ToProto (pr_spec (proc sv i))) (sv_processes sv nm)"

definition sv_live :: "('w, 'g, 'i) Supervisor \<Rightarrow> string \<Rightarrow> bool" where
  "sv_live sv nm \<longleftrightarrow> (case sv_processes sv nm of None \<Rightarrow> False
     | Some i \<Rightarrow> (pr_status (proc sv i) = StatusRunning \<or> pr_status (proc sv i) = StatusStarting) \<and>
         IsProcessAlive (proc sv i))"

section \<open>Calls on a good state\<close>

lemma AddTunnel_frame:
  assumes "AddTunnel S D Y G es es1 es2 opts spec False sv = Ret (r, sv')"
  shows "sv_ctx sv' = sv_ctx sv \<and>
    dom (pl_specs (sv_planner sv')) \<subseteq> insert (spec_Name spec) (dom (pl_specs (sv_planner sv)))"
  using assms
proof (cases rule: AddTunnel_cases)
  case (saved sv1)
  have same: "sv1 = sv"
    using saved(5) by simp
  from saved(6) show ?thesis
    unfolding same
  proof (cases rule: register_cases)
    case (rejected e pl)
    then show ?thesis using Plan_specs [OF rejected(1)] by auto
  next
    case (idle ss pl)
    then show ?thesis using Plan_specs [OF idle(1)] by auto
  next
    case (running ss pl d)
    then show ?thesis
      using Plan_specs [OF running(1)] startAndNotify_frame [OF running(3)] by auto
  qed
qed auto

lemma heap_specs_wf: "(\<forall>p \<in> set h. wf_spec (pr_spec p)) \<longleftrightarrow> (\<forall>s \<in> set (map pr_spec h). wf_spec s)"
  by auto

lemma heap_spec_nth:
  assumes "map pr_spec h' = map pr_spec h @ ss" and "i < length h"
  shows "pr_spec (h' ! i) = pr_spec (h ! i)"
proof -
  have "map pr_spec h' ! i = map pr_spec h ! i"
    using assms by (simp add: nth_append)
  moreover have "i < length h'"
    using arg_cong [OF assms(1), of length] assms(2) by simp
  ultimately show ?thesis
    using assms(2) by simp
qed

lemma sv_tunnels_old:
  assumes "sv_ok S D sv" and "sv_processes sv' n = sv_processes sv n"
    and "map pr_spec (sv_heap sv') = map pr_spec (sv_heap sv) @ ss"
  shows "sv_tunnels sv' n = sv_tunnels sv n"
  using heap_spec_nth [OF assms(3)] sv_ok_registered(1) [OF assms(1)] assms(2)
  by (cases "sv_processes sv n") (simp_all add: sv_tunnels_def proc_def)

lemma sv_tunnels_same:
  assumes "sv_ok S D sv" and "sv_processes sv' = sv_processes sv"
    and "map pr_spec (sv_heap sv') = map pr_spec (sv_heap sv)"
  shows "sv_tunnels sv' = sv_tunnels sv"
  by (rule ext) (rule sv_tunnels_old [OF assms(1)], use assms(2,3) in auto)

lemma sv_good_processes: "sv_good S D sv \<Longrightarrow> finite (dom (sv_processes sv))"
  unfolding sv_good_def
  by (rule finite_subset [of _ "dom (pl_specs (sv_planner sv))"]) (auto dest: sv_ok_registered(2))

lemma good_Start:
  assumes "sv_good S D sv" and "sv_processes sv nm = Some i"
  shows "\<exists>r sv'. StartTunnel S D opts nm sv = Ret (r, sv') \<and> sv_good S D sv' \<and> sv_tunnels sv' = sv_tunnels sv \<and>
    (sv_live sv nm \<longrightarrow> r = None \<and> sv' = sv) \<and> sv_planner sv' = sv_planner sv"
proof (cases "sv_live sv nm")
  case True
  then show ?thesis
    using assms by (simp add: StartTunnel_def sv_live_def)
next
  case False
  have ok: "sv_ok S D sv" and wf: "\<forall>p \<in> set (sv_heap sv). wf_spec (pr_spec p)"
    using assms(1) by (simp_all add: sv_good_def)
  obtain d where d: "sv_ctx sv = Some d"
    using assms(1) by (auto simp: sv_good_def)
  have "wf_spec (pr_spec (proc sv i))"
    using wf sv_ok_registered(1) [OF ok assms(2)] by (simp add: proc_def)
  then obtain r sv' where run: "startAndNotify S D (Some d) opts i sv = Ret (r, sv')"
    using startAndNotify_returns [of sv i S D d opts] by blast
  have st: "StartTunnel S D opts nm sv = Ret (r, sv')"
    using False assms(2) run d by (auto simp: StartTunnel_def sv_live_def)
  note fr = startAndNotify_frame [OF run]
  have "sv_ok S D sv'"
    by (rule sv_ok_StartTunnel [OF ok st])
  then have "sv_good S D sv'"
    using assms(1) fr unfolding sv_good_def heap_specs_wf by simp
  then show ?thesis
    using st sv_tunnels_same [OF ok fr(2,3)] fr(1) False by blast
qed

lemma RemoveTunnel_heap:
  "map pr_spec (sv_heap (snd (RemoveTunnel D env nm sv))) = map pr_spec (sv_heap sv)"
  "sv_ctx (snd (RemoveTunnel D env nm sv)) = sv_ctx sv"
  "pl_specs (sv_planner (snd (RemoveTunnel D env nm sv))) =
    (if sv_processes sv nm = None then pl_specs (sv_planner sv) else (pl_specs (sv_planner sv))(nm := None))"
  by (auto simp: RemoveTunnel_def set_proc_specs Stop_spec split: option.splits)

lemma good_Remove:
  assumes "sv_good S D sv" and "RemoveTunnel D env nm sv = (r, sv')"
  shows "sv_good S D sv'" and "sv_tunnels sv' = (sv_tunnels sv)(nm := None)"
    and "sv_processes sv' = (sv_processes sv)(nm := None)"
proof -
  have ok: "sv_ok S D sv"
    using assms(1) by (simp add: sv_good_def)
  have sv': "sv' = snd (RemoveTunnel D env nm sv)"
    using assms(2) by simp
  show p: "sv_processes sv' = (sv_processes sv)(nm := None)"
    unfolding sv' by (rule RemoveTunnel_processes)
  show "sv_good S D sv'"
    using assms(1) sv_ok_RemoveTunnel [OF ok, of env nm]
    unfolding sv' sv_good_def heap_specs_wf RemoveTunnel_heap by simp
  show "sv_tunnels sv' = (sv_tunnels sv)(nm := None)"
  proof
    fix n
    show "sv_tunnels sv' n = ((sv_tunnels sv)(nm := None)) n"
    proof (cases "n = nm")
      case True
      then show ?thesis using p by (simp add: sv_tunnels_def)
    next
      case False
      then have "sv_tunnels sv' n = sv_tunnels sv n"
        using p RemoveTunnel_heap(1) [of D env nm sv] unfolding sv'
        by (intro sv_tunnels_old [OF ok, of _ _ "[]"]) simp_all
      with False show ?thesis by simp
    qed
  qed
qed

lemma good_Add:
  assumes lib: "graph_library G edges" and good: "sv_good S D sv" and free: "sv_processes sv (spec_Name spec) = None"
    and es: "enumerates es (sv_processes sv)"
      "enumerates es1 (pl_specs (AddSpec spec (sv_planner sv)))"
      "enumerates es2 (pl_specs (AddSpec spec (sv_planner sv)))"
    and wf: "wf_spec spec"
  shows "\<exists>r sv'. AddTunnel S D Y G es es1 es2 opts spec False sv = Ret (r, sv') \<and> sv_good S D sv' \<and>
    (\<forall>n. n \<noteq> spec_Name spec \<longrightarrow> sv_tunnels sv' n = sv_tunnels sv n) \<and>
    (r = None \<longrightarrow> sv_tunnels sv' (spec_Name spec) = Some (spec_ToProto spec))"
proof -
  have ok: "sv_ok S D sv"
    using good by (simp add: sv_good_def)
  have keeps: "sv_good S D sv'"
    if run: "AddTunnel S D Y G es es1 es2 opts spec False sv = Ret (r, sv')"
      and specs: "\<forall>s \<in> set (map pr_spec (sv_heap sv')). wf_spec s" for r sv'
  proof -
    note fr = AddTunnel_frame [OF run]
    have "finite (dom (pl_specs (sv_planner sv')))"
      using good by (intro finite_subset [OF conjunct2 [OF fr]]) (simp add: sv_good_def)
    then show ?thesis
      using fr good specs sv_ok_AddTunnel [OF ok es(1) run] unfolding sv_good_def heap_specs_wf by simp
  qed
  have wfs: "\<forall>s \<in> set (map pr_spec (sv_heap sv)). wf_spec s"
    using good unfolding sv_good_def heap_specs_wf by simp
  show ?thesis
  proof (rule AddTunnel_outcome [OF lib ok es wf, of False Y opts], goal_cases pers taken conflict added failed)
    case taken
    then show ?case using free by simp
  next
    case (conflict ex key)
    then show ?case using good by blast
  next
    case (added r sv')
    note reg = added(4) [unfolded registered_new_def]
    have "sv_good S D sv'"
      by (rule keeps [OF added(3)]) (use reg wfs wf in simp)
    moreover have "sv_tunnels sv' n = sv_tunnels sv n" if "n \<noteq> spec_Name spec" for n
      using reg that by (intro sv_tunnels_old [OF ok, of _ _ "[spec]"]) simp_all
    moreover have "sv_tunnels sv' (spec_Name spec) = Some (spec_ToProto spec)"
    proof -
      have "length (sv_heap sv) < length (sv_heap sv')"
        using arg_cong [OF conjunct1 [OF conjunct2 [OF reg]], of length] by simp
      then have "pr_spec (proc sv' (length (sv_heap sv))) = (map pr_spec (sv_heap sv')) ! length (sv_heap sv)"
        by (simp add: proc_def)
      also have "\<dots> = spec"
        using reg by (simp add: nth_append)
      finally show ?thesis
        using reg by (simp add: sv_tunnels_def)
    qed
    ultimately show ?case using added(3) by blast
  next
    case (failed e sv')
    have "sv_good S D sv'"
      by (rule keeps [OF failed(3)]) (use failed(5) wfs in simp)
    moreover have "sv_tunnels sv' = sv_tunnels sv"
      by (rule sv_tunnels_same [OF ok]) (use failed(4,5) in simp_all)
    ultimately show ?case using failed(3) by auto
  qed simp
qed

lemma unchanged_tunnels:
  "unchanged peq spec sv \<longleftrightarrow> (case sv_tunnels sv (spec_Name spec) of None \<Rightarrow> False
    | Some q \<Rightarrow> peq q (spec_ToProto spec))"
  by (simp add: unchanged_def sv_tunnels_def split: option.splits)

lemma Update_push:
  assumes lib: "graph_library G edges" and vi: "visits_ok vi" and good: "sv_good S D sv"
    and spec: "FromProto p = Inr spec"
  shows "\<exists>r sv'. serve_Update S D Y G peq env vi (push_request p) sv = Ret (internal r, sv') \<and> sv_good S D sv' \<and>
    (\<forall>n. n \<noteq> ts_Name p \<longrightarrow> sv_tunnels sv' n = sv_tunnels sv n) \<and>
    (r = None \<longrightarrow> (\<exists>q. sv_tunnels sv' (ts_Name p) = Some q \<and> (q = p \<or> peq q p))) \<and>
    (\<forall>q. sv_tunnels sv (ts_Name p) = Some q \<longrightarrow> peq q p \<longrightarrow> sv_live sv (ts_Name p) \<longrightarrow> r = None \<and> sv' = sv)"
proof -
  have fin: "finite (dom (sv_processes sv))" "finite (dom (pl_specs (sv_planner sv)))"
    using good sv_good_processes by (auto simp: sv_good_def)
  have name: "spec_Name spec = ts_Name p" and tp: "spec_ToProto spec = p" and wf: "wf_spec spec"
    using FromProto_Name [OF spec] FromProto_ToProto [OF spec] wf_spec_FromProto [OF spec] by simp_all
  have keys: "vi_keys vi Map.empty = []"
  proof -
    have "enumerates (vi_keys vi Map.empty) Map.empty"
      using vi unfolding visits_ok_def by (metis dom_empty finite.emptyI)
    then show ?thesis
      by (simp add: enumerates_def)
  qed
  let ?es = "vi_tunnels vi (sv_processes sv)" and ?es' = "vi_conflicts vi ((sv_processes sv)(ts_Name p := None))"
  let ?m = "pl_specs (AddSpec spec (sv_planner sv))"
  have en: "enumerates ?es (sv_processes sv)" "enumerates ?es' ((sv_processes sv)(ts_Name p := None))"
    "enumerates (vi_add vi ?m) ?m" "enumerates (vi_connect vi ?m) ?m"
    using vi fin by (simp_all add: visits_ok_def)
  define opts where "opts = vi_options vi (Some p)"
  obtain x sv2 where rem: "RemoveTunnel D env (spec_Name spec) sv = (x, sv2)"
    by (rule prod.exhaust)
  have eq: "serve_Update S D Y G peq env vi (push_request p) sv =
      (if unchanged peq spec sv
       then bind_go (StartTunnel S D opts (spec_Name spec) sv) (\<lambda>(r, sv2). Ret (internal r, sv2))
       else bind_go (AddTunnel S D Y G ?es' (vi_add vi ?m) (vi_connect vi ?m) opts spec False sv2)
         (\<lambda>(r, sv2). Ret (internal r, sv2)))"
    using unchanged_find [OF en(1), where spec = spec and peq = peq] rem
    by (simp add: serve_Update_def push_request_def api_Update_def keys spec request_spec_def opts_def Let_def)
  show ?thesis
  proof (cases "unchanged peq spec sv")
    case True
    then obtain q where q: "sv_tunnels sv (ts_Name p) = Some q" "peq q p"
      by (auto simp: unchanged_tunnels name tp split: option.splits)
    then obtain i where "sv_processes sv (ts_Name p) = Some i"
      by (auto simp: sv_tunnels_def)
    from good_Start [OF good this, of opts] obtain r sv' where
      "StartTunnel S D opts (ts_Name p) sv = Ret (r, sv')" "sv_good S D sv'" "sv_tunnels sv' = sv_tunnels sv"
      "sv_live sv (ts_Name p) \<longrightarrow> r = None \<and> sv' = sv"
      by (elim exE conjE)
    then show ?thesis
      using eq True q name by (intro exI [of _ r] exI [of _ sv']) simp
  next
    case False
    note rm = good_Remove [OF good rem]
    have "enumerates ?es' (sv_processes sv2)" "sv_processes sv2 (spec_Name spec) = None"
      using rm(3) en(2) name by simp_all
    moreover have "pl_specs (AddSpec spec (sv_planner sv2)) = ?m"
      using RemoveTunnel_planner [of spec D env sv] rem by simp
    ultimately obtain r sv' where add: "AddTunnel S D Y G ?es' (vi_add vi ?m) (vi_connect vi ?m) opts spec False sv2 = Ret (r, sv')"
        "sv_good S D sv'" "\<forall>n. n \<noteq> spec_Name spec \<longrightarrow> sv_tunnels sv' n = sv_tunnels sv2 n"
        "r = None \<longrightarrow> sv_tunnels sv' (spec_Name spec) = Some (spec_ToProto spec)"
      using good_Add [OF lib rm(1), of spec ?es' "vi_add vi ?m" "vi_connect vi ?m" Y opts] en(3,4) wf by auto
    have "\<not> (\<exists>q. sv_tunnels sv (ts_Name p) = Some q \<and> peq q p)"
      using False by (auto simp: unchanged_tunnels name tp)
    then show ?thesis
      using eq False add rm(2) name tp by (intro exI [of _ r] exI [of _ sv']) auto
  qed
qed

lemma AddKey_world:
  "\<exists>w. snd (api_AddKey S req sv) = sv\<lparr>sv_world := w\<rparr>"
proof -
  obtain e sv1 where s: "SaveKey S (addkey_Name req) (addkey_Content req) sv = (e, sv1)"
    by (rule prod.exhaust)
  obtain w where "sv1 = sv\<lparr>sv_world := w\<rparr>"
    using SaveKey_world [of S "addkey_Name req" "addkey_Content req" sv] s by auto
  then have "snd (api_AddKey S req sv) \<in> {sv\<lparr>sv_world := sv_world sv\<rparr>, sv\<lparr>sv_world := w\<rparr>}"
    using s by (cases e) (simp_all add: api_AddKey_def)
  then show ?thesis by blast
qed

lemma world_simps:
  "sv_tunnels (sv\<lparr>sv_world := w\<rparr>) = sv_tunnels sv" "sv_live (sv\<lparr>sv_world := w\<rparr>) = sv_live sv"
  by (simp_all add: sv_tunnels_def sv_live_def proc_def fun_eq_iff cong: option.case_cong)

lemma sv_good_world: "sv_good S D sv \<Longrightarrow> sv_good S D (sv\<lparr>sv_world := w\<rparr>)"
  using sv_ok_frame [of S D sv "sv\<lparr>sv_world := w\<rparr>"] by (simp add: sv_good_def)

lemma Status_registered:
  assumes "visits_ok vi" and "sv_good S D sv" and "nm \<noteq> []" and "sv_tunnels sv nm = Some q"
  shows "\<exists>st. api_Status (vi_tunnels vi (sv_processes sv)) sv \<lparr>sr_Name = nm\<rparr> = Inr \<lparr>sr_Tunnels = [st]\<rparr> \<and>
    st_Name st = nm \<and> st_Spec st = Some q"
proof -
  have "enumerates (vi_tunnels vi (sv_processes sv)) (sv_processes sv)"
    using assms(1) sv_good_processes [OF assms(2)] by (simp add: visits_ok_def)
  from Status_cases [OF this assms(3)] show ?thesis
    using assms(4) by (auto simp: sv_tunnels_def to_status_def tunnel_info_def split: option.splits)
qed

text \<open>The daemon is in a good state once \<open>Run\<close> has started the tunnels of its configuration.\<close>

lemma Run_good:
  assumes lib: "graph_library G edges" and ok: "sv_ok S D sv"
    and es: "enumerates es1 (pl_specs (sv_planner sv))" "enumerates es2 (pl_specs (sv_planner sv))"
    and wf: "\<forall>s \<in> ran (pl_specs (sv_planner sv)). wf_spec s" and empty: "sv_heap sv = []"
  shows "\<exists>r sv'. Run S D G es1 es2 opts (Some d) sv = Ret (r, sv') \<and> sv_good S D sv'"
proof -
  obtain r sv' where run: "Run S D G es1 es2 opts (Some d) sv = Ret (r, sv')"
    using Run_returns [OF lib ok es wf, of opts d] by blast
  note post = Run_ok [OF lib ok es run]
  have "\<forall>s \<in> set (map pr_spec (sv_heap sv')). wf_spec s"
  proof (cases r)
    case None
    then obtain order where "is_plan (pl_specs (sv_planner sv)) order" "map pr_spec (sv_heap sv') = order"
      using post empty by auto
    then show ?thesis
      using wf by (simp add: is_plan_def)
  next
    case (Some e)
    then show ?thesis
      using post empty by simp
  qed
  then have "sv_good S D sv'"
    using post enumerates_finite [OF es(1)] unfolding sv_good_def heap_specs_wf by simp
  with run show ?thesis by blast
qed

text \<open>A daemon that visits every map in the order of its names.\<close>

definition sorted_visits :: visits where
  "sorted_visits =
    \<lparr>vi_keys = sorted_entries, vi_tunnels = sorted_entries, vi_conflicts = sorted_entries,
     vi_add = sorted_entries, vi_connect = sorted_entries, vi_options = (\<lambda>p. [])\<rparr>"

lemma sorted_visits_ok: "visits_ok sorted_visits"
  by (simp add: visits_ok_def sorted_visits_def sorted_entries_enumerates)

section \<open>Creating\<close>

definition serve_Create :: "'w os \<Rightarrow> duration_ops \<Rightarrow> yaml_ops \<Rightarrow> ('g, 'i) graph_ops \<Rightarrow> visits \<Rightarrow>
    CreateRequest \<Rightarrow> ('w, 'g, 'i) Supervisor \<Rightarrow> ((rpc_error + CreateResponse) \<times> ('w, 'g, 'i) Supervisor) go" where
  "serve_Create S D Y G vi req sv =
    (let specs = (case map_option FromProto (create_Spec req) of
           Some (Inr spec) \<Rightarrow> pl_specs (AddSpec spec (sv_planner sv)) | _ \<Rightarrow> Map.empty)
     in api_Create S D Y G (vi_keys vi (create_InlineKeys req)) (vi_tunnels vi (sv_processes sv))
          (vi_add vi specs) (vi_connect vi specs) (vi_options vi (create_Spec req)) req sv)"

text \<open>The system can make every directory and file.\<close>

definition disk_works :: "'w os \<Rightarrow> bool" where
  "disk_works S \<longleftrightarrow> (\<forall>w d m. fst (os_mkdirall S w d m) = None) \<and> (\<forall>w f b m. fst (os_writefile S w f b m) = None)"

lemma save_keys_works: "disk_works S \<Longrightarrow> fst (save_keys S ks sv) = None"
proof (induction ks arbitrary: sv)
  case (Cons k ks)
  obtain nm c where k: "k = (nm, c)"
    by (rule prod.exhaust)
  have "fst (SaveKey S nm c sv) = None"
    using Cons.prems by (auto simp: SaveKey_def disk_works_def split: prod.splits option.splits) (metis fst_conv option.distinct(1))+
  then show ?case
    using Cons.IH [OF Cons.prems] k by (cases "SaveKey S nm c sv") simp
qed simp

lemma AddTunnel_accepts:
  assumes lib: "graph_library G edges" and good: "sv_good S D sv" and free: "sv_processes sv (spec_Name spec) = None"
    and apart: "\<not> in_conflict spec sv" and es: "enumerates es (sv_processes sv)"
    and m: "pl_specs (AddSpec spec (sv_planner sv)) = m"
    and es12: "enumerates es1 m" "enumerates es2 m" and wf: "wf_spec spec"
    and deps: "deps_distinct m" "deps_present m" "acyclic (dep_rel m)"
  shows "\<exists>r sv'. AddTunnel S D Y G es es1 es2 opts spec False sv = Ret (r, sv') \<and> sv_good S D sv' \<and>
    sv_tunnels sv' = (sv_tunnels sv)(spec_Name spec \<mapsto> spec_ToProto spec) \<and> pl_specs (sv_planner sv') = m \<and>
    sv_processes sv' (spec_Name spec) \<noteq> None"
proof -
  have ok: "sv_ok S D sv"
    using good by (simp add: sv_good_def)
  then have nm: "named m"
    using m by (auto simp: sv_ok_def)
  obtain d where d: "sv_ctx sv = Some d"
    using good by (auto simp: sv_good_def)
  have "checkPortConflicts es spec sv = None"
    using apart enumerates_mem [OF es] unfolding checkPortConflicts_None in_conflict_def by fast
  then have eq: "AddTunnel S D Y G es es1 es2 opts spec False sv = register S D G es1 es2 opts spec sv"
    using free by (simp add: AddTunnel_def)
  have "irrefl (dep_rel m)"
    using deps(3) by (auto simp: irrefl_def acyclic_def)
  from graph_library.Plan_accepts(1) [OF lib, of es1 "AddSpec spec (sv_planner sv)" es2, unfolded m,
      OF es12 nm deps(1) this deps(2,3)]
  obtain ss pl where pl: "Plan G es1 es2 (AddSpec spec (sv_planner sv)) = Ret (Inr ss, pl)"
    by blast
  let ?sv1 = "new_proc S spec (sv\<lparr>sv_planner := pl\<rparr>)"
  have "wf_spec (pr_spec (proc ?sv1 (length (sv_heap sv))))"
    using wf by (simp add: new_proc_def proc_def)
  then obtain r sv' where st: "startAndNotify S D (Some d) opts (length (sv_heap sv)) ?sv1 = Ret (r, sv')"
    using startAndNotify_returns [of ?sv1 "length (sv_heap sv)" S D d opts] by blast
  note fr = startAndNotify_frame [OF st]
  have run: "AddTunnel S D Y G es es1 es2 opts spec False sv = Ret (r, sv')"
    using eq pl d st by (simp add: register_def Let_def)
  have heap: "map pr_spec (sv_heap sv') = map pr_spec (sv_heap sv) @ [spec]"
    using fr(3) by simp
  have wfs: "\<forall>s \<in> set (map pr_spec (sv_heap sv)). wf_spec s"
    using good unfolding sv_good_def heap_specs_wf by simp
  have specs: "pl_specs (sv_planner sv') = m"
    using fr(1) Plan_specs [OF pl] m by simp
  have "sv_good S D sv'"
    using fr(4) d wfs wf heap sv_ok_AddTunnel [OF ok es run] enumerates_finite [OF es12(1)]
    unfolding sv_good_def heap_specs_wf specs by simp
  moreover have "sv_tunnels sv' = (sv_tunnels sv)(spec_Name spec \<mapsto> spec_ToProto spec)"
  proof
    fix n
    show "sv_tunnels sv' n = ((sv_tunnels sv)(spec_Name spec \<mapsto> spec_ToProto spec)) n"
    proof (cases "n = spec_Name spec")
      case True
      have "length (sv_heap sv) < length (sv_heap sv')"
        using arg_cong [OF heap, of length] by simp
      then have "pr_spec (proc sv' (length (sv_heap sv))) = (map pr_spec (sv_heap sv')) ! length (sv_heap sv)"
        by (simp add: proc_def)
      then show ?thesis
        using True fr(2) heap by (simp add: sv_tunnels_def nth_append)
    next
      case False
      then show ?thesis
        using fr(2) by (simp add: sv_tunnels_old [OF ok _ heap])
    qed
  qed
  ultimately show ?thesis
    using run specs fr(2) by auto
qed

lemma Create_accepts:
  assumes lib: "graph_library G edges" and vi: "visits_ok vi" and good: "sv_good S D sv" and disk: "disk_works S"
    and spec: "FromProto p = Inr spec" and free: "sv_processes sv (ts_Name p) = None"
    and apart: "\<not> in_conflict spec sv" and m: "(pl_specs (sv_planner sv))(ts_Name p \<mapsto> spec) = m"
    and deps: "deps_distinct m" "deps_present m" "acyclic (dep_rel m)"
  shows "\<exists>r sv'. serve_Create S D Y G vi
      \<lparr>create_Spec = Some p, create_InlineKeys = ks, create_Persistent = False\<rparr> sv = Ret (r, sv') \<and> sv_good S D sv' \<and>
    sv_tunnels sv' = (sv_tunnels sv)(ts_Name p \<mapsto> p) \<and> pl_specs (sv_planner sv') = m"
proof -
  have name: "spec_Name spec = ts_Name p" and tp: "spec_ToProto spec = p" and wf: "wf_spec spec"
    using FromProto_Name [OF spec] FromProto_ToProto [OF spec] wf_spec_FromProto [OF spec] by simp_all
  obtain sv1 where sk: "save_keys S (vi_keys vi ks) sv = (None, sv1)"
    using save_keys_works [OF disk, of "vi_keys vi ks" sv] by (metis prod.exhaust fst_conv)
  obtain w where w: "sv1 = sv\<lparr>sv_world := w\<rparr>"
    using save_keys_world [of S "vi_keys vi ks" sv] sk by auto
  have good1: "sv_good S D sv1"
    unfolding w by (rule sv_good_world [OF good])
  have fin: "finite (dom (sv_processes sv))" "finite (dom m)"
    using sv_good_processes [OF good] good m by (auto simp: sv_good_def)
  have en: "enumerates (vi_tunnels vi (sv_processes sv)) (sv_processes sv1)"
    "enumerates (vi_add vi m) m" "enumerates (vi_connect vi m) m"
    using vi fin by (simp_all add: visits_ok_def w)
  have m1: "pl_specs (AddSpec spec (sv_planner sv1)) = m"
    using m name by (simp add: w)
  have "sv_processes sv1 (spec_Name spec) = None" "\<not> in_conflict spec sv1"
    using free name apart in_conflict_keys [OF sk, of spec] by (simp_all add: w)
  from AddTunnel_accepts [OF lib good1 this en(1) m1 en(2,3) wf deps, of Y "vi_options vi (Some p)"]
  obtain r sv' where add: "AddTunnel S D Y G (vi_tunnels vi (sv_processes sv)) (vi_add vi m) (vi_connect vi m)
      (vi_options vi (Some p)) spec False sv1 = Ret (r, sv')" "sv_good S D sv'"
      "sv_tunnels sv' = (sv_tunnels sv1)(spec_Name spec \<mapsto> spec_ToProto spec)" "pl_specs (sv_planner sv') = m"
    by blast
  have "\<exists>x. serve_Create S D Y G vi
      \<lparr>create_Spec = Some p, create_InlineKeys = ks, create_Persistent = False\<rparr> sv = Ret (x, sv')"
    using add(1) sk spec m name
    by (cases r) (simp_all add: serve_Create_def api_Create_def request_spec_def Let_def)
  then show ?thesis
    using add(2-4) name tp by (auto simp: w world_simps)
qed

text \<open>\<open>Start\<close> of a registered tunnel keeps the state good and the set of tunnels.\<close>

lemma Start_keeps:
  assumes "sv_good S D sv" and "sv_tunnels sv nm \<noteq> None"
  shows "\<exists>r sv'. api_Start S D opts \<lparr>start_Name = nm\<rparr> sv = Ret (r, sv') \<and> sv_good S D sv' \<and>
    sv_tunnels sv' = sv_tunnels sv \<and> sv_planner sv' = sv_planner sv"
proof -
  obtain i where "sv_processes sv nm = Some i"
    using assms(2) by (auto simp: sv_tunnels_def)
  from good_Start [OF assms(1) this, of opts] obtain r sv' where
    "StartTunnel S D opts nm sv = Ret (r, sv')" "sv_good S D sv'" "sv_tunnels sv' = sv_tunnels sv"
    "sv_planner sv' = sv_planner sv"
    by blast
  then show ?thesis
    by (simp add: api_Start_def)
qed

end
