(* ===== verification/Kube_Types.thy ===== *)
theory Kube_Types
  imports Os "HOL-Library.List_Lexorder" "HOL-Library.Char_ord"
begin

text \<open>
  The custom resources of \<open>k8s/api/v1alpha1\<close>, the parts of the core resources the controllers
  look at, and the client of the Kubernetes API as the controllers see it. Pointers are
  options and a nil map or slice is an empty one, as everywhere.
\<close>

section \<open>Custom resources\<close>

record SecretKeyRef =
  sk_Name :: string
  sk_Key :: string

record LocalObjectRef = lo_Name :: string

record KHealthCheckSpec =
  kh_Type :: string
  kh_Address :: string
  kh_Interval :: "duration option"
  kh_Timeout :: "duration option"
  kh_StartupTimeout :: "duration option"

record KBackoffSpec =
  kb_MultiplierMilli :: int32
  kb_MaxDelay :: "duration option"

record KRestartPolicySpec =
  kr_Policy :: string
  kr_Delay :: "duration option"
  kr_MaxAttempts :: int32
  kr_Backoff :: "KBackoffSpec option"

record KSSHForward =
  ksf_ListenAddress :: string
  ksf_ListenPort :: int32
  ksf_TargetHost :: string
  ksf_TargetPort :: int32

record KSSHSpec =
  kssh_User :: string
  kssh_Host :: string
  kssh_Port :: int32
  kssh_IdentityKeyRef :: "LocalObjectRef option"
  kssh_IdentityKeySecretRef :: "SecretKeyRef option"
  kssh_LocalForwards :: "KSSHForward list"
  kssh_Options :: "string \<rightharpoonup> string"

record KKubectlForward =
  kkf_LocalAddress :: string
  kkf_LocalPort :: int32
  kkf_RemotePort :: int32

record KKubectlSpec =
  kkc_KubeconfigRef :: "LocalObjectRef option"
  kkc_KubeconfigSecretRef :: "SecretKeyRef option"
  kkc_Context :: string
  kkc_Namespace :: string
  kkc_Resource :: string
  kkc_Forwards :: "KKubectlForward list"
  kkc_APIServer :: string
  kkc_InsecureSkipTLSVerify :: bool

record ExposeSpec =
  ex_Service :: bool
  ex_ServiceName :: string
  ex_ForwardIndex :: int32

record KResolvedForward =
  krf_ListenAddress :: string
  krf_ConfiguredPort :: int32
  krf_ActualPort :: int32
  krf_RemotePort :: int32

record KTunnelSpec =
  kt_DependsOn :: "string list"
  kt_SSH :: "KSSHSpec option"
  kt_Kubectl :: "KKubectlSpec option"
  kt_Health :: "KHealthCheckSpec option"
  kt_Restart :: "KRestartPolicySpec option"
  kt_StartupTimeout :: "duration option"
  kt_ShutdownTimeout :: "duration option"
  kt_NodeSelector :: "string \<rightharpoonup> string"
  kt_Expose :: "ExposeSpec option"

text \<open>The phase is a string of the API; \<open>PhaseUnset\<close> is the empty one, before any controller wrote it.\<close>

datatype TunnelPhase = PhaseUnset | PhasePending | PhaseHealthy | PhaseDegraded | PhaseFailed | PhaseStopped

record Condition =
  cd_Type :: string
  cd_Status :: string
  cd_Reason :: string
  cd_Message :: string
  cd_LastTransitionTime :: int
  cd_ObservedGeneration :: int64

record KTunnelStatus =
  kts_Phase :: TunnelPhase
  kts_Node :: string
  kts_ResolvedForwards :: "KResolvedForward list"
  kts_ServiceRef :: "LocalObjectRef option"
  kts_ObservedGeneration :: int64
  kts_Conditions :: "Condition list"
  kts_LastError :: string

text \<open>
  Of the metadata of an object: its name, namespace, generation, labels and the object that
  controls it.
\<close>

record ObjectMeta =
  om_Name :: string
  om_Namespace :: string
  om_Generation :: int64
  om_Labels :: "string \<rightharpoonup> string"
  om_Owner :: "string option"

record Tunnel =
  tn_Meta :: ObjectMeta
  tn_Spec :: KTunnelSpec
  tn_Status :: KTunnelStatus

record TunnelGroupMember =
  gm_Name :: string
  gm_DependsOn :: "string list"
  gm_SSH :: "KSSHSpec option"
  gm_Kubectl :: "KKubectlSpec option"
  gm_Health :: "KHealthCheckSpec option"
  gm_Restart :: "KRestartPolicySpec option"
  gm_StartupTimeout :: "duration option"
  gm_ShutdownTimeout :: "duration option"

record TunnelGroupExpose =
  ge_Tunnel :: string
  ge_ServiceName :: string
  ge_ForwardIndex :: int32

record TunnelGroupSpec =
  gs_NodeSelector :: "string \<rightharpoonup> string"
  gs_Tunnels :: "TunnelGroupMember list"
  gs_Expose :: "TunnelGroupExpose list"

record TunnelGroupMemberStatus =
  ms_Name :: string
  ms_Phase :: TunnelPhase

record TunnelGroupStatus =
  gst_Phase :: TunnelPhase
  gst_Node :: string
  gst_Members :: "TunnelGroupMemberStatus list"
  gst_ObservedGeneration :: int64
  gst_LastError :: string

record TunnelGroup =
  tg_Meta :: ObjectMeta
  tg_Spec :: TunnelGroupSpec
  tg_Status :: TunnelGroupStatus

datatype TunnelKeyType = SSHPrivateKey | Kubeconfig

record TunnelKeySource = src_SecretRef :: "SecretKeyRef option"

record TunnelKeySpec =
  tks_Type :: TunnelKeyType
  tks_Source :: TunnelKeySource
  tks_NodeSelector :: "string \<rightharpoonup> string"

datatype TunnelKeyPhase = KeyPhaseUnset | KeyPhasePending | KeyPhaseReady | KeyPhaseFailed

record TunnelKeyStatus =
  tkst_Phase :: TunnelKeyPhase
  tkst_InstalledNodes :: "string list"
  tkst_Fingerprint :: string
  tkst_ObservedGeneration :: int64
  tkst_LastError :: string

record TunnelKey =
  tk_Meta :: ObjectMeta
  tk_Spec :: TunnelKeySpec
  tk_Status :: TunnelKeyStatus

section \<open>Core resources\<close>

text \<open>
  Of a node, its labels, its conditions (type and status) and its addresses (type and address);
  of a secret, its data; of a service and its endpoints, what the controller sets.
\<close>

record Node =
  nd_Name :: string
  nd_Labels :: "string \<rightharpoonup> string"
  nd_Conditions :: "(string \<times> string) list"
  nd_Addresses :: "(string \<times> string) list"

record Secret =
  sec_Name :: string
  sec_Data :: "string \<rightharpoonup> bytes"

record ServicePort =
  svp_Name :: string
  svp_Port :: int32
  svp_TargetPort :: int32
  svp_Protocol :: string

record Service =
  sv_Meta :: ObjectMeta
  sv_Type :: string
  sv_Selector :: "string \<rightharpoonup> string"
  sv_Ports :: "ServicePort list"

record Endpoints =
  ep_Meta :: ObjectMeta
  ep_Subsets :: "(string list \<times> (string \<times> int32 \<times> string) list) list"

section \<open>The client\<close>

text \<open>
  The state of the cluster is of an arbitrary type \<open>'k\<close>. \<open>CreateOrUpdate\<close> takes the function
  that changes the object found under the name, or a new one; \<open>SetControllerReference\<close> takes
  the owner's name and the present owner. \<open>SelectorFromSet\<close> and \<open>Matches\<close> of the label library
  are one function. The program relies on nothing else.
\<close>

record 'k kube =
  k_get_tunnel :: "'k \<Rightarrow> string \<Rightarrow> string \<Rightarrow> file_err + Tunnel"
  k_get_group :: "'k \<Rightarrow> string \<Rightarrow> string \<Rightarrow> file_err + TunnelGroup"
  k_get_key :: "'k \<Rightarrow> string \<Rightarrow> string \<Rightarrow> file_err + TunnelKey"
  k_get_secret :: "'k \<Rightarrow> string \<Rightarrow> string \<Rightarrow> file_err + Secret"
  k_get_node :: "'k \<Rightarrow> string \<Rightarrow> file_err + Node"
  k_list_nodes :: "'k \<Rightarrow> err + Node list"
  k_matches :: "(string \<rightharpoonup> string) \<Rightarrow> (string \<rightharpoonup> string) \<Rightarrow> bool"
  k_set_owner :: "string \<Rightarrow> string option \<Rightarrow> err + string option"
  k_update_tunnel_status :: "'k \<Rightarrow> Tunnel \<Rightarrow> err option \<times> 'k"
  k_update_group_status :: "'k \<Rightarrow> TunnelGroup \<Rightarrow> err option \<times> 'k"
  k_update_key_status :: "'k \<Rightarrow> TunnelKey \<Rightarrow> err option \<times> 'k"
  k_put_tunnel :: "'k \<Rightarrow> string \<Rightarrow> string \<Rightarrow> (Tunnel \<Rightarrow> err + Tunnel) \<Rightarrow> err option \<times> 'k"
  k_put_service :: "'k \<Rightarrow> string \<Rightarrow> string \<Rightarrow> (Service \<Rightarrow> err + Service) \<Rightarrow> err option \<times> 'k"
  k_put_endpoints :: "'k \<Rightarrow> string \<Rightarrow> string \<Rightarrow> (Endpoints \<Rightarrow> err + Endpoints) \<Rightarrow> err option \<times> 'k"
  k_delete_service :: "'k \<Rightarrow> string \<Rightarrow> string \<Rightarrow> file_err option \<times> 'k"
  k_delete_endpoints :: "'k \<Rightarrow> string \<Rightarrow> string \<Rightarrow> file_err option \<times> 'k"

text \<open>A selector matches exactly the sets of labels that contain it.\<close>

definition selects :: "(string \<rightharpoonup> string) \<Rightarrow> (string \<rightharpoonup> string) \<Rightarrow> bool" where
  "selects sel labels \<longleftrightarrow> (\<forall>k v. sel k = Some v \<longrightarrow> labels k = Some v)"

record Result =
  res_Requeue :: bool
  res_RequeueAfter :: int

definition no_result :: Result where
  "no_result = \<lparr>res_Requeue = False, res_RequeueAfter = 0\<rparr>"

definition requeue_after :: "int \<Rightarrow> Result" where
  "requeue_after d = \<lparr>res_Requeue = False, res_RequeueAfter = d\<rparr>"

end
