(* ===== verification/Kube_Client.thy ===== *)
theory Kube_Client
  imports Kube_Types
begin

text \<open>
  What the controllers rely on of the Kubernetes API, as a locale: reads after writes, and
  the objects \<open>CreateOrUpdate\<close> leaves. \<open>mem_kube\<close> is a cluster in memory that keeps the
  contract.
\<close>

text \<open>The empty objects that \<open>CreateOrUpdate\<close> starts from when there is none of the name.\<close>

definition new_meta :: "string \<Rightarrow> string \<Rightarrow> ObjectMeta" where
  "new_meta ns nm = \<lparr>om_Name = nm, om_Namespace = ns, om_Generation = 0, om_Labels = Map.empty, om_Owner = None\<rparr>"

definition new_service :: "string \<Rightarrow> string \<Rightarrow> Service" where
  "new_service ns nm = \<lparr>sv_Meta = new_meta ns nm, sv_Type = [], sv_Selector = Map.empty, sv_Ports = []\<rparr>"

definition new_endpoints :: "string \<Rightarrow> string \<Rightarrow> Endpoints" where
  "new_endpoints ns nm = \<lparr>ep_Meta = new_meta ns nm, ep_Subsets = []\<rparr>"

definition new_spec :: KTunnelSpec where
  "new_spec = \<lparr>kt_DependsOn = [], kt_SSH = None, kt_Kubectl = None, kt_Health = None, kt_Restart = None,
     kt_StartupTimeout = None, kt_ShutdownTimeout = None, kt_NodeSelector = Map.empty, kt_Expose = None\<rparr>"

definition new_status :: KTunnelStatus where
  "new_status = \<lparr>kts_Phase = PhaseUnset, kts_Node = [], kts_ResolvedForwards = [], kts_ServiceRef = None,
     kts_ObservedGeneration = 0, kts_Conditions = [], kts_LastError = []\<rparr>"

definition new_tunnel :: "string \<Rightarrow> string \<Rightarrow> Tunnel" where
  "new_tunnel ns nm = \<lparr>tn_Meta = new_meta ns nm, tn_Spec = new_spec, tn_Status = new_status\<rparr>"

definition tunnel_id :: "Tunnel \<Rightarrow> string \<times> string" where
  "tunnel_id t = (om_Namespace (tn_Meta t), om_Name (tn_Meta t))"

locale kube_client =
  fixes K :: "'k kube"
    and services :: "'k \<Rightarrow> string \<Rightarrow> string \<Rightarrow> Service option"
    and endpoints :: "'k \<Rightarrow> string \<Rightarrow> string \<Rightarrow> Endpoints option"
  assumes matches: "k_matches K = selects"
    and status_stored: "k_get_tunnel K k ns nm = Inr t0 \<Longrightarrow> tn_Meta t = tn_Meta t0 \<Longrightarrow> tn_Spec t = tn_Spec t0 \<Longrightarrow>
      tunnel_id t = (ns, nm) \<Longrightarrow> k_update_tunnel_status K k t = (None, k') \<Longrightarrow> k_get_tunnel K k' ns nm = Inr t"
    and status_nodes: "k_update_tunnel_status K k t = (r, k') \<Longrightarrow> k_get_node K k' = k_get_node K k"
    and status_services: "k_update_tunnel_status K k t = (r, k') \<Longrightarrow>
      services k' = services k \<and> endpoints k' = endpoints k"
    and tunnel_named: "k_get_tunnel K k ns nm = Inr t \<Longrightarrow> tunnel_id t = (ns, nm)"
    and service_stored: "k_put_service K k ns nm f = (None, k') \<Longrightarrow>
      \<exists>s. f (case services k ns nm of None \<Rightarrow> new_service ns nm | Some s \<Rightarrow> s) = Inr s \<and>
        services k' ns nm = Some s"
    and service_frame: "k_put_service K k ns nm f = (r, k') \<Longrightarrow>
      endpoints k' = endpoints k \<and> k_get_node K k' = k_get_node K k \<and> k_get_tunnel K k' = k_get_tunnel K k \<and>
      (\<forall>ns' nm'. (ns', nm') \<noteq> (ns, nm) \<longrightarrow> services k' ns' nm' = services k ns' nm')"
    and endpoints_stored: "k_put_endpoints K k ns nm g = (None, k') \<Longrightarrow>
      \<exists>s. g (case endpoints k ns nm of None \<Rightarrow> new_endpoints ns nm | Some s \<Rightarrow> s) = Inr s \<and>
        endpoints k' ns nm = Some s"
    and endpoints_frame: "k_put_endpoints K k ns nm g = (r, k') \<Longrightarrow>
      services k' = services k \<and> k_get_node K k' = k_get_node K k \<and> k_get_tunnel K k' = k_get_tunnel K k"

text \<open>What the group and the key controllers rely on in addition.\<close>

locale kube_group_client = kube_client K services endpoints
  for K :: "'k kube"
    and services :: "'k \<Rightarrow> string \<Rightarrow> string \<Rightarrow> Service option"
    and endpoints :: "'k \<Rightarrow> string \<Rightarrow> string \<Rightarrow> Endpoints option" +
  assumes tunnel_put: "\<forall>t t'. h t = Inr t' \<longrightarrow> tunnel_id t' = tunnel_id t \<Longrightarrow> k_put_tunnel K k ns nm h = (None, k') \<Longrightarrow>
      \<exists>t. h (case k_get_tunnel K k ns nm of Inl e \<Rightarrow> new_tunnel ns nm | Inr t0 \<Rightarrow> t0) = Inr t \<and>
        k_get_tunnel K k' ns nm = Inr t"
    and tunnel_put_frame: "k_put_tunnel K k ns nm h = (r, k') \<Longrightarrow> (ns', nm') \<noteq> (ns, nm) \<Longrightarrow>
      k_get_tunnel K k' ns' nm' = k_get_tunnel K k ns' nm'"
    and group_status: "k_update_group_status K k g = (r, k') \<Longrightarrow> k_get_tunnel K k' = k_get_tunnel K k"
    and group_named: "k_get_group K k ns nm = Inr g \<Longrightarrow> om_Namespace (tg_Meta g) = ns \<and> om_Name (tg_Meta g) = nm"
    and key_named: "k_get_key K k ns nm = Inr x \<Longrightarrow> om_Namespace (tk_Meta x) = ns \<and> om_Name (tk_Meta x) = nm"
    and key_status: "k_get_key K k ns nm = Inr x0 \<Longrightarrow> tk_Meta x = tk_Meta x0 \<Longrightarrow> tk_Spec x = tk_Spec x0 \<Longrightarrow>
      k_update_key_status K k x = (None, k') \<Longrightarrow> k_get_key K k' ns nm = Inr x"
    and key_status_secrets: "k_update_key_status K k x = (r, k') \<Longrightarrow> k_get_secret K k' = k_get_secret K k"

section \<open>A cluster in memory\<close>

record cluster =
  cl_tunnels :: "(string \<times> string) \<rightharpoonup> Tunnel"
  cl_groups :: "(string \<times> string) \<rightharpoonup> TunnelGroup"
  cl_keys :: "(string \<times> string) \<rightharpoonup> TunnelKey"
  cl_secrets :: "(string \<times> string) \<rightharpoonup> Secret"
  cl_nodes :: "Node list"
  cl_services :: "(string \<times> string) \<rightharpoonup> Service"
  cl_endpoints :: "(string \<times> string) \<rightharpoonup> Endpoints"

definition got :: "'a option \<Rightarrow> file_err + 'a" where
  "got x = (case x of None \<Rightarrow> Inl (NotExist ''not found'') | Some a \<Rightarrow> Inr a)"

definition mem_owner :: "string \<Rightarrow> string option \<Rightarrow> err + string option" where
  "mem_owner ow cur =
    (case cur of None \<Rightarrow> Inr (Some ow) | Some c \<Rightarrow> if c = ow then Inr cur else Inl ''already owned'')"

definition named_tunnel :: "string \<Rightarrow> string \<Rightarrow> Tunnel \<Rightarrow> Tunnel" where
  "named_tunnel ns nm t = t\<lparr>tn_Meta := (tn_Meta t)\<lparr>om_Namespace := ns, om_Name := nm\<rparr>\<rparr>"

definition named_group :: "string \<Rightarrow> string \<Rightarrow> TunnelGroup \<Rightarrow> TunnelGroup" where
  "named_group ns nm t = t\<lparr>tg_Meta := (tg_Meta t)\<lparr>om_Namespace := ns, om_Name := nm\<rparr>\<rparr>"

definition named_key :: "string \<Rightarrow> string \<Rightarrow> TunnelKey \<Rightarrow> TunnelKey" where
  "named_key ns nm t = t\<lparr>tk_Meta := (tk_Meta t)\<lparr>om_Namespace := ns, om_Name := nm\<rparr>\<rparr>"

definition mem_kube :: "cluster kube" where
  "mem_kube =
    \<lparr>k_get_tunnel = (\<lambda>k ns nm. got (map_option (named_tunnel ns nm) (cl_tunnels k (ns, nm)))),
     k_get_group = (\<lambda>k ns nm. got (map_option (named_group ns nm) (cl_groups k (ns, nm)))),
     k_get_key = (\<lambda>k ns nm. got (map_option (named_key ns nm) (cl_keys k (ns, nm)))),
     k_get_secret = (\<lambda>k ns nm. got (cl_secrets k (ns, nm))),
     k_get_node = (\<lambda>k nm. got (find (\<lambda>n. nd_Name n = nm) (cl_nodes k))),
     k_list_nodes = (\<lambda>k. Inr (cl_nodes k)),
     k_matches = selects,
     k_set_owner = mem_owner,
     k_update_tunnel_status = (\<lambda>k t. case cl_tunnels k (tunnel_id t) of
        None \<Rightarrow> (Some ''not found'', k)
      | Some t0 \<Rightarrow> (None, k\<lparr>cl_tunnels := (cl_tunnels k)(tunnel_id t \<mapsto> t0\<lparr>tn_Status := tn_Status t\<rparr>)\<rparr>)),
     k_update_group_status = (\<lambda>k g. (None,
        k\<lparr>cl_groups := (cl_groups k)((om_Namespace (tg_Meta g), om_Name (tg_Meta g)) \<mapsto> g)\<rparr>)),
     k_update_key_status = (\<lambda>k x. (None,
        k\<lparr>cl_keys := (cl_keys k)((om_Namespace (tk_Meta x), om_Name (tk_Meta x)) \<mapsto> x)\<rparr>)),
     k_put_tunnel = (\<lambda>k ns nm f.
        case f (case cl_tunnels k (ns, nm) of None \<Rightarrow> new_tunnel ns nm | Some t \<Rightarrow> named_tunnel ns nm t) of
          Inl e \<Rightarrow> (Some e, k) | Inr t \<Rightarrow> (None, k\<lparr>cl_tunnels := (cl_tunnels k)((ns, nm) \<mapsto> t)\<rparr>)),
     k_put_service = (\<lambda>k ns nm f.
        case f (case cl_services k (ns, nm) of None \<Rightarrow> new_service ns nm | Some s \<Rightarrow> s) of
          Inl e \<Rightarrow> (Some e, k) | Inr s \<Rightarrow> (None, k\<lparr>cl_services := (cl_services k)((ns, nm) \<mapsto> s)\<rparr>)),
     k_put_endpoints = (\<lambda>k ns nm f.
        case f (case cl_endpoints k (ns, nm) of None \<Rightarrow> new_endpoints ns nm | Some s \<Rightarrow> s) of
          Inl e \<Rightarrow> (Some e, k) | Inr s \<Rightarrow> (None, k\<lparr>cl_endpoints := (cl_endpoints k)((ns, nm) \<mapsto> s)\<rparr>)),
     k_delete_service = (\<lambda>k ns nm. if cl_services k (ns, nm) = None then (Some (NotExist ''not found''), k)
        else (None, k\<lparr>cl_services := (cl_services k)((ns, nm) := None)\<rparr>)),
     k_delete_endpoints = (\<lambda>k ns nm. if cl_endpoints k (ns, nm) = None then (Some (NotExist ''not found''), k)
        else (None, k\<lparr>cl_endpoints := (cl_endpoints k)((ns, nm) := None)\<rparr>))\<rparr>"

lemma got_Inr [simp]: "got x = Inr a \<longleftrightarrow> x = Some a"
  by (cases x) (simp_all add: got_def)

lemma named_tunnel_id [simp]: "tunnel_id (named_tunnel ns nm t) = (ns, nm)"
  by (simp add: tunnel_id_def named_tunnel_def)

lemma named_tunnel_fields [simp]: "tn_Spec (named_tunnel ns nm t) = tn_Spec t"
  "tn_Status (named_tunnel ns nm t) = tn_Status t"
  by (simp_all add: named_tunnel_def)

lemma named_tunnel_status: "named_tunnel ns nm (t0\<lparr>tn_Status := s\<rparr>) = (named_tunnel ns nm t0)\<lparr>tn_Status := s\<rparr>"
  by (simp add: named_tunnel_def)

interpretation mem_kube: kube_client mem_kube "\<lambda>k ns nm. cl_services k (ns, nm)" "\<lambda>k ns nm. cl_endpoints k (ns, nm)"
proof (unfold_locales, goal_cases)
  case (2 k ns nm t0 t k')
  obtain s0 where s0: "cl_tunnels k (ns, nm) = Some s0" "t0 = named_tunnel ns nm s0"
    using 2(1) by (auto simp: mem_kube_def)
  have "t = (named_tunnel ns nm s0)\<lparr>tn_Status := tn_Status t\<rparr>"
    using 2(2,3) by (simp add: s0(2))
  then show ?case
    using 2(5) s0(1) by (auto simp: mem_kube_def 2(4) named_tunnel_status)
next
  case (6 k ns nm f k')
  then show ?case by (auto simp: mem_kube_def split: sum.splits)
next
  case (8 k ns nm f k')
  then show ?case by (auto simp: mem_kube_def split: sum.splits)
qed (auto simp: mem_kube_def split: option.splits sum.splits)

lemma named_tunnel_same: "tunnel_id t = (ns, nm) \<Longrightarrow> named_tunnel ns nm t = t"
  by (auto simp: tunnel_id_def named_tunnel_def)

lemma named_key_same: "om_Namespace (tk_Meta x) = ns \<Longrightarrow> om_Name (tk_Meta x) = nm \<Longrightarrow> named_key ns nm x = x"
  by (auto simp: named_key_def)

lemma new_tunnel_id [simp]: "tunnel_id (new_tunnel ns nm) = (ns, nm)"
  by (simp add: tunnel_id_def new_tunnel_def new_meta_def)

interpretation mem_kube: kube_group_client mem_kube "\<lambda>k ns nm. cl_services k (ns, nm)" "\<lambda>k ns nm. cl_endpoints k (ns, nm)"
proof (unfold_locales, goal_cases)
  case (1 h k ns nm k')
  let ?t0 = "case cl_tunnels k (ns, nm) of None \<Rightarrow> new_tunnel ns nm | Some t \<Rightarrow> named_tunnel ns nm t"
  have get: "(case k_get_tunnel mem_kube k ns nm of Inl e \<Rightarrow> new_tunnel ns nm | Inr t0 \<Rightarrow> t0) = ?t0"
    by (simp add: mem_kube_def got_def split: option.split)
  obtain t where t: "h ?t0 = Inr t" "k' = k\<lparr>cl_tunnels := (cl_tunnels k)((ns, nm) \<mapsto> t)\<rparr>"
    using 1(2) by (auto simp: mem_kube_def split: sum.splits)
  have "tunnel_id ?t0 = (ns, nm)"
    by (simp split: option.split)
  then have "named_tunnel ns nm t = t"
    using 1(1) t(1) by (auto intro!: named_tunnel_same)
  then show ?case
    unfolding get using t by (simp add: mem_kube_def)
next
  case (6 k ns nm x0 x k')
  then show ?case
    by (auto simp: mem_kube_def got_def named_key_def split: option.splits)
qed (auto simp: mem_kube_def named_group_def named_key_def split: option.splits sum.splits)

lemma mem_kube_simps:
  "k_set_owner mem_kube = mem_owner"
  "k_update_tunnel_status mem_kube k t = (case cl_tunnels k (tunnel_id t) of
     None \<Rightarrow> (Some ''not found'', k)
   | Some t0 \<Rightarrow> (None, k\<lparr>cl_tunnels := (cl_tunnels k)(tunnel_id t \<mapsto> t0\<lparr>tn_Status := tn_Status t\<rparr>)\<rparr>))"
  "k_put_tunnel mem_kube k ns nm h =
     (case h (case cl_tunnels k (ns, nm) of None \<Rightarrow> new_tunnel ns nm | Some t \<Rightarrow> named_tunnel ns nm t) of
        Inl e \<Rightarrow> (Some e, k) | Inr t \<Rightarrow> (None, k\<lparr>cl_tunnels := (cl_tunnels k)((ns, nm) \<mapsto> t)\<rparr>))"
  "k_put_service mem_kube k ns nm f =
     (case f (case cl_services k (ns, nm) of None \<Rightarrow> new_service ns nm | Some s \<Rightarrow> s) of
        Inl e \<Rightarrow> (Some e, k) | Inr s \<Rightarrow> (None, k\<lparr>cl_services := (cl_services k)((ns, nm) \<mapsto> s)\<rparr>))"
  "k_put_endpoints mem_kube k ns nm g =
     (case g (case cl_endpoints k (ns, nm) of None \<Rightarrow> new_endpoints ns nm | Some s \<Rightarrow> s) of
        Inl e \<Rightarrow> (Some e, k) | Inr s \<Rightarrow> (None, k\<lparr>cl_endpoints := (cl_endpoints k)((ns, nm) \<mapsto> s)\<rparr>))"
  by (simp_all add: mem_kube_def)

end
