(* ===== verification/Kube_Scheduler.thy ===== *)
theory Kube_Scheduler
  imports Kube_Client
begin

text \<open>
  \<open>k8s/controllers/scheduler.go\<close> and the node checks of \<open>tunnel_controller.go\<close>: which node a
  tunnel is put on, and whether a node it is on is still good. Names compare as strings of
  bytes do.
\<close>

definition isNodeReady :: "Node \<Rightarrow> bool" where
  "isNodeReady n =
    (case find (\<lambda>c. fst c = ''Ready'') (nd_Conditions n) of
       None \<Rightarrow> False
     | Some c \<Rightarrow> snd c = ''True'')"

fun internal_ip :: "string \<Rightarrow> (string \<times> string) list \<Rightarrow> string" where
  "internal_ip ext [] = ext"
| "internal_ip ext ((ty, a) # as) =
    (if ty = ''InternalIP'' then a
     else if ty = ''ExternalIP'' \<and> ext = [] then internal_ip a as
     else internal_ip ext as)"

definition nodeInternalIP :: "Node \<Rightarrow> string" where
  "nodeInternalIP n = internal_ip [] (nd_Addresses n)"

fun choose_node :: "((string \<rightharpoonup> string) \<Rightarrow> bool) \<Rightarrow> Node option \<Rightarrow> Node list \<Rightarrow> Node option" where
  "choose_node sel chosen [] = chosen"
| "choose_node sel chosen (n # ns) =
    choose_node sel
      (if \<not> sel (nd_Labels n) then chosen
       else if \<not> isNodeReady n then chosen
       else (case chosen of None \<Rightarrow> Some n | Some c \<Rightarrow> if nd_Name n < nd_Name c then Some n else chosen)) ns"

text \<open>\<open>fmt\<close> is how \<open>fmt\<close> prints the selector, a map.\<close>

definition pickNode :: "'k kube \<Rightarrow> ((string \<rightharpoonup> string) \<Rightarrow> string) \<Rightarrow> 'k \<Rightarrow> (string \<rightharpoonup> string) \<Rightarrow>
    err + (string \<times> string)" where
  "pickNode K fmt k selector =
    (case k_list_nodes K k of
       Inl e \<Rightarrow> Inl (''list nodes: '' @ e)
     | Inr nodes \<Rightarrow>
        (case choose_node (k_matches K selector) None nodes of
           None \<Rightarrow> Inl (''no Ready node matches selector '' @ fmt selector)
         | Some n \<Rightarrow> Inr (nd_Name n, nodeInternalIP n)))"

text \<open>\<open>es\<close> is the order in which the selector is visited.\<close>

definition label :: "Node \<Rightarrow> string \<Rightarrow> string" where
  "label n k = (case nd_Labels n k of None \<Rightarrow> [] | Some v \<Rightarrow> v)"

definition nodeStillValid :: "'k kube \<Rightarrow> 'k \<Rightarrow> (string \<times> string) list \<Rightarrow> string \<Rightarrow> bool" where
  "nodeStillValid K k es nm =
    (case k_get_node K k nm of
       Inl e \<Rightarrow> False
     | Inr n \<Rightarrow> list_all (\<lambda>(key, v). label n key = v) es \<and> isNodeReady n)"

definition nodeAddr :: "'k kube \<Rightarrow> 'k \<Rightarrow> string \<Rightarrow> err + (string \<times> string)" where
  "nodeAddr K k nm =
    (case k_get_node K k nm of
       Inl e \<Rightarrow> Inl (file_err_msg e)
     | Inr n \<Rightarrow> Inr (nm, nodeInternalIP n))"

section \<open>The chosen node\<close>

definition eligible :: "((string \<rightharpoonup> string) \<Rightarrow> bool) \<Rightarrow> Node \<Rightarrow> bool" where
  "eligible sel n \<longleftrightarrow> sel (nd_Labels n) \<and> isNodeReady n"

lemma choose_node_Some:
  "choose_node sel (Some c) ns = Some m \<Longrightarrow>
    m \<in> insert c {n \<in> set ns. eligible sel n} \<and>
    (\<forall>n \<in> insert c {n \<in> set ns. eligible sel n}. nd_Name m \<le> nd_Name n)"
proof (induction ns arbitrary: c)
  case Nil
  then show ?case by simp
next
  case (Cons n ns)
  show ?case
  proof (cases "eligible sel n \<and> nd_Name n < nd_Name c")
    case True
    with Cons.prems have "choose_node sel (Some n) ns = Some m"
      by (simp add: eligible_def)
    from Cons.IH [OF this] True show ?thesis
      by (auto intro: order.trans less_imp_le)
  next
    case False
    with Cons.prems have "choose_node sel (Some c) ns = Some m"
      by (auto simp: eligible_def split: if_splits)
    from Cons.IH [OF this] False show ?thesis
      by (auto simp: not_less intro: order.trans)
  qed
qed

lemma choose_node_total: "\<exists>m. choose_node sel (Some c) ns = Some m"
  by (induction ns arbitrary: c) (simp_all split: option.splits)

lemma choose_node_None:
  "choose_node sel None ns =
    (case dropWhile (\<lambda>n. \<not> eligible sel n) ns of [] \<Rightarrow> None | n # rest \<Rightarrow> choose_node sel (Some n) rest)"
  by (induction ns) (auto simp: eligible_def)

lemma choose_node_least:
  assumes "choose_node sel None ns = Some m"
  shows "m \<in> set ns" "eligible sel m" "\<forall>n \<in> set ns. eligible sel n \<longrightarrow> nd_Name m \<le> nd_Name n"
proof -
  let ?D = "dropWhile (\<lambda>n. \<not> eligible sel n) ns"
  obtain n rest where d: "?D = n # rest"
    using assms by (cases ?D) (auto simp: choose_node_None)
  then have n: "eligible sel n"
    using dropWhile_eq_Cons_conv [of "\<lambda>n. \<not> eligible sel n" ns] by auto
  have ns: "ns = takeWhile (\<lambda>n. \<not> eligible sel n) ns @ n # rest"
    using d takeWhile_dropWhile_id [of "\<lambda>n. \<not> eligible sel n" ns] by simp
  have "choose_node sel (Some n) rest = Some m"
    using assms d by (simp add: choose_node_None)
  note m = choose_node_Some [OF this]
  have mem: "x \<in> set ns" if "x \<in> set (n # rest)" for x
    using that d by (metis set_dropWhileD)
  show "m \<in> set ns" "eligible sel m"
    using m n mem by auto
  have "eligible sel x \<Longrightarrow> x \<in> set ns \<Longrightarrow> x \<in> set (n # rest)" for x
    using ns set_takeWhileD [of x "\<lambda>n. \<not> eligible sel n" ns] by (metis Un_iff set_append)
  then show "\<forall>x \<in> set ns. eligible sel x \<longrightarrow> nd_Name m \<le> nd_Name x"
    using m by auto
qed

lemma choose_node_no: "choose_node sel None ns = None \<longleftrightarrow> (\<forall>n \<in> set ns. \<not> eligible sel n)"
proof (induction ns)
  case (Cons n ns)
  obtain m where "choose_node sel (Some n) ns = Some m"
    using choose_node_total by blast
  with Cons show ?case
    by (cases "eligible sel n") (auto simp: eligible_def)
qed simp

lemma pickNode_outcome:
  assumes "k_list_nodes K k = Inr nodes" and "k_matches K = selects"
    and "\<forall>n \<in> set nodes. k_get_node K k (nd_Name n) = Inr n"
    and "enumerates es sel"
  shows "case pickNode K fmt k sel of
      Inl e \<Rightarrow> \<not> (\<exists>n \<in> set nodes. selects sel (nd_Labels n) \<and> isNodeReady n)
    | Inr (nm, ip) \<Rightarrow> \<exists>n \<in> set nodes. nm = nd_Name n \<and> ip = nodeInternalIP n \<and>
        selects sel (nd_Labels n) \<and> isNodeReady n \<and>
        (\<forall>m \<in> set nodes. selects sel (nd_Labels m) \<and> isNodeReady m \<longrightarrow> nm \<le> nd_Name m) \<and>
        nodeStillValid K k es nm \<and> nodeAddr K k nm = Inr (nm, ip)"
proof (cases "choose_node (selects sel) None nodes")
  case None
  then show ?thesis
    using assms(1,2) None [unfolded choose_node_no] by (simp add: pickNode_def None eligible_def)
next
  case (Some m)
  note m = choose_node_least [OF Some]
  have "label m key = v" if "(key, v) \<in> set es" for key v
    using m(2) that enumerates_mem [OF assms(4)] by (auto simp: eligible_def selects_def label_def)
  then have "nodeStillValid K k es (nd_Name m)"
    using m(2) bspec [OF assms(3) m(1)] by (auto simp: nodeStillValid_def eligible_def list_all_iff)
  then show ?thesis
    using assms(1,2) bspec [OF assms(3) m(1)] m Some by (auto simp: pickNode_def nodeAddr_def eligible_def)
qed

text \<open>
  Scheduling picks, among the ready nodes whose labels match the selector, the one with the
  least name, with its internal address, and fails exactly when there is none. So the choice
  does not depend on the order in which the nodes are listed, and right after it the node
  passes the check that keeps the tunnel there.
\<close>

theorem pickNode_correct:
  assumes "k_list_nodes K k = Inr nodes" and "k_matches K = selects"
    and "\<forall>n \<in> set nodes. k_get_node K k (nd_Name n) = Inr n"
    and "enumerates es sel"
  shows "case pickNode K fmt k sel of
      Inl e \<Rightarrow> \<not> (\<exists>n \<in> set nodes. selects sel (nd_Labels n) \<and> isNodeReady n)
    | Inr (nm, ip) \<Rightarrow> \<exists>n \<in> set nodes. nm = nd_Name n \<and> ip = nodeInternalIP n \<and>
        selects sel (nd_Labels n) \<and> isNodeReady n \<and>
        (\<forall>m \<in> set nodes. selects sel (nd_Labels m) \<and> isNodeReady m \<longrightarrow> nm \<le> nd_Name m) \<and>
        nodeStillValid K k es nm \<and> nodeAddr K k nm = Inr (nm, ip)"
  by (rule pickNode_outcome [OF assms])

definition demo_node :: "string \<Rightarrow> Node" where
  "demo_node nm = \<lparr>nd_Name = nm, nd_Labels = [''zone'' \<mapsto> ''a''], nd_Conditions = [(''Ready'', ''True'')],
     nd_Addresses = [(''InternalIP'', ''10.0.0.1'')]\<rparr>"

definition demo_cluster :: cluster where
  "demo_cluster = \<lparr>cl_tunnels = Map.empty, cl_groups = Map.empty, cl_keys = Map.empty, cl_secrets = Map.empty,
     cl_nodes = [demo_node ''node-b'', demo_node ''node-a''], cl_services = Map.empty, cl_endpoints = Map.empty\<rparr>"

lemma demo_cluster_simps [simp]: "cl_services demo_cluster = Map.empty" "cl_endpoints demo_cluster = Map.empty"
  by (simp_all add: demo_cluster_def)

lemma pickNode_correct_witness:
  "pickNode mem_kube (\<lambda>s. []) demo_cluster [''zone'' \<mapsto> ''a''] = Inr (''node-a'', ''10.0.0.1'') \<and>
   nodeStillValid mem_kube demo_cluster [(''zone'', ''a'')] ''node-a''"
proof -
  have nodes: "k_list_nodes mem_kube demo_cluster = Inr [demo_node ''node-b'', demo_node ''node-a'']"
    "k_get_node mem_kube demo_cluster ''node-b'' = Inr (demo_node ''node-b'')"
    "k_get_node mem_kube demo_cluster ''node-a'' = Inr (demo_node ''node-a'')"
    by (simp_all add: mem_kube_def demo_cluster_def demo_node_def got_def)
  have sel: "selects [''zone'' \<mapsto> ''a''] (nd_Labels (demo_node n))" "isNodeReady (demo_node n)" for n
    by (simp_all add: selects_def demo_node_def isNodeReady_def)
  have pick: "pickNode mem_kube (\<lambda>s. []) demo_cluster [''zone'' \<mapsto> ''a''] = Inr (''node-a'', ''10.0.0.1'')"
  proof -
    have "''node-a'' < (''node-b'' :: string)"
      by code_simp
    then show ?thesis
      using sel by (simp add: pickNode_def nodes mem_kube.matches nodeInternalIP_def) (simp add: demo_node_def)
  qed
  have get: "\<forall>n \<in> set [demo_node ''node-b'', demo_node ''node-a'']. k_get_node mem_kube demo_cluster (nd_Name n) = Inr n"
    using nodes by (auto simp: demo_node_def)
  have "enumerates [(''zone'', ''a'')] [''zone'' \<mapsto> ''a'']"
    by (simp add: enumerates_def)
  from pickNode_correct [OF nodes(1) mem_kube.matches get this, of "\<lambda>s. []"] pick show ?thesis
    by auto
qed

end
