(* ===== verification/Kube_Tunnel.thy ===== *)
theory Kube_Tunnel
  imports Kube_Scheduler
begin

text \<open>
  \<open>k8s/controllers/service.go\<close> and \<open>tunnel_controller.go\<close>: the service of an exposed tunnel and
  the reconciliation of a tunnel by the central controller. Messages and labels as in the
  code; an index out of range is a panic.
\<close>

section \<open>Services\<close>

definition go_nth :: "'a list \<Rightarrow> int32 \<Rightarrow> 'a go" where
  "go_nth xs i = (if 0 \<le> sint i \<and> sint i < int (length xs) then Ret (xs ! nat (sint i)) else Panic)"

definition expose_index :: "KTunnelSpec \<Rightarrow> int32" where
  "expose_index s = (case kt_Expose s of None \<Rightarrow> 0 | Some e \<Rightarrow> ex_ForwardIndex e)"

definition servicePort :: "Tunnel \<Rightarrow> int32 go" where
  "servicePort t =
    (let s = tn_Spec t; idx = expose_index s in
     case kt_SSH s of
       Some ssh \<Rightarrow>
         if sint idx < int (length (kssh_LocalForwards ssh))
         then bind_go (go_nth (kssh_LocalForwards ssh) idx) (\<lambda>f. Ret (ksf_TargetPort f))
         else (case kt_Kubectl s of
           Some kc \<Rightarrow> if sint idx < int (length (kkc_Forwards kc))
             then bind_go (go_nth (kkc_Forwards kc) idx) (\<lambda>f. Ret (kkf_RemotePort f)) else Ret 0
         | None \<Rightarrow> Ret 0)
     | None \<Rightarrow> (case kt_Kubectl s of
           Some kc \<Rightarrow> if sint idx < int (length (kkc_Forwards kc))
             then bind_go (go_nth (kkc_Forwards kc) idx) (\<lambda>f. Ret (kkf_RemotePort f)) else Ret 0
         | None \<Rightarrow> Ret 0))"

definition managedLabels :: "string \<Rightarrow> (string \<rightharpoonup> string)" where
  "managedLabels nm = [''app.kubernetes.io/managed-by'' \<mapsto> ''tunneld-controller'', ''tunneld.io/tunnel'' \<mapsto> nm]"

definition mergeLabels :: "(string \<rightharpoonup> string) \<Rightarrow> (string \<rightharpoonup> string) \<Rightarrow> (string \<rightharpoonup> string)" where
  "mergeLabels a b = a ++ b"

text \<open>\<open>SetControllerReference\<close> of the tunnel on an object.\<close>

definition own :: "'k kube \<Rightarrow> string \<Rightarrow> ObjectMeta \<Rightarrow> err + ObjectMeta" where
  "own K owner m = (case k_set_owner K owner (om_Owner m) of Inl e \<Rightarrow> Inl e | Inr w \<Rightarrow> Inr (m\<lparr>om_Owner := w\<rparr>))"

definition service_mutate :: "'k kube \<Rightarrow> Tunnel \<Rightarrow> int32 \<Rightarrow> int32 \<Rightarrow> Service \<Rightarrow> err + Service" where
  "service_mutate K t port actualPort svc =
    (let m = (sv_Meta svc)\<lparr>om_Labels := mergeLabels (om_Labels (sv_Meta svc)) (managedLabels (om_Name (tn_Meta t)))\<rparr> in
     case own K (om_Name (tn_Meta t)) m of
       Inl e \<Rightarrow> Inl e
     | Inr m' \<Rightarrow> Inr (svc\<lparr>sv_Meta := m', sv_Type := ''ClusterIP'', sv_Selector := Map.empty,
         sv_Ports := [\<lparr>svp_Name = ''tunnel'', svp_Port = port, svp_TargetPort = actualPort, svp_Protocol = ''TCP''\<rparr>]\<rparr>))"

definition endpoints_mutate :: "'k kube \<Rightarrow> Tunnel \<Rightarrow> string \<Rightarrow> int32 \<Rightarrow> Endpoints \<Rightarrow> err + Endpoints" where
  "endpoints_mutate K t nodeIP actualPort ep =
    (let m = (ep_Meta ep)\<lparr>om_Labels := mergeLabels (om_Labels (ep_Meta ep)) (managedLabels (om_Name (tn_Meta t)))\<rparr> in
     case own K (om_Name (tn_Meta t)) m of
       Inl e \<Rightarrow> Inl e
     | Inr m' \<Rightarrow> Inr (ep\<lparr>ep_Meta := m', ep_Subsets := [([nodeIP], [(''tunnel'', actualPort, ''TCP'')])]\<rparr>))"

definition expose_requested :: "KTunnelSpec \<Rightarrow> bool" where
  "expose_requested s = (case kt_Expose s of None \<Rightarrow> False | Some e \<Rightarrow> ex_Service e)"

definition service_name :: "Tunnel \<Rightarrow> string" where
  "service_name t =
    (case kt_Expose (tn_Spec t) of
       None \<Rightarrow> om_Name (tn_Meta t)
     | Some e \<Rightarrow> if ex_ServiceName e = [] then om_Name (tn_Meta t) else ex_ServiceName e)"

definition reconcileTunnelService :: "'k kube \<Rightarrow> Tunnel \<Rightarrow> string \<Rightarrow> int32 \<Rightarrow> 'k \<Rightarrow> ((err + string) \<times> 'k) go" where
  "reconcileTunnelService K t nodeIP actualPort k =
    (if \<not> expose_requested (tn_Spec t) then Ret (Inr [], k)
     else if nodeIP = [] \<or> sint actualPort \<le> 0
     then Ret (Inl ''missing nodeIP or actualPort for service exposure'', k)
     else bind_go (servicePort t) (\<lambda>port0.
       let ns = om_Namespace (tn_Meta t); nm = service_name t;
           port = (if port0 = 0 then actualPort else port0) in
       case k_put_service K k ns nm (service_mutate K t port actualPort) of
         (Some e, k1) \<Rightarrow> Ret (Inl (''reconcile service: '' @ e), k1)
       | (None, k1) \<Rightarrow>
          (case k_put_endpoints K k1 ns nm (endpoints_mutate K t nodeIP actualPort) of
             (Some e, k2) \<Rightarrow> Ret (Inl (''reconcile endpoints: '' @ e), k2)
           | (None, k2) \<Rightarrow> Ret (Inr nm, k2))))"

definition hard_error :: "file_err option \<Rightarrow> err option" where
  "hard_error e = (case e of None \<Rightarrow> None | Some (NotExist m) \<Rightarrow> None | Some (FileErr m) \<Rightarrow> Some m)"

definition deleteTunnelService :: "'k kube \<Rightarrow> string \<Rightarrow> string \<Rightarrow> 'k \<Rightarrow> err option \<times> 'k" where
  "deleteTunnelService K ns nm k =
    (case k_delete_service K k ns nm of (e1, k1) \<Rightarrow>
       (case hard_error e1 of
          Some m \<Rightarrow> (Some m, k1)
        | None \<Rightarrow> (case k_delete_endpoints K k1 ns nm of (e2, k2) \<Rightarrow> (hard_error e2, k2))))"

section \<open>The reconciliation\<close>

definition requeueAfterErr :: int where "requeueAfterErr = 15 * Second"

text \<open>\<open>now\<close> is \<open>metav1.Now()\<close>.\<close>

fun replace_condition :: "Condition \<Rightarrow> Condition list \<Rightarrow> Condition list" where
  "replace_condition cond [] = [cond]"
| "replace_condition cond (c # cs) =
    (if cd_Type c = cd_Type cond then cond # cs else c # replace_condition cond cs)"

definition setCondition :: "int \<Rightarrow> string \<Rightarrow> string \<Rightarrow> string \<Rightarrow> string \<Rightarrow> Tunnel \<Rightarrow> Tunnel" where
  "setCondition now ctype st reason msg t =
    t\<lparr>tn_Status := (tn_Status t)\<lparr>kts_Conditions := replace_condition
      \<lparr>cd_Type = ctype, cd_Status = st, cd_Reason = reason, cd_Message = msg, cd_LastTransitionTime = now,
       cd_ObservedGeneration = om_Generation (tn_Meta t)\<rparr> (kts_Conditions (tn_Status t))\<rparr>\<rparr>"

definition with_error :: "TunnelPhase \<Rightarrow> err \<Rightarrow> Tunnel \<Rightarrow> Tunnel" where
  "with_error phase msg t =
    t\<lparr>tn_Status := (tn_Status t)\<lparr>kts_Phase := phase, kts_LastError := msg,
      kts_ObservedGeneration := om_Generation (tn_Meta t)\<rparr>\<rparr>"

definition tc_degrade :: "'k kube \<Rightarrow> int \<Rightarrow> Tunnel \<Rightarrow> err \<Rightarrow> 'k \<Rightarrow> (Result \<times> err option) \<times> 'k" where
  "tc_degrade K now t msg k =
    (case k_update_tunnel_status K k
        (setCondition now ''Ready'' ''False'' ''Degraded'' msg (with_error PhaseDegraded msg t)) of
       (e, k1) \<Rightarrow> ((requeue_after requeueAfterErr, e), k1))"

definition tc_fail :: "'k kube \<Rightarrow> int \<Rightarrow> Tunnel \<Rightarrow> err \<Rightarrow> 'k \<Rightarrow> (Result \<times> err option) \<times> 'k" where
  "tc_fail K now t msg k =
    (case k_update_tunnel_status K k
        (setCondition now ''Ready'' ''False'' ''Invalid'' msg (with_error PhaseFailed msg t)) of
       (e, k1) \<Rightarrow> ((no_result, e), k1))"

definition pickActualPort :: "Tunnel \<Rightarrow> int32 go" where
  "pickActualPort t =
    (let idx = expose_index (tn_Spec t); fs = kts_ResolvedForwards (tn_Status t) in
     if sint idx \<ge> int (length fs) then Ret 0
     else bind_go (go_nth fs idx) (\<lambda>f. Ret (krf_ActualPort f)))"

definition tc_schedule :: "'k kube \<Rightarrow> ((string \<rightharpoonup> string) \<Rightarrow> string) \<Rightarrow> int \<Rightarrow> Tunnel \<Rightarrow> 'k \<Rightarrow>
    (Result \<times> err option) \<times> 'k" where
  "tc_schedule K fmt now t k =
    (case pickNode K fmt k (kt_NodeSelector (tn_Spec t)) of
       Inl e \<Rightarrow> tc_degrade K now t (''scheduling: '' @ e) k
     | Inr (node, ip) \<Rightarrow>
        (case k_update_tunnel_status K k
            (t\<lparr>tn_Status := (tn_Status t)\<lparr>kts_Node := node, kts_Phase := PhasePending\<rparr>\<rparr>) of
           (Some e, k1) \<Rightarrow> ((no_result, Some e), k1)
         | (None, k1) \<Rightarrow> ((\<lparr>res_Requeue = True, res_RequeueAfter = 0\<rparr>, None), k1)))"

definition set_service_ref :: "'k kube \<Rightarrow> LocalObjectRef option \<Rightarrow> Tunnel \<Rightarrow> 'k \<Rightarrow> (Result \<times> err option) \<times> 'k" where
  "set_service_ref K ref t k =
    (case k_update_tunnel_status K k (t\<lparr>tn_Status := (tn_Status t)\<lparr>kts_ServiceRef := ref\<rparr>\<rparr>) of
       (e, k1) \<Rightarrow> ((no_result, e), k1))"

definition tc_expose :: "'k kube \<Rightarrow> int \<Rightarrow> Tunnel \<Rightarrow> int32 \<Rightarrow> 'k \<Rightarrow> ((Result \<times> err option) \<times> 'k) go" where
  "tc_expose K now t actualPort k =
    (case nodeAddr K k (kts_Node (tn_Status t)) of
       Inl e \<Rightarrow> Ret (tc_degrade K now t (''node lookup: '' @ e) k)
     | Inr (nm, nodeIP) \<Rightarrow>
        bind_go (reconcileTunnelService K t nodeIP actualPort k)
          (\<lambda>(r, k1). case r of
             Inl e \<Rightarrow> Ret ((no_result, Some e), k1)
           | Inr svcName \<Rightarrow>
              if svcName \<noteq> [] then Ret (set_service_ref K (Some \<lparr>lo_Name = svcName\<rparr>) t k1)
              else Ret ((no_result, None), k1)))"

definition tc_unexpose :: "'k kube \<Rightarrow> Tunnel \<Rightarrow> LocalObjectRef \<Rightarrow> 'k \<Rightarrow> (Result \<times> err option) \<times> 'k" where
  "tc_unexpose K t ref k =
    (case deleteTunnelService K (om_Namespace (tn_Meta t)) (lo_Name ref) k of
       (Some e, k1) \<Rightarrow> ((no_result, Some e), k1)
     | (None, k1) \<Rightarrow> set_service_ref K None t k1)"

definition tc_Reconcile :: "'k kube \<Rightarrow> ((string \<rightharpoonup> string) \<Rightarrow> string) \<Rightarrow> int \<Rightarrow> (string \<times> string) list \<Rightarrow>
    string \<Rightarrow> string \<Rightarrow> 'k \<Rightarrow> ((Result \<times> err option) \<times> 'k) go" where
  "tc_Reconcile K fmt now es ns nm k =
    (case k_get_tunnel K k ns nm of
       Inl (NotExist e) \<Rightarrow> Ret ((no_result, None), k)
     | Inl (FileErr e) \<Rightarrow> Ret ((no_result, Some e), k)
     | Inr t \<Rightarrow>
        if (kt_SSH (tn_Spec t) = None) = (kt_Kubectl (tn_Spec t) = None)
        then Ret (tc_fail K now t ''exactly one of spec.ssh or spec.kubectl must be set'' k)
        else if kts_Node (tn_Status t) = [] \<or> \<not> nodeStillValid K k es (kts_Node (tn_Status t))
        then Ret (tc_schedule K fmt now t k)
        else bind_go (pickActualPort t) (\<lambda>actualPort.
          if expose_requested (tn_Spec t) \<and> sint actualPort > 0 then tc_expose K now t actualPort k
          else if \<not> expose_requested (tn_Spec t)
          then (case kts_ServiceRef (tn_Status t) of
             Some ref \<Rightarrow> Ret (tc_unexpose K t ref k)
           | None \<Rightarrow> Ret ((no_result, None), k))
          else Ret ((no_result, None), k)))"

section \<open>Properties\<close>

lemma go_nth_Panic: "go_nth xs i = Panic \<longleftrightarrow> sint i < 0 \<or> sint i \<ge> int (length xs)"
  by (auto simp: go_nth_def)

lemma bind_Ret_Panic [simp]: "bind_go m (\<lambda>x. Ret (f x)) = Panic \<longleftrightarrow> m = Panic"
  by (cases m) simp_all

lemma pickActualPort_Panic: "pickActualPort t = Panic \<longleftrightarrow> sint (expose_index (tn_Spec t)) < 0"
  by (auto simp: pickActualPort_def Let_def go_nth_Panic)

lemma servicePort_returns:
  assumes "0 \<le> sint (expose_index (tn_Spec t))"
  shows "\<exists>p. servicePort t = Ret p"
proof -
  have "servicePort t \<noteq> Panic"
    using assms by (auto simp: servicePort_def Let_def go_nth_Panic split: option.splits)
  then show ?thesis
    by (cases "servicePort t") auto
qed

lemma reconcileTunnelService_returns:
  assumes "0 \<le> sint (expose_index (tn_Spec t))"
  shows "\<exists>r. reconcileTunnelService K t ip port k = Ret r"
proof -
  obtain p where p: "servicePort t = Ret p"
    using servicePort_returns [OF assms] by blast
  show ?thesis
    by (simp add: reconcileTunnelService_def p Let_def split: prod.split option.split)
qed

lemma tc_expose_returns:
  assumes "0 \<le> sint (expose_index (tn_Spec t))"
  shows "tc_expose K now t port k \<noteq> Panic"
proof (cases "nodeAddr K k (kts_Node (tn_Status t))")
  case (Inr a)
  obtain nm ip where a: "a = (nm, ip)"
    by (rule prod.exhaust)
  obtain r k1 where "reconcileTunnelService K t ip port k = Ret (r, k1)"
    using reconcileTunnelService_returns [OF assms] by (metis prod.exhaust)
  then show ?thesis
    using Inr a by (cases r) (simp_all add: tc_expose_def)
qed (simp add: tc_expose_def)

text \<open>
  C37: The reconciliation of a tunnel panics in exactly one case: the tunnel is valid and on a
  good node, and its \<open>forwardIndex\<close> is negative, which nothing rules out, whether or not it
  asks for a service.
\<close>

theorem tc_Reconcile_panics_iff:
  "tc_Reconcile K fmt now es ns nm k = Panic \<longleftrightarrow>
    (\<exists>t. k_get_tunnel K k ns nm = Inr t \<and>
      (kt_SSH (tn_Spec t) = None) \<noteq> (kt_Kubectl (tn_Spec t) = None) \<and>
      kts_Node (tn_Status t) \<noteq> [] \<and> nodeStillValid K k es (kts_Node (tn_Status t)) \<and>
      sint (expose_index (tn_Spec t)) < 0)"
proof (cases "k_get_tunnel K k ns nm")
  case (Inl e)
  then show ?thesis by (cases e) (simp_all add: tc_Reconcile_def)
next
  case (Inr t)
  show ?thesis
  proof (cases "pickActualPort t")
    case (Ret p)
    then have "0 \<le> sint (expose_index (tn_Spec t))"
      using pickActualPort_Panic [of t] by simp
    then show ?thesis
      using Ret Inr tc_expose_returns [of t K now p k] by (simp add: tc_Reconcile_def split: option.split)
  next
    case Panic
    then show ?thesis
      using Inr pickActualPort_Panic [of t] by (simp add: tc_Reconcile_def)
  qed
qed

text \<open>The steps that a valid tunnel takes on a good node, and before it has one.\<close>

definition valid_kind :: "Tunnel \<Rightarrow> bool" where
  "valid_kind t \<longleftrightarrow> (kt_SSH (tn_Spec t) = None) \<noteq> (kt_Kubectl (tn_Spec t) = None)"

definition placed :: "'k kube \<Rightarrow> 'k \<Rightarrow> (string \<times> string) list \<Rightarrow> Tunnel \<Rightarrow> bool" where
  "placed K k es t \<longleftrightarrow> kts_Node (tn_Status t) \<noteq> [] \<and> nodeStillValid K k es (kts_Node (tn_Status t))"

lemma tc_Reconcile_placed:
  assumes "k_get_tunnel K k ns nm = Inr t" and "valid_kind t" and "placed K k es t"
  shows "tc_Reconcile K fmt now es ns nm k = bind_go (pickActualPort t) (\<lambda>actualPort.
      if expose_requested (tn_Spec t) \<and> sint actualPort > 0 then tc_expose K now t actualPort k
      else if \<not> expose_requested (tn_Spec t)
      then (case kts_ServiceRef (tn_Status t) of
         Some ref \<Rightarrow> Ret (tc_unexpose K t ref k)
       | None \<Rightarrow> Ret ((no_result, None), k))
      else Ret ((no_result, None), k))"
proof -
  have kind: "\<not> ((kt_SSH (tn_Spec t) = None) = (kt_Kubectl (tn_Spec t) = None))"
    and node: "\<not> (kts_Node (tn_Status t) = [] \<or> \<not> nodeStillValid K k es (kts_Node (tn_Status t)))"
    using assms(2,3) unfolding valid_kind_def placed_def by blast+
  show ?thesis
    unfolding tc_Reconcile_def assms(1) sum.case if_not_P [OF kind] if_not_P [OF node] ..
qed

context kube_client
begin

lemma schedule_stored:
  assumes "k_get_tunnel K k ns nm = Inr t" and "pickNode K fmt k (kt_NodeSelector (tn_Spec t)) = Inr (node, ip)"
    and "tc_schedule K fmt now t k = ((r, None), k')"
  shows "r = \<lparr>res_Requeue = True, res_RequeueAfter = 0\<rparr>"
    and "k_get_tunnel K k' ns nm = Inr (t\<lparr>tn_Status := (tn_Status t)\<lparr>kts_Node := node, kts_Phase := PhasePending\<rparr>\<rparr>)"
    and "k_get_node K k' = k_get_node K k"
proof -
  let ?t = "t\<lparr>tn_Status := (tn_Status t)\<lparr>kts_Node := node, kts_Phase := PhasePending\<rparr>\<rparr>"
  obtain e k1 where up: "k_update_tunnel_status K k ?t = (e, k1)"
    by (rule prod.exhaust)
  have ok: "e = None" "k' = k1" "r = \<lparr>res_Requeue = True, res_RequeueAfter = 0\<rparr>"
    using assms(2,3) up by (auto simp: tc_schedule_def split: option.splits)
  show "r = \<lparr>res_Requeue = True, res_RequeueAfter = 0\<rparr>"
    by (rule ok(3))
  have up': "k_update_tunnel_status K k ?t = (None, k')"
    using up ok by simp
  have "tunnel_id ?t = (ns, nm)"
    using tunnel_named [OF assms(1)] by (simp add: tunnel_id_def)
  then show "k_get_tunnel K k' ns nm = Inr ?t"
    using status_stored [OF assms(1) _ _ _ up'] by simp
  show "k_get_node K k' = k_get_node K k"
    by (rule status_nodes [OF up'])
qed

lemma degrade_stored:
  assumes "k_get_tunnel K k ns nm = Inr t" and "tc_degrade K now t msg k = ((r, None), k')"
  shows "r = requeue_after requeueAfterErr"
    and "k_get_tunnel K k' ns nm =
      Inr (setCondition now ''Ready'' ''False'' ''Degraded'' msg (with_error PhaseDegraded msg t))"
proof -
  let ?t = "setCondition now ''Ready'' ''False'' ''Degraded'' msg (with_error PhaseDegraded msg t)"
  have up: "k_update_tunnel_status K k ?t = (None, k')" and r: "r = requeue_after requeueAfterErr"
    using assms(2) by (auto simp: tc_degrade_def split: prod.splits)
  show "r = requeue_after requeueAfterErr"
    by (rule r)
  have same: "tn_Meta ?t = tn_Meta t" "tn_Spec ?t = tn_Spec t"
    by (simp_all add: setCondition_def with_error_def)
  then have "tunnel_id ?t = (ns, nm)"
    using tunnel_named [OF assms(1)] by (simp add: tunnel_id_def)
  then show "k_get_tunnel K k' ns nm = Inr ?t"
    by (rule status_stored [OF assms(1) same _ up])
qed

lemma service_written:
  assumes "reconcileTunnelService K t ip port k = Ret (Inr nm, k')" and "nm \<noteq> []"
  shows "nm = service_name t" "ip \<noteq> []" "0 < sint port"
    and "\<exists>p svc. servicePort t = Ret p \<and> services k' (om_Namespace (tn_Meta t)) nm = Some svc \<and>
      sv_Selector svc = Map.empty \<and> sv_Type svc = ''ClusterIP'' \<and>
      sv_Ports svc = [\<lparr>svp_Name = ''tunnel'', svp_Port = (if p = 0 then port else p), svp_TargetPort = port,
        svp_Protocol = ''TCP''\<rparr>]"
    and "\<exists>ep. endpoints k' (om_Namespace (tn_Meta t)) nm = Some ep \<and>
      ep_Subsets ep = [([ip], [(''tunnel'', port, ''TCP'')])]"
    and "\<forall>n. n \<noteq> nm \<longrightarrow> services k' (om_Namespace (tn_Meta t)) n = services k (om_Namespace (tn_Meta t)) n"
    and "k_get_tunnel K k' = k_get_tunnel K k"
proof -
  let ?ns = "om_Namespace (tn_Meta t)"
  have req: "expose_requested (tn_Spec t)" and ip: "ip \<noteq> []" "0 < sint port"
    using assms by (auto simp: reconcileTunnelService_def split: if_splits)
  from assms(1) req ip obtain p where p: "servicePort t = Ret p"
    by (auto simp: reconcileTunnelService_def bind_go_Ret_iff)
  let ?port = "if p = 0 then port else p"
  obtain e1 k1 where s: "k_put_service K k ?ns (service_name t) (service_mutate K t ?port port) = (e1, k1)"
    by (rule prod.exhaust)
  obtain e2 k2 where e: "k_put_endpoints K k1 ?ns (service_name t) (endpoints_mutate K t ip port) = (e2, k2)"
    by (rule prod.exhaust)
  have ok: "e1 = None" "e2 = None" "k' = k2" "nm = service_name t"
    using assms(1) req ip p s e by (auto simp: reconcileTunnelService_def Let_def split: option.splits)
  note s' = s [unfolded ok(1)] and e' = e [unfolded ok(2)]
  obtain svc where svc: "service_mutate K t ?port port (case services k ?ns (service_name t) of
      None \<Rightarrow> new_service ?ns (service_name t) | Some x \<Rightarrow> x) = Inr svc"
    "services k1 ?ns (service_name t) = Some svc"
    using service_stored [OF s'] by blast
  obtain ep where ep: "endpoints_mutate K t ip port (case endpoints k1 ?ns (service_name t) of
      None \<Rightarrow> new_endpoints ?ns (service_name t) | Some x \<Rightarrow> x) = Inr ep"
    "endpoints k2 ?ns (service_name t) = Some ep"
    using endpoints_stored [OF e'] by blast
  note fs = service_frame [OF s'] and fe = endpoints_frame [OF e']
  show "nm = service_name t" "ip \<noteq> []" "0 < sint port"
    by (rule ok(4), rule ip(1), rule ip(2))
  have "services k' ?ns nm = Some svc"
    using svc(2) fe ok by simp
  with svc(1) p show "\<exists>p svc. servicePort t = Ret p \<and> services k' ?ns nm = Some svc \<and>
      sv_Selector svc = Map.empty \<and> sv_Type svc = ''ClusterIP'' \<and>
      sv_Ports svc = [\<lparr>svp_Name = ''tunnel'', svp_Port = (if p = 0 then port else p), svp_TargetPort = port,
        svp_Protocol = ''TCP''\<rparr>]"
    by (intro exI [of _ p] exI [of _ svc]) (auto simp: service_mutate_def Let_def split: sum.splits)
  show "\<exists>ep. endpoints k' ?ns nm = Some ep \<and> ep_Subsets ep = [([ip], [(''tunnel'', port, ''TCP'')])]"
    using ep ok by (intro exI [of _ ep]) (auto simp: endpoints_mutate_def Let_def split: sum.splits)
  show "\<forall>n. n \<noteq> nm \<longrightarrow> services k' ?ns n = services k ?ns n"
    using fs fe ok by simp
  show "k_get_tunnel K k' = k_get_tunnel K k"
    using fs fe ok by simp
qed

end

lemma schedules_least:
  assumes "kube_client K services endpoints"
    and "k_get_tunnel K k ns nm = Inr t" and "valid_kind t" and "\<not> placed K k es t"
    and "k_list_nodes K k = Inr nodes"
    and "\<forall>n \<in> set nodes. k_get_node K k (nd_Name n) = Inr n"
    and "\<forall>n \<in> set nodes. nd_Name n \<noteq> []"
    and "enumerates es (kt_NodeSelector (tn_Spec t))"
    and "tc_Reconcile K fmt now es ns nm k = Ret ((r, None), k')"
  shows "\<exists>t'. k_get_tunnel K k' ns nm = Inr t' \<and> tn_Spec t' = tn_Spec t \<and>
    (if \<exists>n \<in> set nodes. selects (kt_NodeSelector (tn_Spec t)) (nd_Labels n) \<and> isNodeReady n
     then r = \<lparr>res_Requeue = True, res_RequeueAfter = 0\<rparr> \<and> kts_Phase (tn_Status t') = PhasePending \<and>
       placed K k' es t' \<and>
       (\<exists>n \<in> set nodes. nd_Name n = kts_Node (tn_Status t') \<and> selects (kt_NodeSelector (tn_Spec t)) (nd_Labels n) \<and>
          isNodeReady n) \<and>
       (\<forall>n \<in> set nodes. selects (kt_NodeSelector (tn_Spec t)) (nd_Labels n) \<and> isNodeReady n \<longrightarrow>
         kts_Node (tn_Status t') \<le> nd_Name n)
     else r = requeue_after requeueAfterErr \<and> kts_Phase (tn_Status t') = PhaseDegraded \<and>
       kts_Node (tn_Status t') = kts_Node (tn_Status t))"
proof -
  let ?sel = "kt_NodeSelector (tn_Spec t)"
  have run: "tc_schedule K fmt now t k = ((r, None), k')"
    using assms(2-4,9) by (auto simp: tc_Reconcile_def valid_kind_def placed_def split: if_splits)
  note pick = pickNode_outcome [OF assms(5) kube_client.matches [OF assms(1)] assms(6,8), of fmt]
  show ?thesis
  proof (cases "pickNode K fmt k ?sel")
    case (Inl e)
    then have "tc_degrade K now t (''scheduling: '' @ e) k = ((r, None), k')"
      using run by (simp add: tc_schedule_def)
    note st = kube_client.degrade_stored [OF assms(1,2) this]
    show ?thesis
      using Inl pick unfolding st(2) by (auto simp: setCondition_def with_error_def st(1))
  next
    case (Inr x)
    obtain node ip where x: "x = (node, ip)"
      by (rule prod.exhaust)
    note st = kube_client.schedule_stored [OF assms(1,2) Inr [unfolded x] run]
    obtain n where n: "n \<in> set nodes" "node = nd_Name n" "selects ?sel (nd_Labels n)" "isNodeReady n"
      and least: "\<forall>m \<in> set nodes. selects ?sel (nd_Labels m) \<and> isNodeReady m \<longrightarrow> node \<le> nd_Name m"
      and valid: "nodeStillValid K k es node"
      using pick unfolding Inr x by auto
    have "nodeStillValid K k' es node"
      using valid st(3) by (simp add: nodeStillValid_def)
    then show ?thesis
      using n least bspec [OF assms(7) n(1)] unfolding st(2) by (auto simp: placed_def st(1))
  qed
qed

text \<open>
  C35: Reconciling a valid tunnel that is on no good node, when the status can be written. If
  some ready node matches the selector, the least of these by name is stored with the phase
  pending, the tunnel is requeued at once, and it then counts as placed. If there is none, the
  tunnel stays where it was, degraded, and is looked at again after 15 s.
\<close>

theorem tc_scheduling_correct:
  assumes "kube_client K services endpoints"
    and "k_get_tunnel K k ns nm = Inr t" and "valid_kind t" and "\<not> placed K k es t"
    and "k_list_nodes K k = Inr nodes"
    and "\<forall>n \<in> set nodes. k_get_node K k (nd_Name n) = Inr n"
    and "\<forall>n \<in> set nodes. nd_Name n \<noteq> []"
    and "enumerates es (kt_NodeSelector (tn_Spec t))"
    and "tc_Reconcile K fmt now es ns nm k = Ret ((r, None), k')"
  shows "\<exists>t'. k_get_tunnel K k' ns nm = Inr t' \<and> tn_Spec t' = tn_Spec t \<and>
    (if \<exists>n \<in> set nodes. selects (kt_NodeSelector (tn_Spec t)) (nd_Labels n) \<and> isNodeReady n
     then r = \<lparr>res_Requeue = True, res_RequeueAfter = 0\<rparr> \<and> kts_Phase (tn_Status t') = PhasePending \<and>
       placed K k' es t' \<and>
       (\<exists>n \<in> set nodes. nd_Name n = kts_Node (tn_Status t') \<and> selects (kt_NodeSelector (tn_Spec t)) (nd_Labels n) \<and>
          isNodeReady n) \<and>
       (\<forall>n \<in> set nodes. selects (kt_NodeSelector (tn_Spec t)) (nd_Labels n) \<and> isNodeReady n \<longrightarrow>
         kts_Node (tn_Status t') \<le> nd_Name n)
     else r = requeue_after requeueAfterErr \<and> kts_Phase (tn_Status t') = PhaseDegraded \<and>
       kts_Node (tn_Status t') = kts_Node (tn_Status t))"
  by (rule schedules_least [OF assms])

definition demo_tunnel :: Tunnel where
  "demo_tunnel = \<lparr>tn_Meta = new_meta ''data'' ''pg'',
     tn_Spec = new_spec\<lparr>kt_NodeSelector := [''zone'' \<mapsto> ''a''], kt_Kubectl := Some
       \<lparr>kkc_KubeconfigRef = None, kkc_KubeconfigSecretRef = None, kkc_Context = [], kkc_Namespace = [],
        kkc_Resource = ''svc/pg'', kkc_Forwards = [\<lparr>kkf_LocalAddress = [], kkf_LocalPort = 0, kkf_RemotePort = 5432\<rparr>],
        kkc_APIServer = [], kkc_InsecureSkipTLSVerify = False\<rparr>\<rparr>,
     tn_Status = new_status\<rparr>"

definition demo_unplaced :: cluster where
  "demo_unplaced = demo_cluster\<lparr>cl_tunnels := [(''data'', ''pg'') \<mapsto> demo_tunnel]\<rparr>"

abbreviation demo_nodes :: "Node list" where
  "demo_nodes \<equiv> [demo_node ''node-b'', demo_node ''node-a'']"

lemma demo_unplaced_facts:
  "k_get_tunnel mem_kube demo_unplaced ''data'' ''pg'' = Inr demo_tunnel"
  "valid_kind demo_tunnel" "\<not> placed mem_kube demo_unplaced [(''zone'', ''a'')] demo_tunnel"
  "k_list_nodes mem_kube demo_unplaced = Inr demo_nodes"
  "\<forall>n \<in> set demo_nodes. k_get_node mem_kube demo_unplaced (nd_Name n) = Inr n"
  "\<forall>n \<in> set demo_nodes. nd_Name n \<noteq> []"
  "enumerates [(''zone'', ''a'')] (kt_NodeSelector (tn_Spec demo_tunnel))"
  by (auto simp: mem_kube_def demo_unplaced_def demo_tunnel_def named_tunnel_def new_meta_def demo_cluster_def
      demo_node_def got_def valid_kind_def placed_def new_spec_def new_status_def enumerates_def)

lemma demo_node_good: "selects (kt_NodeSelector (tn_Spec demo_tunnel)) (nd_Labels (demo_node n))" "isNodeReady (demo_node n)"
  by (simp_all add: demo_tunnel_def selects_def demo_node_def isNodeReady_def)

lemma demo_unplaced_run:
  "\<exists>r k'. tc_Reconcile mem_kube (\<lambda>s. []) 0 [(''zone'', ''a'')] ''data'' ''pg'' demo_unplaced = Ret ((r, None), k')"
proof -
  have "\<exists>node ip. pickNode mem_kube (\<lambda>s. []) demo_unplaced (kt_NodeSelector (tn_Spec demo_tunnel)) = Inr (node, ip)"
    using demo_node_good by (simp add: pickNode_def demo_unplaced_facts(4) mem_kube.matches)
  then show ?thesis
    using demo_unplaced_facts(1-3) by (auto simp: tc_Reconcile_def valid_kind_def placed_def tc_schedule_def)
      (simp_all add: mem_kube_def demo_unplaced_def tunnel_id_def demo_tunnel_def new_meta_def)
qed

lemma tc_scheduling_correct_witness:
  "\<exists>k' t'. tc_Reconcile mem_kube (\<lambda>s. []) 0 [(''zone'', ''a'')] ''data'' ''pg'' demo_unplaced =
        Ret ((\<lparr>res_Requeue = True, res_RequeueAfter = 0\<rparr>, None), k') \<and>
    k_get_tunnel mem_kube k' ''data'' ''pg'' = Inr t' \<and> placed mem_kube k' [(''zone'', ''a'')] t'"
proof -
  obtain r k' where run: "tc_Reconcile mem_kube (\<lambda>s. []) 0 [(''zone'', ''a'')] ''data'' ''pg'' demo_unplaced =
      Ret ((r, None), k')"
    using demo_unplaced_run by blast
  from tc_scheduling_correct [OF mem_kube.kube_client_axioms demo_unplaced_facts run] demo_node_good run
  show ?thesis by auto
qed

lemma set_service_ref_stored:
  assumes "kube_client K services endpoints" and "k_get_tunnel K k ns nm = Inr t"
    and "set_service_ref K ref t k = ((r, None), k')"
  shows "r = no_result" "k_get_tunnel K k' ns nm = Inr (t\<lparr>tn_Status := (tn_Status t)\<lparr>kts_ServiceRef := ref\<rparr>\<rparr>)"
    "services k' = services k" "endpoints k' = endpoints k"
proof -
  let ?t = "t\<lparr>tn_Status := (tn_Status t)\<lparr>kts_ServiceRef := ref\<rparr>\<rparr>"
  have up: "k_update_tunnel_status K k ?t = (None, k')" and r: "r = no_result"
    using assms(3) by (auto simp: set_service_ref_def split: prod.splits)
  show "r = no_result"
    by (rule r)
  have "tunnel_id ?t = (ns, nm)"
    using kube_client.tunnel_named [OF assms(1,2)] by (simp add: tunnel_id_def)
  then show "k_get_tunnel K k' ns nm = Inr ?t"
    using kube_client.status_stored [OF assms(1,2) _ _ _ up] by simp
  show "services k' = services k" "endpoints k' = endpoints k"
    using kube_client.status_services [OF assms(1) up] by simp_all
qed


definition demo_exposed :: Tunnel where
  "demo_exposed = demo_tunnel\<lparr>tn_Spec := (tn_Spec demo_tunnel)\<lparr>kt_Expose :=
       Some \<lparr>ex_Service = True, ex_ServiceName = ''db'', ex_ForwardIndex = 0\<rparr>\<rparr>,
     tn_Status := new_status\<lparr>kts_Node := ''node-a'', kts_ResolvedForwards :=
       [\<lparr>krf_ListenAddress = [], krf_ConfiguredPort = 0, krf_ActualPort = 40001, krf_RemotePort = 5432\<rparr>]\<rparr>\<rparr>"

lemma demo_exposed_simps [simp]:
  "expose_requested (tn_Spec demo_exposed)" "service_name demo_exposed = ''db''" "valid_kind demo_exposed"
  "pickActualPort demo_exposed = Ret 40001" "servicePort demo_exposed = Ret 5432"
  "kts_Node (tn_Status demo_exposed) = ''node-a''" "tn_Meta demo_exposed = new_meta ''data'' ''pg''"
  by (simp_all add: demo_exposed_def demo_tunnel_def new_spec_def new_status_def valid_kind_def
      expose_requested_def service_name_def pickActualPort_def servicePort_def expose_index_def Let_def go_nth_def)


end
