(* ===== verification/Kube_Group.thy ===== *)
theory Kube_Group
  imports Kube_Tunnel
begin

text \<open>
  \<open>k8s/controllers/tunnelgroup_controller.go\<close> and \<open>tunnelkey_controller.go\<close>: a group's
  members as tunnels, the phase of the group, and the phase of a key.
\<close>

section \<open>Groups\<close>

definition childTunnelName :: "string \<Rightarrow> string \<Rightarrow> string" where
  "childTunnelName grp mem = grp @ ''-'' @ mem"

definition prefixDeps :: "string \<Rightarrow> string list \<Rightarrow> string list" where
  "prefixDeps grp deps = map (childTunnelName grp) deps"

fun expose_entry :: "string \<Rightarrow> TunnelGroupExpose list \<Rightarrow> ExposeSpec option" where
  "expose_entry mem [] = None"
| "expose_entry mem (e # es) =
    (if ge_Tunnel e = mem
     then Some \<lparr>ex_Service = True, ex_ServiceName = (if ge_ServiceName e = [] then mem else ge_ServiceName e),
       ex_ForwardIndex = ge_ForwardIndex e\<rparr>
     else expose_entry mem es)"

definition exposeForMember :: "TunnelGroup \<Rightarrow> string \<Rightarrow> ExposeSpec option" where
  "exposeForMember g mem = expose_entry mem (gs_Expose (tg_Spec g))"

text \<open>The three flags: pending, degraded, failed.\<close>

fun phase_flags :: "TunnelGroupMemberStatus list \<Rightarrow> bool \<times> bool \<times> bool \<Rightarrow> bool \<times> bool \<times> bool" where
  "phase_flags [] fl = fl"
| "phase_flags (m # ms) (p, d, f) =
    phase_flags ms
      (case ms_Phase m of
         PhaseFailed \<Rightarrow> (p, d, True)
       | PhaseDegraded \<Rightarrow> (p, True, f)
       | PhasePending \<Rightarrow> (True, d, f)
       | PhaseUnset \<Rightarrow> (True, d, f)
       | _ \<Rightarrow> (p, d, f))"

definition aggregatePhase :: "TunnelGroupMemberStatus list \<Rightarrow> TunnelPhase" where
  "aggregatePhase ms =
    (if ms = [] then PhasePending
     else case phase_flags ms (False, False, False) of (p, d, f) \<Rightarrow>
       if f then PhaseFailed else if d then PhaseDegraded else if p then PhasePending else PhaseHealthy)"

definition member_labels :: "TunnelGroup \<Rightarrow> TunnelGroupMember \<Rightarrow> (string \<rightharpoonup> string)" where
  "member_labels g m =
    [''app.kubernetes.io/managed-by'' \<mapsto> ''tunneld-controller'', ''tunneld.io/group'' \<mapsto> om_Name (tg_Meta g),
     ''tunneld.io/member'' \<mapsto> gm_Name m]"

definition member_spec :: "TunnelGroup \<Rightarrow> TunnelGroupMember \<Rightarrow> KTunnelSpec" where
  "member_spec g m =
    \<lparr>kt_DependsOn = prefixDeps (om_Name (tg_Meta g)) (gm_DependsOn m), kt_SSH = gm_SSH m, kt_Kubectl = gm_Kubectl m,
     kt_Health = gm_Health m, kt_Restart = gm_Restart m, kt_StartupTimeout = gm_StartupTimeout m,
     kt_ShutdownTimeout = gm_ShutdownTimeout m, kt_NodeSelector = gs_NodeSelector (tg_Spec g),
     kt_Expose = exposeForMember g (gm_Name m)\<rparr>"

definition member_mutate :: "'k kube \<Rightarrow> TunnelGroup \<Rightarrow> TunnelGroupMember \<Rightarrow> Tunnel \<Rightarrow> err + Tunnel" where
  "member_mutate K g m tun =
    (let mt = (tn_Meta tun)\<lparr>om_Labels := mergeLabels (om_Labels (tn_Meta tun)) (member_labels g m)\<rparr> in
     case own K (om_Name (tg_Meta g)) mt of
       Inl e \<Rightarrow> Inl e
     | Inr mt' \<Rightarrow> Inr (tun\<lparr>tn_Meta := mt', tn_Spec := member_spec g m\<rparr>))"

definition live_phase :: "'k kube \<Rightarrow> 'k \<Rightarrow> string \<Rightarrow> string \<Rightarrow> TunnelPhase" where
  "live_phase K k ns nm =
    (case k_get_tunnel K k ns nm of Inl e \<Rightarrow> PhaseUnset | Inr t \<Rightarrow> kts_Phase (tn_Status t))"

fun materialize :: "'k kube \<Rightarrow> TunnelGroup \<Rightarrow> TunnelGroupMember list \<Rightarrow> 'k \<Rightarrow>
    (err + TunnelGroupMemberStatus list) \<times> 'k" where
  "materialize K g [] k = (Inr [], k)"
| "materialize K g (m # ms) k =
    (let ns = om_Namespace (tg_Meta g); nm = childTunnelName (om_Name (tg_Meta g)) (gm_Name m) in
     case k_put_tunnel K k ns nm (member_mutate K g m) of
       (Some e, k1) \<Rightarrow> (Inl e, k1)
     | (None, k1) \<Rightarrow>
        (case materialize K g ms k1 of
           (Inl e, k2) \<Rightarrow> (Inl e, k2)
         | (Inr sts, k2) \<Rightarrow> (Inr (\<lparr>ms_Name = gm_Name m, ms_Phase = live_phase K k1 ns nm\<rparr> # sts), k2)))"

definition tg_Reconcile :: "'k kube \<Rightarrow> string \<Rightarrow> string \<Rightarrow> 'k \<Rightarrow> err option \<times> 'k" where
  "tg_Reconcile K ns nm k =
    (case k_get_group K k ns nm of
       Inl (NotExist e) \<Rightarrow> (None, k)
     | Inl (FileErr e) \<Rightarrow> (Some e, k)
     | Inr g \<Rightarrow>
        (case materialize K g (gs_Tunnels (tg_Spec g)) k of
           (Inl e, k1) \<Rightarrow> (Some e, k1)
         | (Inr sts, k1) \<Rightarrow>
            k_update_group_status K k1 (g\<lparr>tg_Status := (tg_Status g)\<lparr>gst_Members := sts,
              gst_Phase := aggregatePhase sts, gst_ObservedGeneration := om_Generation (tg_Meta g)\<rparr>\<rparr>)))"

section \<open>Keys\<close>

definition key_setPhase :: "'k kube \<Rightarrow> TunnelKey \<Rightarrow> TunnelKeyPhase \<Rightarrow> err \<Rightarrow> 'k \<Rightarrow> err option \<times> 'k" where
  "key_setPhase K key phase msg k =
    (if tkst_Phase (tk_Status key) = phase \<and> tkst_LastError (tk_Status key) = msg \<and>
        tkst_ObservedGeneration (tk_Status key) = om_Generation (tk_Meta key)
     then (None, k)
     else k_update_key_status K k (key\<lparr>tk_Status := (tk_Status key)\<lparr>tkst_Phase := phase, tkst_LastError := msg,
       tkst_ObservedGeneration := om_Generation (tk_Meta key)\<rparr>\<rparr>))"

definition key_Reconcile :: "'k kube \<Rightarrow> string \<Rightarrow> string \<Rightarrow> 'k \<Rightarrow> err option \<times> 'k" where
  "key_Reconcile K ns nm k =
    (case k_get_key K k ns nm of
       Inl (NotExist e) \<Rightarrow> (None, k)
     | Inl (FileErr e) \<Rightarrow> (Some e, k)
     | Inr key \<Rightarrow>
        (case src_SecretRef (tks_Source (tk_Spec key)) of
           None \<Rightarrow> key_setPhase K key KeyPhaseFailed ''spec.source.secretRef is required'' k
         | Some ref \<Rightarrow>
            (case k_get_secret K k (om_Namespace (tk_Meta key)) (sk_Name ref) of
               Inl (NotExist e) \<Rightarrow>
                 key_setPhase K key KeyPhasePending (''secret '' @ quote (sk_Name ref) @ '' not found'') k
             | Inl (FileErr e) \<Rightarrow> (Some e, k)
             | Inr sec \<Rightarrow>
                if sec_Data sec (sk_Key ref) = None
                then key_setPhase K key KeyPhaseFailed
                  (''secret '' @ quote (sec_Name sec) @ '' has no key '' @ quote (sk_Key ref)) k
                else key_setPhase K key KeyPhaseReady [] k)))"

section \<open>The members\<close>

lemma member_mutate_Inr:
  assumes "member_mutate K g m t = Inr t'"
  shows "tunnel_id t' = tunnel_id t" "tn_Spec t' = member_spec g m" "tn_Status t' = tn_Status t"
    "om_Labels (tn_Meta t') ''tunneld.io/group'' = Some (om_Name (tg_Meta g))"
  using assms by (auto simp: member_mutate_def own_def Let_def tunnel_id_def mergeLabels_def member_labels_def
      split: sum.splits)

lemma childTunnelName_inject [simp]: "childTunnelName g a = childTunnelName g b \<longleftrightarrow> a = b"
  by (simp add: childTunnelName_def)

definition member_of :: "'k kube \<Rightarrow> 'k \<Rightarrow> TunnelGroup \<Rightarrow> TunnelGroupMember \<Rightarrow> 'k \<Rightarrow> bool" where
  "member_of K k g m k' \<longleftrightarrow>
    (let ns = om_Namespace (tg_Meta g); nm = childTunnelName (om_Name (tg_Meta g)) (gm_Name m) in
     \<exists>t. k_get_tunnel K k' ns nm = Inr t \<and> tn_Spec t = member_spec g m \<and>
       om_Labels (tn_Meta t) ''tunneld.io/group'' = Some (om_Name (tg_Meta g)) \<and>
       tn_Status t = (case k_get_tunnel K k ns nm of Inl e \<Rightarrow> new_status | Inr t0 \<Rightarrow> tn_Status t0))"

lemma materialize_members:
  assumes "kube_group_client K services endpoints"
    and "materialize K g ms k = (Inr sts, k')" and "distinct (map gm_Name ms)"
  shows "(\<forall>m \<in> set ms. member_of K k g m k') \<and>
    map ms_Name sts = map gm_Name ms \<and>
    map ms_Phase sts = map (\<lambda>m. case k_get_tunnel K k (om_Namespace (tg_Meta g))
        (childTunnelName (om_Name (tg_Meta g)) (gm_Name m)) of
      Inl e \<Rightarrow> PhaseUnset | Inr t \<Rightarrow> kts_Phase (tn_Status t)) ms \<and>
    (\<forall>n. n \<notin> gm_Name ` set ms \<longrightarrow> k_get_tunnel K k' (om_Namespace (tg_Meta g)) (childTunnelName (om_Name (tg_Meta g)) n) =
      k_get_tunnel K k (om_Namespace (tg_Meta g)) (childTunnelName (om_Name (tg_Meta g)) n))"
  using assms(2,3)
proof (induction ms arbitrary: k sts)
  case Nil
  then show ?case by simp
next
  case (Cons m ms)
  let ?ns = "om_Namespace (tg_Meta g)" and ?nm = "\<lambda>n. childTunnelName (om_Name (tg_Meta g)) n"
  obtain e k1 where put: "k_put_tunnel K k ?ns (?nm (gm_Name m)) (member_mutate K g m) = (e, k1)"
    by (rule prod.exhaust)
  have e: "e = None"
    using Cons.prems(1) put by (cases e) (simp_all add: Let_def)
  obtain sts' where mat: "materialize K g ms k1 = (Inr sts', k')"
    and sts: "sts = \<lparr>ms_Name = gm_Name m, ms_Phase = live_phase K k1 ?ns (?nm (gm_Name m))\<rparr> # sts'"
    using Cons.prems(1) put e by (auto simp: Let_def split: prod.splits sum.splits)
  note put' = put [unfolded e]
  have "\<forall>t t'. member_mutate K g m t = Inr t' \<longrightarrow> tunnel_id t' = tunnel_id t"
    using member_mutate_Inr(1) by blast
  from kube_group_client.tunnel_put [OF assms(1) this put'] obtain t where
    t: "member_mutate K g m (case k_get_tunnel K k ?ns (?nm (gm_Name m)) of
        Inl e \<Rightarrow> new_tunnel ?ns (?nm (gm_Name m)) | Inr t0 \<Rightarrow> t0) = Inr t"
      "k_get_tunnel K k1 ?ns (?nm (gm_Name m)) = Inr t"
    by blast
  note frame = kube_group_client.tunnel_put_frame [OF assms(1) put']
  have other: "k_get_tunnel K k1 ?ns (?nm n) = k_get_tunnel K k ?ns (?nm n)" if "n \<noteq> gm_Name m" for n
    using frame [of ?ns "?nm n"] that by simp
  have IH: "\<forall>x \<in> set ms. member_of K k1 g x k'" "map ms_Name sts' = map gm_Name ms"
    "map ms_Phase sts' = map (\<lambda>m. case k_get_tunnel K k1 ?ns (?nm (gm_Name m)) of
      Inl e \<Rightarrow> PhaseUnset | Inr t \<Rightarrow> kts_Phase (tn_Status t)) ms"
    "\<forall>n. n \<notin> gm_Name ` set ms \<longrightarrow> k_get_tunnel K k' ?ns (?nm n) = k_get_tunnel K k1 ?ns (?nm n)"
    using Cons.IH [OF mat] Cons.prems(2) by simp_all
  have new: "gm_Name m \<notin> gm_Name ` set ms"
    using Cons.prems(2) by simp
  have st: "tn_Status t = (case k_get_tunnel K k ?ns (?nm (gm_Name m)) of Inl e \<Rightarrow> new_status | Inr t0 \<Rightarrow> tn_Status t0)"
    using member_mutate_Inr(3) [OF t(1)] by (simp add: new_tunnel_def split: sum.splits)
  have "member_of K k g m k'"
    unfolding member_of_def Let_def using IH(4) new t(2) member_mutate_Inr(2,4) [OF t(1)] st by auto
  moreover have "member_of K k g x k'" if "x \<in> set ms" for x
  proof -
    have "gm_Name x \<noteq> gm_Name m"
      using that new by (metis image_eqI)
    then show ?thesis
      using bspec [OF IH(1) that] other [of "gm_Name x"] by (simp add: member_of_def)
  qed
  moreover have "live_phase K k1 ?ns (?nm (gm_Name m)) = (case k_get_tunnel K k ?ns (?nm (gm_Name m)) of
      Inl e \<Rightarrow> PhaseUnset | Inr t \<Rightarrow> kts_Phase (tn_Status t))"
    using st t(2) by (simp add: live_phase_def new_status_def split: sum.splits)
  moreover have "map ms_Phase sts' = map (\<lambda>m. case k_get_tunnel K k ?ns (?nm (gm_Name m)) of
      Inl e \<Rightarrow> PhaseUnset | Inr t \<Rightarrow> kts_Phase (tn_Status t)) ms"
    unfolding IH(3) using other new by (intro map_cong refl) (metis image_eqI)
  ultimately show ?case
    using IH(2,4) other by (auto simp: sts)
qed

section \<open>The phase of a group\<close>

text \<open>Phases in the order of severity.\<close>

fun severity :: "TunnelPhase \<Rightarrow> nat" where
  "severity PhaseStopped = 0"
| "severity PhaseHealthy = 1"
| "severity PhaseUnset = 2"
| "severity PhasePending = 3"
| "severity PhaseDegraded = 4"
| "severity PhaseFailed = 5"

lemma severity_inject [simp]: "severity a = severity b \<longleftrightarrow> a = b"
  by (cases a; cases b) simp_all

instantiation TunnelPhase :: linorder
begin

definition less_eq_TunnelPhase :: "TunnelPhase \<Rightarrow> TunnelPhase \<Rightarrow> bool" where
  "a \<le> b \<longleftrightarrow> severity a \<le> severity b"

definition less_TunnelPhase :: "TunnelPhase \<Rightarrow> TunnelPhase \<Rightarrow> bool" where
  "a < b \<longleftrightarrow> severity a < severity b"

instance
  by standard (auto simp: less_eq_TunnelPhase_def less_TunnelPhase_def)

end

fun shown :: "TunnelPhase \<Rightarrow> TunnelPhase" where
  "shown PhaseStopped = PhaseHealthy"
| "shown PhaseUnset = PhasePending"
| "shown p = p"

lemma phase_flags_iff:
  "phase_flags ms (p, d, f) =
    (p \<or> PhasePending \<in> ms_Phase ` set ms \<or> PhaseUnset \<in> ms_Phase ` set ms,
     d \<or> PhaseDegraded \<in> ms_Phase ` set ms, f \<or> PhaseFailed \<in> ms_Phase ` set ms)"
proof (induction ms arbitrary: p d f)
  case (Cons m ms)
  then show ?case by (cases "ms_Phase m") simp_all
qed simp

text \<open>
  The phase of a group is that of its worst member, in the order stopped, healthy, pending,
  degraded, failed, a member no one has looked at being pending, and a group without members
  too. A group all of whose members are stopped is shown as healthy.
\<close>

theorem aggregatePhase_worst:
  "aggregatePhase ms = (if ms = [] then PhasePending else shown (Max (ms_Phase ` set ms)))"
proof (cases "ms = []")
  case False
  let ?P = "ms_Phase ` set ms"
  have fin: "finite ?P" "?P \<noteq> {}"
    using False by simp_all
  have le: "\<forall>p \<in> ?P. p \<le> Max ?P" and mem: "Max ?P \<in> ?P"
    using fin Max_ge Max_in by blast+
  have "aggregatePhase ms = (if PhaseFailed \<in> ?P then PhaseFailed else if PhaseDegraded \<in> ?P then PhaseDegraded
      else if PhasePending \<in> ?P \<or> PhaseUnset \<in> ?P then PhasePending else PhaseHealthy)"
    using False by (simp add: aggregatePhase_def phase_flags_iff)
  also have "\<dots> = shown (Max ?P)"
    using le mem by (cases "Max ?P") (auto simp: less_eq_TunnelPhase_def)
  finally show ?thesis
    using False by simp
qed (simp add: aggregatePhase_def)


definition demo_member :: "string \<Rightarrow> string list \<Rightarrow> TunnelGroupMember" where
  "demo_member nm deps = \<lparr>gm_Name = nm, gm_DependsOn = deps, gm_SSH = None, gm_Kubectl = None, gm_Health = None,
     gm_Restart = None, gm_StartupTimeout = None, gm_ShutdownTimeout = None\<rparr>"

definition demo_group :: TunnelGroup where
  "demo_group = \<lparr>tg_Meta = new_meta ''data'' ''grp'',
     tg_Spec = \<lparr>gs_NodeSelector = [''zone'' \<mapsto> ''a''], gs_Tunnels = [demo_member ''a'' [], demo_member ''b'' [''a'']],
       gs_Expose = []\<rparr>,
     tg_Status = \<lparr>gst_Phase = PhaseUnset, gst_Node = [], gst_Members = [], gst_ObservedGeneration = 0,
       gst_LastError = []\<rparr>\<rparr>"


section \<open>The phase of a key\<close>

text \<open>What the state of a key should be, from the key and the secret it refers to.\<close>

definition key_verdict :: "'k kube \<Rightarrow> 'k \<Rightarrow> TunnelKey \<Rightarrow> (TunnelKeyPhase \<times> err) option" where
  "key_verdict K k key =
    (case src_SecretRef (tks_Source (tk_Spec key)) of
       None \<Rightarrow> Some (KeyPhaseFailed, ''spec.source.secretRef is required'')
     | Some ref \<Rightarrow>
        (case k_get_secret K k (om_Namespace (tk_Meta key)) (sk_Name ref) of
           Inl (NotExist e) \<Rightarrow> Some (KeyPhasePending, ''secret '' @ quote (sk_Name ref) @ '' not found'')
         | Inl (FileErr e) \<Rightarrow> None
         | Inr sec \<Rightarrow> Some (if sec_Data sec (sk_Key ref) = None
             then (KeyPhaseFailed, ''secret '' @ quote (sec_Name sec) @ '' has no key '' @ quote (sk_Key ref))
             else (KeyPhaseReady, []))))"

lemma key_Reconcile_verdict:
  assumes "k_get_key K k ns nm = Inr key"
  shows "key_Reconcile K ns nm k =
    (case key_verdict K k key of
       Some (phase, msg) \<Rightarrow> key_setPhase K key phase msg k
     | None \<Rightarrow> (case src_SecretRef (tks_Source (tk_Spec key)) of
         Some ref \<Rightarrow> (case k_get_secret K k (om_Namespace (tk_Meta key)) (sk_Name ref) of
           Inl e \<Rightarrow> (Some (file_err_msg e), k) | Inr sec \<Rightarrow> (None, k))
       | None \<Rightarrow> (None, k)))"
  using assms by (auto simp: key_Reconcile_def key_verdict_def split: option.splits sum.splits file_err.splits)

text \<open>
  After a reconciliation that succeeds the status of a key says what its secret is: ready if
  it has the key, failed if it lacks it or the key names no secret, pending if there is no
  secret. A second reconciliation then writes nothing.
\<close>

theorem key_Reconcile_stable:
  assumes "kube_group_client K services endpoints" and "k_get_key K k ns nm = Inr key"
    and "key_verdict K k key = Some (phase, msg)" and "key_Reconcile K ns nm k = (None, k')"
  shows "(\<exists>key'. k_get_key K k' ns nm = Inr key' \<and> tk_Spec key' = tk_Spec key \<and>
      tkst_Phase (tk_Status key') = phase \<and> tkst_LastError (tk_Status key') = msg \<and>
      tkst_ObservedGeneration (tk_Status key') = om_Generation (tk_Meta key')) \<and>
    key_Reconcile K ns nm k' = (None, k')"
proof -
  let ?new = "key\<lparr>tk_Status := (tk_Status key)\<lparr>tkst_Phase := phase, tkst_LastError := msg,
       tkst_ObservedGeneration := om_Generation (tk_Meta key)\<rparr>\<rparr>"
  let ?same = "tkst_Phase (tk_Status key) = phase \<and> tkst_LastError (tk_Status key) = msg \<and>
        tkst_ObservedGeneration (tk_Status key) = om_Generation (tk_Meta key)"
  have run: "key_setPhase K key phase msg k = (None, k')"
    using assms(4) unfolding key_Reconcile_verdict [OF assms(2)] assms(3) by simp
  show ?thesis
  proof (cases ?same)
    case True
    then have "k' = k"
      using run by (simp add: key_setPhase_def)
    then show ?thesis
      using assms(2,4) True by auto
  next
    case False
    then have up: "k_update_key_status K k ?new = (None, k')"
      using run by (auto simp: key_setPhase_def split: if_splits)
    have get: "k_get_key K k' ns nm = Inr ?new"
      by (rule kube_group_client.key_status [OF assms(1,2) _ _ up]) simp_all
    have "key_verdict K k' ?new = Some (phase, msg)"
      using assms(3) unfolding key_verdict_def kube_group_client.key_status_secrets [OF assms(1) up] by (simp cong: option.case_cong)
    then have "key_Reconcile K ns nm k' = (None, k')"
      unfolding key_Reconcile_verdict [OF get] by (simp add: key_setPhase_def)
    then show ?thesis
      using get by auto
  qed
qed

definition demo_key :: TunnelKey where
  "demo_key = \<lparr>tk_Meta = new_meta ''data'' ''id'',
     tk_Spec = \<lparr>tks_Type = SSHPrivateKey, tks_Source = \<lparr>src_SecretRef = Some \<lparr>sk_Name = ''s'', sk_Key = ''k''\<rparr>\<rparr>,
       tks_NodeSelector = Map.empty\<rparr>,
     tk_Status = \<lparr>tkst_Phase = KeyPhaseUnset, tkst_InstalledNodes = [], tkst_Fingerprint = [],
       tkst_ObservedGeneration = 0, tkst_LastError = []\<rparr>\<rparr>"

lemma key_Reconcile_stable_witness:
  "\<exists>k'. key_Reconcile mem_kube ''data'' ''id'' (demo_cluster\<lparr>cl_keys := [(''data'', ''id'') \<mapsto> demo_key],
      cl_secrets := [(''data'', ''s'') \<mapsto> \<lparr>sec_Name = ''s'', sec_Data = [''k'' \<mapsto> [1]]\<rparr>]\<rparr>) = (None, k') \<and>
    key_Reconcile mem_kube ''data'' ''id'' k' = (None, k')"
proof -
  let ?k = "demo_cluster\<lparr>cl_keys := [(''data'', ''id'') \<mapsto> demo_key],
      cl_secrets := [(''data'', ''s'') \<mapsto> \<lparr>sec_Name = ''s'', sec_Data = [''k'' \<mapsto> [1]]\<rparr>]\<rparr>"
  have get: "k_get_key mem_kube ?k ''data'' ''id'' = Inr demo_key"
    by (simp add: mem_kube_def named_key_def demo_key_def new_meta_def)
  have verdict: "key_verdict mem_kube ?k demo_key = Some (KeyPhaseReady, [])"
    by (simp add: key_verdict_def demo_key_def mem_kube_def got_def new_meta_def)
  have "\<exists>k'. key_Reconcile mem_kube ''data'' ''id'' ?k = (None, k')"
    unfolding key_Reconcile_verdict [OF get] verdict by (simp add: key_setPhase_def mem_kube_def)
  then obtain k' where "key_Reconcile mem_kube ''data'' ''id'' ?k = (None, k')"
    by blast
  with key_Reconcile_stable [OF mem_kube.kube_group_client_axioms get verdict] show ?thesis
    by blast
qed

end
