(* ===== verification/Kube_Agent.thy ===== *)
theory Kube_Agent
  imports Kube_Group Api_Types Tunnel_Specs
begin

text \<open>
  \<open>k8s/agent\<close>: the translation of a tunnel resource into the daemon's spec, the key material it
  needs, and the reconciliation of a tunnel by the agent of its node through the daemon's
  gRPC clients.
\<close>

section \<open>Translation\<close>

definition daemonKeyName :: "string \<Rightarrow> string \<Rightarrow> string" where
  "daemonKeyName ns key = ns @ ''--'' @ key"

definition daemonTunnelName :: "string \<Rightarrow> string \<Rightarrow> string" where
  "daemonTunnelName ns tun = ns @ ''--'' @ tun"

definition toDurationPB :: "duration_ops \<Rightarrow> duration option \<Rightarrow> pb_duration option" where
  "toDurationPB D d = (case d of None \<Rightarrow> None | Some x \<Rightarrow> Some (dnew D x))"

definition agent_health :: "duration_ops \<Rightarrow> KHealthCheckSpec \<Rightarrow> HealthCheckSpec" where
  "agent_health D h =
    \<lparr>hc_Type = kh_Type h, hc_Address = kh_Address h, hc_Interval = toDurationPB D (kh_Interval h),
     hc_Timeout = toDurationPB D (kh_Timeout h), hc_StartupTimeout = toDurationPB D (kh_StartupTimeout h)\<rparr>"

text \<open>\<open>milli x\<close> is \<open>float32(x) / 1000.0\<close>.\<close>

definition agent_restart :: "duration_ops \<Rightarrow> (int32 \<Rightarrow> float32) \<Rightarrow> KRestartPolicySpec \<Rightarrow> RestartPolicySpec" where
  "agent_restart D milli r =
    \<lparr>rp_Policy = kr_Policy r, rp_Delay = toDurationPB D (kr_Delay r), rp_MaxAttempts = kr_MaxAttempts r,
     rp_Backoff = (case kr_Backoff r of None \<Rightarrow> None
       | Some b \<Rightarrow> Some \<lparr>bo_Multiplier = milli (kb_MultiplierMilli b), bo_MaxDelay = toDurationPB D (kb_MaxDelay b)\<rparr>)\<rparr>"

definition agent_ssh_forward :: "KSSHForward \<Rightarrow> SSHForward" where
  "agent_ssh_forward f =
    \<lparr>sf_ListenAddress = ksf_ListenAddress f, sf_ListenPort = ksf_ListenPort f, sf_TargetHost = ksf_TargetHost f,
     sf_TargetPort = ksf_TargetPort f\<rparr>"

definition agent_kubectl_forward :: "KKubectlForward \<Rightarrow> KubectlForward" where
  "agent_kubectl_forward f =
    \<lparr>kf_LocalAddress = kkf_LocalAddress f, kf_LocalPort = kkf_LocalPort f, kf_RemotePort = kkf_RemotePort f\<rparr>"

definition key_ref :: "string \<Rightarrow> LocalObjectRef option \<Rightarrow> SecretKeyRef option \<Rightarrow> string" where
  "key_ref ns ref sec =
    (case ref of
       Some r \<Rightarrow> daemonKeyName ns (lo_Name r)
     | None \<Rightarrow> (case sec of Some s \<Rightarrow> daemonKeyName ns (sk_Name s) | None \<Rightarrow> []))"

definition agent_ssh :: "string \<Rightarrow> KSSHSpec \<Rightarrow> SSHSpec" where
  "agent_ssh ns s =
    \<lparr>ssh_User = kssh_User s, ssh_Host = kssh_Host s, ssh_Port = kssh_Port s, ssh_IdentityKeyFile = [],
     ssh_LocalForwards = map agent_ssh_forward (kssh_LocalForwards s), ssh_Options = kssh_Options s,
     ssh_IdentityKeyRef = key_ref ns (kssh_IdentityKeyRef s) (kssh_IdentityKeySecretRef s)\<rparr>"

definition agent_kubectl :: "string \<Rightarrow> KKubectlSpec \<Rightarrow> KubectlSpec" where
  "agent_kubectl ns k =
    \<lparr>kc_KubeconfigRef = key_ref ns (kkc_KubeconfigRef k) (kkc_KubeconfigSecretRef k), kc_Context = kkc_Context k,
     kc_Namespace = kkc_Namespace k, kc_Resource = kkc_Resource k,
     kc_Forwards = map agent_kubectl_forward (kkc_Forwards k), kc_ApiServer = kkc_APIServer k,
     kc_InsecureSkipTlsVerify = kkc_InsecureSkipTLSVerify k, kc_KubeconfigFile = []\<rparr>"

definition agent_ToProto :: "duration_ops \<Rightarrow> (int32 \<Rightarrow> float32) \<Rightarrow> Tunnel \<Rightarrow> err + TunnelSpec" where
  "agent_ToProto D milli t =
    (let s = tn_Spec t; ns = om_Namespace (tn_Meta t) in
     if (kt_SSH s = None) = (kt_Kubectl s = None) then Inl ''exactly one of ssh or kubectl must be set''
     else Inr
      \<lparr>ts_Name = daemonTunnelName ns (om_Name (tn_Meta t)),
       ts_DependsOn = map (daemonTunnelName ns) (kt_DependsOn s),
       ts_Type = (case kt_SSH s of
           Some x \<Rightarrow> Some (TunnelSpec_Ssh (agent_ssh ns x))
         | None \<Rightarrow> (case kt_Kubectl s of Some x \<Rightarrow> Some (TunnelSpec_Kubectl (agent_kubectl ns x)) | None \<Rightarrow> None)),
       ts_Health = map_option (agent_health D) (kt_Health s),
       ts_Restart = map_option (agent_restart D milli) (kt_Restart s),
       ts_StartupTimeout = toDurationPB D (kt_StartupTimeout s),
       ts_ShutdownTimeout = toDurationPB D (kt_ShutdownTimeout s)\<rparr>)"

section \<open>Keys\<close>

text \<open>The secret behind a \<open>TunnelKey\<close>: its name, the key in it, and the daemon's name for it.\<close>

definition tunnel_key :: "'k kube \<Rightarrow> 'k \<Rightarrow> string \<Rightarrow> string \<Rightarrow> err + (string \<times> string \<times> string)" where
  "tunnel_key K k ns nm =
    (case k_get_key K k ns nm of
       Inl e \<Rightarrow> Inl (''TunnelKey '' @ quote nm @ '': '' @ file_err_msg e)
     | Inr key \<Rightarrow>
        (case src_SecretRef (tks_Source (tk_Spec key)) of
           None \<Rightarrow> Inl (''TunnelKey '' @ quote (om_Name (tk_Meta key)) @ '' has no secretRef'')
         | Some r \<Rightarrow> Inr (sk_Name r, sk_Key r, daemonKeyName ns (om_Name (tk_Meta key)))))"

definition key_source :: "'k kube \<Rightarrow> 'k \<Rightarrow> Tunnel \<Rightarrow> (err + (string \<times> string \<times> string)) option" where
  "key_source K k t =
    (let s = tn_Spec t; ns = om_Namespace (tn_Meta t);
         secret = (\<lambda>r. Inr (sk_Name r, sk_Key r, daemonKeyName ns (sk_Name r)));
         kubectl = (case kt_Kubectl s of
             None \<Rightarrow> None
           | Some x \<Rightarrow> (case kkc_KubeconfigRef x of
               Some r \<Rightarrow> Some (tunnel_key K k ns (lo_Name r))
             | None \<Rightarrow> map_option secret (kkc_KubeconfigSecretRef x)))
     in case kt_SSH s of
          None \<Rightarrow> kubectl
        | Some x \<Rightarrow> (case kssh_IdentityKeyRef x of
            Some r \<Rightarrow> Some (tunnel_key K k ns (lo_Name r))
          | None \<Rightarrow> (case kssh_IdentityKeySecretRef x of
              Some r \<Rightarrow> Some (secret r)
            | None \<Rightarrow> kubectl)))"

definition resolveKey :: "'k kube \<Rightarrow> 'k \<Rightarrow> Tunnel \<Rightarrow> err + (string \<times> bytes)" where
  "resolveKey K k t =
    (case key_source K k t of
       None \<Rightarrow> Inr ([], [])
     | Some (Inl e) \<Rightarrow> Inl e
     | Some (Inr (secretName, secretKey, dKeyName)) \<Rightarrow>
        (case k_get_secret K k (om_Namespace (tn_Meta t)) secretName of
           Inl e \<Rightarrow> Inl (''Secret '' @ quote secretName @ '': '' @ file_err_msg e)
         | Inr sec \<Rightarrow>
            (case sec_Data sec secretKey of
               None \<Rightarrow> Inl (''Secret '' @ quote secretName @ '' has no key '' @ quote secretKey)
             | Some data \<Rightarrow> Inr (dKeyName, data))))"

section \<open>The reconciliation\<close>

text \<open>The daemon's clients; the state of the daemon is of an arbitrary type \<open>'d\<close>.\<close>

record 'd daemon =
  d_AddKey :: "'d \<Rightarrow> AddKeyRequest \<Rightarrow> err option \<times> 'd"
  d_Update :: "'d \<Rightarrow> UpdateRequest \<Rightarrow> err option \<times> 'd"
  d_Status :: "'d \<Rightarrow> StatusRequest \<Rightarrow> (err + StatusResponse) \<times> 'd"
  d_Delete :: "'d \<Rightarrow> DeleteRequest \<Rightarrow> err option \<times> 'd"

definition requeueSteady :: int where "requeueSteady = 60 * Second"
definition requeuePending :: int where "requeuePending = 5 * Second"
definition requeueErr :: int where "requeueErr = 15 * Second"

definition agent_degrade :: "'k kube \<Rightarrow> Tunnel \<Rightarrow> err \<Rightarrow> 'k \<Rightarrow> (Result \<times> err option) \<times> 'k" where
  "agent_degrade K t msg k =
    (case k_update_tunnel_status K k (with_error PhaseDegraded msg t) of
       (Some e, k1) \<Rightarrow> ((no_result, Some e), k1)
     | (None, k1) \<Rightarrow> ((requeue_after requeueErr, None), k1))"

definition mapDaemonPhase :: "string \<Rightarrow> TunnelPhase" where
  "mapDaemonPhase s =
    (if s = ''running'' \<or> s = ''healthy'' then PhaseHealthy
     else if s = ''starting'' \<or> s = ''pending'' then PhasePending
     else if s = ''stopped'' then PhaseStopped
     else if s = ''failed'' then PhaseFailed
     else PhaseDegraded)"

definition agent_forward :: "ResolvedForward \<Rightarrow> KResolvedForward" where
  "agent_forward f =
    \<lparr>krf_ListenAddress = rf_LocalAddress f, krf_ConfiguredPort = rf_ConfiguredPort f,
     krf_ActualPort = rf_ActualPort f, krf_RemotePort = rf_RemotePort f\<rparr>"

definition reflect_status :: "TunnelStatus \<Rightarrow> Tunnel \<Rightarrow> Tunnel" where
  "reflect_status ds t =
    t\<lparr>tn_Status := (tn_Status t)\<lparr>kts_ResolvedForwards := map agent_forward (st_ResolvedForwards ds),
      kts_Phase := mapDaemonPhase (st_Status ds), kts_LastError := st_Error ds,
      kts_ObservedGeneration := om_Generation (tn_Meta t)\<rparr>\<rparr>"

definition set_pending :: "Tunnel \<Rightarrow> Tunnel" where
  "set_pending t = t\<lparr>tn_Status := (tn_Status t)\<lparr>kts_Phase := PhasePending\<rparr>\<rparr>"

text \<open>From the status of the daemon on.\<close>

definition agent_poll :: "'k kube \<Rightarrow> 'd daemon \<Rightarrow> Tunnel \<Rightarrow> string \<Rightarrow> 'k \<times> 'd \<Rightarrow>
    (Result \<times> err option) \<times> 'k \<times> 'd" where
  "agent_poll K C t nm kd =
    (case kd of (k, d) \<Rightarrow>
     case d_Status C d \<lparr>sr_Name = nm\<rparr> of (resp, d1) \<Rightarrow>
     case (case resp of Inl e \<Rightarrow> [] | Inr r \<Rightarrow> sr_Tunnels r) of
       [] \<Rightarrow> (case k_update_tunnel_status K k (set_pending t) of
          (e, k1) \<Rightarrow> ((requeue_after requeuePending, e), k1, d1))
     | ds # _ \<Rightarrow>
        (let t' = reflect_status ds t in
         case k_update_tunnel_status K k t' of
           (Some e, k1) \<Rightarrow> ((no_result, Some e), k1, d1)
         | (None, k1) \<Rightarrow>
            ((if kts_Phase (tn_Status t') \<noteq> PhaseHealthy then requeue_after requeuePending
              else requeue_after requeueSteady, None), k1, d1)))"

definition agent_push :: "'k kube \<Rightarrow> 'd daemon \<Rightarrow> duration_ops \<Rightarrow> (int32 \<Rightarrow> float32) \<Rightarrow> Tunnel \<Rightarrow> 'k \<times> 'd \<Rightarrow>
    (Result \<times> err option) \<times> 'k \<times> 'd" where
  "agent_push K C D milli t kd =
    (case kd of (k, d) \<Rightarrow>
     case agent_ToProto D milli t of
       Inl e \<Rightarrow> (case agent_degrade K t e k of (r, k1) \<Rightarrow> (r, k1, d))
     | Inr spec \<Rightarrow>
        (case d_Update C d \<lparr>update_Spec = Some spec, update_InlineKeys = Map.empty, update_Persistent = False\<rparr> of
           (Some e, d1) \<Rightarrow> (case agent_degrade K t (''Update: '' @ e) k of (r, k1) \<Rightarrow> (r, k1, d1))
         | (None, d1) \<Rightarrow> agent_poll K C t (ts_Name spec) (k, d1)))"

definition agent_Reconcile :: "'k kube \<Rightarrow> 'd daemon \<Rightarrow> duration_ops \<Rightarrow> (int32 \<Rightarrow> float32) \<Rightarrow> string \<Rightarrow>
    string \<Rightarrow> string \<Rightarrow> 'k \<times> 'd \<Rightarrow> (Result \<times> err option) \<times> 'k \<times> 'd" where
  "agent_Reconcile K C D milli NodeName ns nm kd =
    (case kd of (k, d) \<Rightarrow>
     case k_get_tunnel K k ns nm of
       Inl (NotExist e) \<Rightarrow>
         ((no_result, None), k, snd (d_Delete C d \<lparr>delete_Name = daemonTunnelName ns nm\<rparr>))
     | Inl (FileErr e) \<Rightarrow> ((no_result, Some e), k, d)
     | Inr t \<Rightarrow>
        if kts_Node (tn_Status t) \<noteq> NodeName then ((no_result, None), k, d)
        else (case resolveKey K k t of
           Inl e \<Rightarrow> (case agent_degrade K t e k of (r, k1) \<Rightarrow> (r, k1, d))
         | Inr (keyName, content) \<Rightarrow>
            if keyName = [] then agent_push K C D milli t (k, d)
            else (case d_AddKey C d \<lparr>addkey_Name = keyName, addkey_Content = content\<rparr> of
               (Some e, d1) \<Rightarrow>
                 (case agent_degrade K t (''AddKey '' @ quote keyName @ '': '' @ e) k of (r, k1) \<Rightarrow> (r, k1, d1))
             | (None, d1) \<Rightarrow> agent_push K C D milli t (k, d1))))"

end
