(* ===== verification/Answers.thy ===== *)
theory Answers
  imports Server_Calls Kube_Agent
begin

text \<open>
  What the daemon tells about its tunnels is well-formed: an invariant of the port mappings of
  every process, and the types of the answers of \<open>Status\<close> and \<open>WatchStatus\<close> that follow.
\<close>

section \<open>Port mappings\<close>

text \<open>The mappings come from a resolution of the spec's own forwards, which gave every one a port.\<close>

definition mapped :: "Process \<Rightarrow> bool" where
  "mapped p \<longleftrightarrow> pr_portMappings p = [] \<or>
     (\<exists>gs. resolution (forwards (spec_ToProto (pr_spec p))) gs (pr_portMappings p) \<and> (\<forall>g \<in> set gs. fst (snd g) \<noteq> 0))"

lemma mapped_same: "pr_spec q = pr_spec p \<Longrightarrow> pr_portMappings q = pr_portMappings p \<Longrightarrow> mapped p \<Longrightarrow> mapped q"
  by (simp add: mapped_def)

lemma ResolvePorts_mapped:
  assumes "real_ports S" and "ResolvePortsInProto S w (spec_ToProto (pr_spec p)) = (Inr (proto, pr_portMappings p), w')"
  shows "mapped p"
proof -
  have "\<forall>g \<in> set (forwards proto). fst (snd g) \<noteq> 0"
    using assms(2)
  proof (cases rule: ResolvePorts_cases)
    case (ssh s fs)
    then show ?thesis
      using resolve_ssh_assigned [OF assms(1) ssh(2)] by (auto simp: forwards_def ssh_fwd_def)
  next
    case (kubectl k fs)
    then show ?thesis
      using resolve_kubectl_assigned [OF assms(1) kubectl(2)] by (auto simp: forwards_def kubectl_fwd_def)
  qed (simp add: forwards_def)
  then show ?thesis
    using ResolvePorts_resolution [OF assms(2)] by (auto simp: mapped_def)
qed

lemma start_launch_mappings:
  "start_launch S d w c argv p = (r, w', p') \<Longrightarrow> pr_portMappings p' = pr_portMappings p"
  by (auto simp: start_launch_def go_defs Let_def split: prod.splits option.splits)

lemma start_build_mappings:
  assumes "start_build S d opts w c p = Ret (r, w', p')"
  shows "pr_portMappings p' = pr_portMappings p \<or>
    (\<exists>proto w1. ResolvePortsInProto S w (spec_ToProto (pr_spec p)) = (Inr (proto, pr_portMappings p'), w1))"
proof (cases "ResolvePortsInProto S w (spec_ToProto (pr_spec p))")
  case (Pair res w1)
  show ?thesis
  proof (cases res)
    case (Inl e)
    then show ?thesis
      using assms Pair by (auto simp: start_build_def go_defs)
  next
    case (Inr x)
    obtain proto ms where x: "x = (proto, ms)"
      by (rule prod.exhaust)
    have "pr_portMappings p' = ms"
    proof (cases "FromProto proto")
      case (Inl e)
      then show ?thesis
        using assms Pair Inr x by (auto simp: start_build_def go_defs Let_def)
    next
      case fp: (Inr rs)
      obtain b where "spec_BuildCommand S w1 (pr_keyDir p) opts rs = Ret b"
        using assms Pair Inr x fp by (auto simp: start_build_def Let_def bind_go_Ret_iff)
      then show ?thesis
        using assms Pair Inr x fp start_launch_mappings
        by (cases b) (fastforce simp: start_build_def Let_def go_defs)+
    qed
    then show ?thesis
      using Pair Inr x by blast
  qed
qed

lemma Start_mappings:
  assumes "Start S ctx opts w p = Ret (r, w', p')"
  shows "pr_portMappings p' = pr_portMappings p \<or>
    (\<exists>w1 proto w2. ResolvePortsInProto S w1 (spec_ToProto (pr_spec p)) = (Inr (proto, pr_portMappings p'), w2))"
proof (cases "idle p")
  case False
  then show ?thesis
    using assms Start_busy [OF False, of S ctx opts w] by simp
next
  case True
  obtain m w1 where mk: "os_mkdirall S w (Dir (pr_logPath p)) PermDirPublic = (m, w1)"
    by (rule prod.exhaust)
  obtain a w2 where op: "os_openappend S w1 (pr_logPath p) PermFilePublic = (a, w2)"
    by (rule prod.exhaust)
  have same: "pr_spec (ctx_process d p) = pr_spec p" "pr_portMappings (ctx_process d p) = pr_portMappings p" for d
    by (simp_all add: ctx_process_def)
  consider e where "m = Some e" | e where "m = None" "a = Some e"
    | "m = None" "a = None" "ctx = None" | d where "m = None" "a = None" "ctx = Some d"
    by (cases m; cases a; cases ctx) blast+
  then show ?thesis
  proof cases
    case (1 e)
    then show ?thesis
      using assms Start_idle(1) [OF True mk [unfolded 1]] by auto
  next
    case (2 e)
    then show ?thesis
      using assms Start_idle(2) [OF True mk [unfolded 2] op [unfolded 2]] by auto
  next
    case 3
    then show ?thesis
      using assms Start_idle(3) [OF True mk [unfolded 3] op [unfolded 3]] by simp
  next
    case (4 d)
    then have "start_build S d opts w2 (length (pr_runs p)) (ctx_process d p) = Ret (r, w', p')"
      using assms Start_idle(4) [OF True mk [unfolded 4] op [unfolded 4]] by simp
    from start_build_mappings [OF this] show ?thesis
      unfolding same by blast
  qed
qed

lemma child_step_mappings: "child_step e p = Some p' \<Longrightarrow> pr_portMappings p' = pr_portMappings p"
  by (cases e) (auto simp: go_defs reap_def split: if_splits child.splits option.splits)

lemma child_events_mappings: "pr_portMappings (child_events es p) = pr_portMappings p"
  by (induction es arbitrary: p) (auto split: option.splits dest: child_step_mappings)

lemma receive_mappings: "receive p = Some (m, p') \<Longrightarrow> pr_portMappings p' = pr_portMappings p"
  by (auto simp: receive_def go_defs split: option.splits list.splits)

lemma Stop_mappings: "pr_portMappings (snd (Stop D env p)) = pr_portMappings p"
proof -
  have "pr_portMappings (snd (stop_select D env q)) = pr_portMappings q" for q
    by (auto simp: stop_select_def split: option.splits if_splits dest: receive_mappings)
  then show ?thesis
    by (simp add: Stop_def Let_def child_events_mappings stop_begin_def go_defs split: option.split)
qed

lemma reachable_mapped:
  assumes "real_ports S"
  shows "proc_reachable S D p \<Longrightarrow> mapped p"
proof (induction rule: proc_reachable.induct)
  case (new spec keyDir)
  then show ?case by (simp add: mapped_def NewProcess_def)
next
  case (start p ctx opts w r w' p')
  have spec: "pr_spec p' = pr_spec p"
    by (rule Start_spec [OF start(2)])
  from Start_mappings [OF start(2)] show ?case
  proof
    assume "pr_portMappings p' = pr_portMappings p"
    then show ?thesis
      using mapped_same [OF spec] start.IH by simp
  next
    assume "\<exists>w1 proto w2. ResolvePortsInProto S w1 (spec_ToProto (pr_spec p)) = (Inr (proto, pr_portMappings p'), w2)"
    then show ?thesis
      using ResolvePorts_mapped [OF assms] spec by metis
  qed
next
  case (stop p env r p')
  then show ?case
    using mapped_same Stop_spec Stop_mappings by (metis snd_conv)
next
  case (child p e p')
  then show ?case
    using mapped_same child_step_spec child_step_mappings by metis
next
  case (monitor p m p')
  then show ?case
    using mapped_same receive_spec receive_mappings by metis
qed (auto simp: mapped_def go_defs)

section \<open>Answers\<close>

text \<open>A resolved forward that belongs to a forward of the spec.\<close>

definition answer_forward :: "fwd \<Rightarrow> ResolvedForward \<Rightarrow> bool" where
  "answer_forward f r \<longleftrightarrow>
    rf_LocalAddress r = fst f \<and> rf_ConfiguredPort r = fst (snd f) \<and> rf_RemotePort r = snd (snd f) \<and>
    rf_ActualPort r \<noteq> 0 \<and> (rf_ConfiguredPort r = 0 \<or> rf_ActualPort r = rf_ConfiguredPort r)"

text \<open>The type of an answer about one tunnel.\<close>

definition wf_answer :: "TunnelStatus \<Rightarrow> bool" where
  "wf_answer t \<longleftrightarrow>
    (\<exists>p s. st_Spec t = Some p \<and> FromProto p = Inr s \<and> spec_Name s = st_Name t \<and>
       (st_ResolvedForwards t = [] \<or> list_all2 answer_forward (forwards p) (st_ResolvedForwards t))) \<and>
    st_Status t \<in> {''stopped'', ''starting'', ''running'', ''degraded'', ''failed''}"

lemma resolution_answer:
  assumes "resolution fs gs ms" and "\<forall>g \<in> set gs. fst (snd g) \<noteq> 0"
  shows "list_all2 answer_forward fs (toProtoResolvedForwards ms)"
  using assms
  by (induction fs gs ms rule: resolution.induct)
    (auto simp: toProtoResolvedForwards_def answer_forward_def resolves_to_def)

lemma wf_answer_registered:
  assumes "sv_good S D sv" and "real_ports S" and "sv_processes sv n = Some i"
  shows "wf_answer (to_status (tunnel_info n (proc sv i)))"
proof -
  let ?p = "proc sv i"
  have ok: "sv_ok S D sv" and wf: "\<forall>p \<in> set (sv_heap sv). wf_spec (pr_spec p)"
    using assms(1) by (simp_all add: sv_good_def)
  have mem: "?p \<in> set (sv_heap sv)"
    using sv_ok_registered(1) [OF ok assms(3)] by (simp add: proc_def)
  note name = sv_ok_registered(3) [OF ok assms(3)]
  have reads: "FromProto (spec_ToProto (pr_spec ?p)) = Inr (pr_spec ?p)"
    using wf mem by (simp add: wf_spec_def)
  have "mapped ?p"
    by (rule reachable_mapped [OF assms(2), of D]) (use ok mem in \<open>simp add: sv_ok_def\<close>)
  then have "st_ResolvedForwards (to_status (tunnel_info n ?p)) = [] \<or>
      list_all2 answer_forward (forwards (spec_ToProto (pr_spec ?p))) (st_ResolvedForwards (to_status (tunnel_info n ?p)))"
    using resolution_answer by (auto simp: mapped_def to_status_def tunnel_info_def toProtoResolvedForwards_def)
  moreover have "status_string st \<in> {''stopped'', ''starting'', ''running'', ''degraded'', ''failed''}" for st
    by (cases st) simp_all
  ultimately show ?thesis
    using name reads by (simp add: wf_answer_def) (simp add: to_status_def tunnel_info_def)
qed


text \<open>A daemon whose only tunnel has been started on a system that always gives port 40001.\<close>

lemma demo_answers:
  obtains sv :: "(mem, adj, nat) Supervisor" where "sv_good const_os demo_durations sv"
    "sv_processes sv = [''bastion'' \<mapsto> 0]" "map pm_ActualPort (pr_portMappings (proc sv 0)) = [40001, 8080]"
proof -
  let ?new = "NewProcess const_os demo_bastion ''/keys''"
  have "\<exists>argv ms v. start_ok const_os False [] mem0 ?new argv ms v \<and> map pm_ActualPort ms = [40001, 8080]"
    unfolding start_ok_def
    by (simp add: const_os_def NewProcess_def demo_bastion_def SSHSpec_ToProto_def demo_spec_def demo_ssh_def
        ResolvePortsInProto_def Let_def resolve_port_def allocatePort_def mem0_def FromProto_def
        SSHSpec_BuildCommand_def identity_path_def to_int32_def mem_os_def)
  then obtain argv ms v where ok: "start_ok const_os False [] mem0 ?new argv ms v"
    and ports: "map pm_ActualPort ms = [40001, 8080]"
    by (elim exE conjE)
  let ?up = "started ?new False argv ms"
  have idle: "idle ?new"
    by (simp add: NewProcess_def)
  have reach: "proc_reachable const_os demo_durations ?up"
    by (rule proc_reachable.start [OF proc_reachable.new Start_ok [OF idle ok]])
  have spec: "pr_spec ?up = demo_bastion"
    by (simp add: started_def NewProcess_def)
  define sv :: "(mem, adj, nat) Supervisor" where "sv = (NewSupervisor mem0 (NewPlanner adj_ops [''bastion'' \<mapsto> demo_bastion])
      \<lparr>cfg_Tunnels = Map.empty, cfg_filePath = []\<rparr> ''/keys'' ''/tunnels'')
    \<lparr>sv_ctx := Some False, sv_processes := [''bastion'' \<mapsto> 0], sv_heap := [?up]\<rparr>"
  have f: "sv_processes sv = [''bastion'' \<mapsto> 0]" "sv_heap sv = [?up]" "proc sv 0 = ?up" "sv_monitors sv = []"
    "pl_specs (sv_planner sv) = [''bastion'' \<mapsto> demo_bastion]" "sv_ctx sv = Some False"
    by (simp_all add: sv_def proc_def NewSupervisor_def)
  have "sv_ok const_os demo_durations sv"
    using reach spec by (auto simp: sv_ok_def sv_registry_def sv_disjoint_def named_def f split: if_splits)
  moreover have "wf_spec demo_bastion"
    using demo_process_wf by (simp add: demo_process_def NewProcess_def)
  ultimately have "sv_good const_os demo_durations sv"
    using spec by (simp add: sv_good_def f)
  then show thesis
    by (rule that) (simp_all add: f ports started_def)
qed


end
