(* ===== verification/Peer_Auth.thy ===== *)
theory Peer_Auth
  imports Os
begin

text \<open>
  \<open>internal/api/creds.go\<close> and \<open>internal/api/polkit.go\<close>: the table of the process ids behind the
  connections of the daemon's socket, and the question to polkit whether such a process may
  act. The kernel's answers, the message bus and the file system are inputs.
\<close>

section \<open>Process ids of peers\<close>

text \<open>
  A connection of the listener: its remote address as a string, whether it is a Unix socket
  and the process id in its credentials, when they can be read.
\<close>

record conn =
  cn_remote :: string
  cn_unix :: bool
  cn_ucred :: "int32 option"

type_synonym pid_map = "string \<rightharpoonup> gint"

datatype credsConn = CredsConn (inner_conn: conn)

definition Accept :: "err + conn \<Rightarrow> pid_map \<Rightarrow> (err + credsConn) \<times> pid_map" where
  "Accept r pids =
    (case r of
       Inl e \<Rightarrow> (Inl e, pids)
     | Inr c \<Rightarrow> (Inr (CredsConn c),
         if cn_unix c
         then (case cn_ucred c of None \<Rightarrow> pids | Some pid \<Rightarrow> pids(cn_remote c \<mapsto> of_int32 pid))
         else pids))"

definition conn_Close :: "credsConn \<Rightarrow> pid_map \<Rightarrow> pid_map" where
  "conn_Close c pids = pids(cn_remote (inner_conn c) := None)"

text \<open>The peer's address as the context has it, if it has one.\<close>

definition GetPeerPID :: "string option \<Rightarrow> pid_map \<Rightarrow> gint \<times> bool" where
  "GetPeerPID peer pids =
    (case peer of
       None \<Rightarrow> (0, False)
     | Some a \<Rightarrow> (case pids a of None \<Rightarrow> (0, False) | Some pid \<Rightarrow> (pid, True)))"

datatype conn_event = Accepted conn | Closed conn

fun conn_step :: "conn_event \<Rightarrow> pid_map \<Rightarrow> pid_map" where
  "conn_step (Accepted c) pids = snd (Accept (Inr c) pids)"
| "conn_step (Closed c) pids = conn_Close (CredsConn c) pids"

definition conn_steps :: "conn_event list \<Rightarrow> pid_map \<Rightarrow> pid_map" where
  "conn_steps evs pids = foldl (\<lambda>m e. conn_step e m) pids evs"

text \<open>Nothing else happens at the address \<open>a\<close>.\<close>

fun event_addr :: "conn_event \<Rightarrow> string" where
  "event_addr (Accepted c) = cn_remote c"
| "event_addr (Closed c) = cn_remote c"

lemma conn_steps_other: "\<forall>e \<in> set evs. event_addr e \<noteq> a \<Longrightarrow> conn_steps evs pids a = pids a"
  unfolding conn_steps_def
proof (induction evs arbitrary: pids)
  case (Cons e evs)
  have "conn_step e pids a = pids a"
    using Cons.prems by (cases e) (auto simp: Accept_def conn_Close_def split: option.splits)
  with Cons show ?case by simp
qed simp

lemma conn_steps_append: "conn_steps (es @ fs) pids = conn_steps fs (conn_steps es pids)"
  by (simp add: conn_steps_def)

lemma conn_steps_Cons: "conn_steps (e # es) pids = conn_steps es (conn_step e pids)"
  by (simp add: conn_steps_def)



section \<open>Start times and polkit\<close>

definition stat_path :: "gint \<Rightarrow> string" where
  "stat_path pid = ''/proc/'' @ dec64 pid @ ''/stat''"

definition byte_char :: "8 word \<Rightarrow> char" where
  "byte_char b = char_of (unat b)"

lemma byte_char_of_char [simp]: "byte_char (of_char c) = c"
proof -
  have "of_char c = (of_nat (of_char c) :: 8 word)"
    by (simp add: of_nat_of_char)
  then have "unat (of_char c :: 8 word) = of_char c mod 2 ^ 8"
    by (simp add: unat_of_nat)
  then show ?thesis
    by (simp add: byte_char_def)
qed

definition getProcessStartTime :: "'w os \<Rightarrow> 'w \<Rightarrow> gint \<Rightarrow> err + int64" where
  "getProcessStartTime S w pid =
    (case os_readfile S w (stat_path pid) of
       Inl e \<Rightarrow> Inl (file_err_msg e)
     | Inr data \<Rightarrow>
        (let fs = Fields (map byte_char data) in
         if length fs < 22 then Inl (''invalid stat file for pid '' @ dec64 pid)
         else parse_uint64 (fs ! 21)))"

text \<open>
  The system bus: whether it can be reached, and polkit's answer for a process id, a start time
  and an action.
\<close>

record bus =
  bus_connect :: "err option"
  bus_check :: "32 word \<Rightarrow> int64 \<Rightarrow> string \<Rightarrow> err + bool"

definition checkAuthorization :: "'w os \<Rightarrow> 'w \<Rightarrow> bus \<Rightarrow> gint \<Rightarrow> string \<Rightarrow> bool \<times> err option" where
  "checkAuthorization S w B pid action =
    (case bus_connect B of
       Some e \<Rightarrow> (False, Some (''failed to connect to system bus: '' @ e))
     | None \<Rightarrow>
        (case getProcessStartTime S w pid of
           Inl e \<Rightarrow> (False, Some (''failed to get process start time: '' @ e))
         | Inr startTime \<Rightarrow>
            (case bus_check B (ucast pid) startTime action of
               Inl e \<Rightarrow> (False, Some (''polkit call failed: '' @ e))
             | Inr b \<Rightarrow> (b, None))))"

text \<open>Words separated by single spaces, and a final newline, as \<open>/proc/<pid>/stat\<close> has them.\<close>

definition word_ok :: "string \<Rightarrow> bool" where
  "word_ok s \<longleftrightarrow> s \<noteq> [] \<and> (\<forall>c \<in> set s. \<not> is_space c)"

fun spaced :: "string list \<Rightarrow> string" where
  "spaced [] = [CHR 0x0A]"
| "spaced [x] = x @ [CHR 0x0A]"
| "spaced (x # xs) = x @ CHR 0x20 # spaced xs"

lemma fields_word:
  assumes "word_ok x" and "is_space c"
  shows "Fields (x @ c # s) = x # Fields (c # s)"
proof -
  obtain a x' where x: "x = a # x'" and a: "\<not> is_space a"
    using assms(1) by (cases x) (auto simp: word_ok_def)
  have tw: "takeWhile (\<lambda>c. \<not> is_space c) (x @ c # s) = x"
    "dropWhile (\<lambda>c. \<not> is_space c) (x @ c # s) = c # s"
    using assms by (simp_all add: word_ok_def takeWhile_append2 dropWhile_append2)
  have dw: "dropWhile is_space (x @ c # s) = x @ c # s"
    using a by (simp add: x)
  show ?thesis
    by (subst Fields.simps) (simp only: Let_def dw tw, simp add: x)
qed

lemma fields_space: "is_space c \<Longrightarrow> Fields (c # s) = Fields s"
  by (subst (1 2) Fields.simps) simp

lemma fields_spaced: "\<forall>x \<in> set xs. word_ok x \<Longrightarrow> Fields (spaced xs) = xs"
proof (induction xs rule: spaced.induct)
  case 1
  show ?case by (subst Fields.simps) (simp add: is_space_def)
next
  case (2 x)
  have "Fields [CHR 0x0A] = []"
    by (subst Fields.simps) (simp add: is_space_def)
  then show ?case
    using 2 by (simp add: fields_word is_space_def)
next
  case (3 x y ys)
  then show ?case
    by (simp add: fields_word fields_space is_space_def)
qed

text \<open>
  The start time of a process is the 22nd field of its \<open>stat\<close> file, the 20th after the
  command's name, as long as that name is one word. Each space in the name shifts the fields:
  with one, the field before is sent to polkit as the start time.
\<close>

theorem getProcessStartTime_field:
  assumes "os_readfile S w (stat_path pid) = Inr (map (\<lambda>c. of_char c) (spaced (p # name @ fs)))"
    and "\<forall>x \<in> set (p # name @ fs). word_ok x" and "length fs \<ge> 20" and "0 < length name" and "length name \<le> 20"
  shows "getProcessStartTime S w pid = parse_uint64 (fs ! (20 - length name)) \<and>
    (length name = 1 \<longrightarrow> getProcessStartTime S w pid = parse_uint64 (fs ! 19)) \<and>
    (length name = 2 \<longrightarrow> getProcessStartTime S w pid = parse_uint64 (fs ! 18))"
proof -
  have chars: "map byte_char (map of_char s) = s" for s :: string
    by (simp add: comp_def)
  have nth: "(p # name @ fs) ! 21 = fs ! (20 - length name)"
    using assms(4,5) by (simp add: nth_append nth_Cons')
  have len: "\<not> length (p # name @ fs) < 22"
    using assms(3,4) unfolding list.size length_append by linarith
  have "getProcessStartTime S w pid = parse_uint64 (fs ! (20 - length name))"
    unfolding getProcessStartTime_def assms(1) sum.case chars Let_def fields_spaced [OF assms(2)] if_not_P [OF len] nth ..
  then show ?thesis
    by simp
qed

definition stat_fields :: "string list" where
  "stat_fields = replicate 18 ''0'' @ [''0'', ''5000''] @ replicate 30 ''0''"

lemma getProcessStartTime_field_witness:
  "getProcessStartTime (mem_os\<lparr>os_readfile := \<lambda>w f. Inr (map of_char (spaced (''7'' # [''(ssh)''] @ stat_fields)))\<rparr>)
     mem0 7 = Inr 5000 \<and>
   getProcessStartTime (mem_os\<lparr>os_readfile := \<lambda>w f. Inr (map of_char (spaced (''7'' # [''(my'', ''ssh)''] @ stat_fields)))\<rparr>)
     mem0 7 = Inr 0"
proof -
  have ok: "\<forall>x \<in> set (''7'' # [''(ssh)''] @ stat_fields). word_ok x"
    "\<forall>x \<in> set (''7'' # [''(my'', ''ssh)''] @ stat_fields). word_ok x" "length stat_fields \<ge> 20"
    by (simp_all add: stat_fields_def word_ok_def is_space_def)
  have nth: "stat_fields ! 19 = ''5000''" "stat_fields ! 18 = ''0''"
    by (simp_all add: stat_fields_def nth_append)
  have num: "parse_uint64 ''5000'' = Inr 5000" "parse_uint64 ''0'' = Inr 0"
    by (simp_all add: parse_uint64_def is_digit_def dec_val_def)
  show ?thesis
    using getProcessStartTime_field [OF _ ok(1) ok(3), of
        "mem_os\<lparr>os_readfile := \<lambda>w f. Inr (map of_char (spaced (''7'' # [''(ssh)''] @ stat_fields)))\<rparr>" mem0 7]
      getProcessStartTime_field [OF _ ok(2) ok(3), of
        "mem_os\<lparr>os_readfile := \<lambda>w f. Inr (map of_char (spaced (''7'' # [''(my'', ''ssh)''] @ stat_fields)))\<rparr>" mem0 7]
      nth num by simp
qed

end
