(* ===== verification/Agent_Props.thy ===== *)
theory Agent_Props
  imports Kube_Agent
begin

text \<open>
  Properties of the agent on its own: what it sends is accepted by the daemon, the key a spec
  names is the key that was uploaded, and when the names it gives to the daemon are unique.
\<close>

text \<open>
  C34: What the agent sends is what it uploaded. When the key of a tunnel resolves and the tunnel
  translates, the daemon accepts the spec, its name and dependencies are the resource's in the
  namespace, and the key its command will use is exactly the one the agent stored, or none.
\<close>

theorem agent_key_matches:
  assumes "kube_group_client K services endpoints"
    and "resolveKey K k t = Inr (keyName, content)" and "agent_ToProto D milli t = Inr p"
  shows "\<exists>spec. FromProto p = Inr spec \<and>
    spec_Name spec = daemonTunnelName (om_Namespace (tn_Meta t)) (om_Name (tn_Meta t)) \<and>
    spec_Dependencies spec = map (daemonTunnelName (om_Namespace (tn_Meta t))) (kt_DependsOn (tn_Spec t)) \<and>
    (case ts_Type p of
       Some (TunnelSpec_Ssh s) \<Rightarrow> ssh_IdentityKeyRef s = keyName \<and> ssh_IdentityKeyFile s = []
     | Some (TunnelSpec_Kubectl x) \<Rightarrow> kc_KubeconfigRef x = keyName \<and> kc_KubeconfigFile x = []
     | None \<Rightarrow> False)"
proof -
  let ?s = "tn_Spec t" and ?ns = "om_Namespace (tn_Meta t)"
  have kind: "(kt_SSH ?s = None) \<noteq> (kt_Kubectl ?s = None)"
    using assms(3) by (auto simp: agent_ToProto_def Let_def split: if_splits)
  have fields: "ts_Name p = daemonTunnelName ?ns (om_Name (tn_Meta t))"
    "ts_DependsOn p = map (daemonTunnelName ?ns) (kt_DependsOn ?s)"
    "ts_Type p = (case kt_SSH ?s of Some x \<Rightarrow> Some (TunnelSpec_Ssh (agent_ssh ?ns x))
       | None \<Rightarrow> (case kt_Kubectl ?s of Some x \<Rightarrow> Some (TunnelSpec_Kubectl (agent_kubectl ?ns x)) | None \<Rightarrow> None))"
    using assms(3) kind by (auto simp: agent_ToProto_def Let_def split: if_splits)
  have type: "ts_Type p \<noteq> None"
    using kind unfolding fields(3) by (auto split: option.splits)
  obtain spec where spec: "FromProto p = Inr spec"
    using type FromProto_Inr_iff [of p] by auto
  have key: "dk = daemonKeyName ?ns nm" if "tunnel_key K k ?ns nm = Inr (sn, sk, dk)" for nm sn sk dk
    using that kube_group_client.key_named [OF assms(1)]
    by (auto simp: tunnel_key_def split: sum.splits option.splits)
  have none: "keyName = []" if "key_source K k t = None"
    using assms(2) that by (simp add: resolveKey_def)
  have some: "\<exists>sn sk. x = Inr (sn, sk, keyName)" if "key_source K k t = Some x" for x
    using assms(2) that by (auto simp: resolveKey_def split: sum.splits prod.splits option.splits)
  have "case ts_Type p of
       Some (TunnelSpec_Ssh s) \<Rightarrow> ssh_IdentityKeyRef s = keyName \<and> ssh_IdentityKeyFile s = []
     | Some (TunnelSpec_Kubectl x) \<Rightarrow> kc_KubeconfigRef x = keyName \<and> kc_KubeconfigFile x = []
     | None \<Rightarrow> False"
  proof (cases "kt_SSH ?s")
    case (Some x)
    then have no: "kt_Kubectl ?s = None"
      using kind by simp
    have "key_ref ?ns (kssh_IdentityKeyRef x) (kssh_IdentityKeySecretRef x) = keyName"
      using Some no none some key
      by (force simp: key_source_def Let_def key_ref_def split: option.splits)
    then show ?thesis
      unfolding fields(3) by (simp add: Some agent_ssh_def)
  next
    case None
    then obtain x where x: "kt_Kubectl ?s = Some x"
      using kind by auto
    have "key_ref ?ns (kkc_KubeconfigRef x) (kkc_KubeconfigSecretRef x) = keyName"
      using None x none some key
      by (force simp: key_source_def Let_def key_ref_def split: option.splits)
    then show ?thesis
      unfolding fields(3) by (simp add: None x agent_kubectl_def)
  qed
  then show ?thesis
    using spec FromProto_Name [OF spec] FromProto_Dependencies [OF spec] fields(1,2) by auto
qed

definition demo_keyed :: Tunnel where
  "demo_keyed = demo_tunnel\<lparr>tn_Spec := new_spec\<lparr>kt_SSH := Some
     \<lparr>kssh_User = ''u'', kssh_Host = ''h'', kssh_Port = 22, kssh_IdentityKeyRef = Some \<lparr>lo_Name = ''id''\<rparr>,
      kssh_IdentityKeySecretRef = None, kssh_LocalForwards = [], kssh_Options = Map.empty\<rparr>\<rparr>\<rparr>"

definition demo_secrets :: cluster where
  "demo_secrets = demo_cluster\<lparr>cl_keys := [(''data'', ''id'') \<mapsto> demo_key],
     cl_secrets := [(''data'', ''s'') \<mapsto> \<lparr>sec_Name = ''s'', sec_Data = [''k'' \<mapsto> [1]]\<rparr>,
       (''data'', ''id'') \<mapsto> \<lparr>sec_Name = ''id'', sec_Data = [''k'' \<mapsto> [2]]\<rparr>]\<rparr>"

lemma demo_keyed_resolves: "resolveKey mem_kube demo_secrets demo_keyed = Inr (''data--id'', [1])"
  by (simp add: resolveKey_def key_source_def tunnel_key_def demo_keyed_def demo_tunnel_def new_meta_def
      demo_secrets_def mem_kube_def got_def named_key_def demo_key_def daemonKeyName_def)

lemma agent_key_matches_witness:
  "\<exists>p spec. agent_ToProto demo_durations (\<lambda>x. 0) demo_keyed = Inr p \<and> FromProto p = Inr spec \<and>
    spec_Name spec = ''data--pg''"
proof -
  obtain p where p: "agent_ToProto demo_durations (\<lambda>x. 0) demo_keyed = Inr p"
    by (simp add: agent_ToProto_def demo_keyed_def new_spec_def Let_def)
  from agent_key_matches [OF mem_kube.kube_group_client_axioms demo_keyed_resolves p] p show ?thesis
    by (auto simp: demo_keyed_def demo_tunnel_def new_meta_def daemonTunnelName_def)
qed

section \<open>Names\<close>

text \<open>A namespace whose name neither contains two hyphens in a row nor ends with one.\<close>

definition plain_namespace :: "string \<Rightarrow> bool" where
  "plain_namespace ns \<longleftrightarrow> \<not> str_contains ns ''--'' \<and> \<not> suffix ''-'' ns"

lemma hyphens_split:
  assumes "plain_namespace a" and "plain_namespace b" and "a @ ''--'' @ n = b @ ''--'' @ m"
  shows "a = b \<and> n = m"
proof -
  have no: "us = []" if "c = d @ us" "us @ ''--'' @ x = ''--'' @ y" "plain_namespace c" for c d us x y :: string
  proof (cases us)
    case (Cons u vs)
    show ?thesis
    proof (cases vs)
      case Nil
      then have "suffix ''-'' c"
        using that(1,2) Cons by (auto simp: suffix_def)
      with that(3) show ?thesis by (simp add: plain_namespace_def)
    next
      case (Cons v ws)
      then have "c = d @ ''--'' @ ws"
        using that(1,2) \<open>us = u # vs\<close> by simp
      with that(3) show ?thesis
        unfolding plain_namespace_def str_contains_iff by blast
    qed
  qed simp
  have "(\<exists>us. a = b @ us \<and> us @ ''--'' @ n = ''--'' @ m) \<or> (\<exists>us. b = a @ us \<and> us @ ''--'' @ m = ''--'' @ n)"
    using assms(3) unfolding append_eq_append_conv2 by metis
  then have ab: "a = b"
  proof (elim disjE exE conjE)
    fix us assume h: "a = b @ us" "us @ ''--'' @ n = ''--'' @ m"
    show "a = b" using no [OF h assms(1)] h(1) by simp
  next
    fix us assume h: "b = a @ us" "us @ ''--'' @ m = ''--'' @ n"
    show "a = b" using no [OF h assms(2)] h(1) by simp
  qed
  from assms(3) show ?thesis unfolding ab by simp
qed

text \<open>
  The daemon's name of a tunnel determines its namespace and its name when namespaces
  neither contain two hyphens in a row nor end with one. Kubernetes allows the former, and
  then tunnels of two namespaces can have one name in the daemon: the agent of the second
  replaces the first one.
\<close>

theorem daemonTunnelName_unique:
  assumes "plain_namespace ns" and "plain_namespace ns'"
  shows "(daemonTunnelName ns nm = daemonTunnelName ns' nm' \<longleftrightarrow> ns = ns' \<and> nm = nm') \<and>
    daemonTunnelName (ns @ ''--'' @ x) nm = daemonTunnelName ns (x @ ''--'' @ nm)"
  using hyphens_split [OF assms] by (auto simp: daemonTunnelName_def)

lemma daemonTunnelName_unique_witness:
  "daemonTunnelName ''data'' ''pg'' \<noteq> daemonTunnelName ''prod'' ''pg''"
proof -
  have "plain_namespace ''data''" "plain_namespace ''prod''"
    by (simp_all add: plain_namespace_def str_contains.simps suffix_def)
  then show ?thesis
    using daemonTunnelName_unique by fastforce
qed

text \<open>
  Keys and secrets share the names in the daemon. Two tunnels of one namespace, one with
  the \<open>TunnelKey\<close> \<open>id\<close> and one with the secret \<open>id\<close>, upload different bytes under the same
  name, so the one reconciled last decides which key both use.
\<close>

theorem key_secret_clash:
  "\<exists>k t t' content content'. resolveKey mem_kube k t = Inr (''data--id'', content) \<and>
    resolveKey mem_kube k t' = Inr (''data--id'', content') \<and> content \<noteq> content' \<and>
    tunnel_id t = (''data'', ''pg'') \<and> tunnel_id t' = (''data'', ''db'')"
proof -
  let ?t' = "demo_tunnel\<lparr>tn_Meta := new_meta ''data'' ''db'', tn_Spec := new_spec\<lparr>kt_SSH := Some
     \<lparr>kssh_User = ''u'', kssh_Host = ''h'', kssh_Port = 22, kssh_IdentityKeyRef = None,
      kssh_IdentityKeySecretRef = Some \<lparr>sk_Name = ''id'', sk_Key = ''k''\<rparr>, kssh_LocalForwards = [],
      kssh_Options = Map.empty\<rparr>\<rparr>\<rparr>"
  have "resolveKey mem_kube demo_secrets ?t' = Inr (''data--id'', [2])"
    by (simp add: resolveKey_def key_source_def new_meta_def demo_secrets_def mem_kube_def got_def daemonKeyName_def)
  moreover have "tunnel_id demo_keyed = (''data'', ''pg'')" "tunnel_id ?t' = (''data'', ''db'')"
    by (simp_all add: tunnel_id_def demo_keyed_def demo_tunnel_def new_meta_def)
  ultimately show ?thesis
    using demo_keyed_resolves
    by (intro exI [of _ demo_secrets] exI [of _ demo_keyed] exI [of _ ?t'] exI [of _ "[1]"] exI [of _ "[2]"]) simp
qed

end
