(* ===== verification/Agent_Server.thy ===== *)
theory Agent_Server
  imports Agent_Props Server_Calls
begin

text \<open>
  The agent and the daemon together. The agent relies on a contract of its daemon, a locale;
  what the agent does to any daemon that meets it is proved there, and the gRPC handlers on
  the supervisor are shown to meet it.
\<close>

section \<open>The contract\<close>

text \<open>
  \<open>tunnels\<close> are the specs the daemon has, by name; \<open>good\<close> are its states between calls;
  \<open>same\<close> compares specs the way the daemon does; \<open>live\<close> tunnels need no start; \<open>quiet\<close>
  changes leave every tunnel as it is.
\<close>

locale daemon_contract =
  fixes C :: "'d daemon"
    and tunnels :: "'d \<Rightarrow> string \<rightharpoonup> TunnelSpec"
    and good :: "'d \<Rightarrow> bool"
    and same :: "TunnelSpec \<Rightarrow> TunnelSpec \<Rightarrow> bool"
    and live :: "'d \<Rightarrow> string \<Rightarrow> bool"
    and quiet :: "'d \<Rightarrow> 'd \<Rightarrow> bool"
  assumes add_key: "good d \<Longrightarrow> d_AddKey C d req = (e, d') \<Longrightarrow> good d' \<and> quiet d d'"
    and update_frame: "good d \<Longrightarrow> FromProto p = Inr spec \<Longrightarrow> d_Update C d (push_request p) = (e, d') \<Longrightarrow>
      good d' \<and> (\<forall>n. n \<noteq> ts_Name p \<longrightarrow> tunnels d' n = tunnels d n)"
    and update_done: "good d \<Longrightarrow> FromProto p = Inr spec \<Longrightarrow> d_Update C d (push_request p) = (None, d') \<Longrightarrow>
      \<exists>q. tunnels d' (ts_Name p) = Some q \<and> (q = p \<or> same q p)"
    and update_same: "good d \<Longrightarrow> FromProto p = Inr spec \<Longrightarrow> tunnels d (ts_Name p) = Some q \<Longrightarrow> same q p \<Longrightarrow>
      live d (ts_Name p) \<Longrightarrow> \<exists>d'. d_Update C d (push_request p) = (None, d') \<and> quiet d d'"
    and status: "good d \<Longrightarrow> nm \<noteq> [] \<Longrightarrow> tunnels d nm = Some q \<Longrightarrow>
      \<exists>st. d_Status C d \<lparr>sr_Name = nm\<rparr> = (Inr \<lparr>sr_Tunnels = [st]\<rparr>, d) \<and> st_Name st = nm \<and> st_Spec st = Some q"
    and delete: "good d \<Longrightarrow> d_Delete C d \<lparr>delete_Name = nm\<rparr> = (e, d') \<Longrightarrow>
      good d' \<and> tunnels d' = (tunnels d)(nm := None)"
    and quiet_tunnels: "quiet d d' \<Longrightarrow> tunnels d' = tunnels d \<and> live d' = live d"
    and quiet_refl: "quiet d d"
    and quiet_trans: "quiet d1 d2 \<Longrightarrow> quiet d2 d3 \<Longrightarrow> quiet d1 d3"

text \<open>The state of a tunnel in the cluster and in the daemon after the agent has pushed it.\<close>

definition reflected :: "'k kube \<Rightarrow> Tunnel \<Rightarrow> TunnelSpec \<Rightarrow> 'k \<Rightarrow> bool" where
  "reflected K t q k \<longleftrightarrow> (\<exists>st. k_get_tunnel K k (om_Namespace (tn_Meta t)) (om_Name (tn_Meta t)) =
     Inr (reflect_status st t) \<and> st_Spec st = Some q \<and>
     st_Name st = daemonTunnelName (om_Namespace (tn_Meta t)) (om_Name (tn_Meta t)))"

definition degraded :: "'k kube \<Rightarrow> Tunnel \<Rightarrow> Result \<Rightarrow> 'k \<Rightarrow> bool" where
  "degraded K t res k \<longleftrightarrow> res = requeue_after requeueErr \<and>
     (\<exists>msg. k_get_tunnel K k (om_Namespace (tn_Meta t)) (om_Name (tn_Meta t)) =
        Inr (with_error PhaseDegraded msg t))"

lemma daemonTunnelName_nonempty [simp]: "daemonTunnelName ns nm \<noteq> []"
  by (simp add: daemonTunnelName_def)

lemma agent_ToProto_valid:
  assumes "agent_ToProto D milli t = Inr p"
  shows "\<exists>spec. FromProto p = Inr spec" and "ts_Name p = daemonTunnelName (om_Namespace (tn_Meta t)) (om_Name (tn_Meta t))"
proof -
  have "ts_Type p \<noteq> None"
    using assms by (auto simp: agent_ToProto_def Let_def split: if_splits option.splits)
  then show "\<exists>spec. FromProto p = Inr spec"
    using FromProto_Inr_iff [of p] by blast
  show "ts_Name p = daemonTunnelName (om_Namespace (tn_Meta t)) (om_Name (tn_Meta t))"
    using assms by (auto simp: agent_ToProto_def Let_def split: if_splits)
qed

lemma status_update_stored:
  assumes "kube_client K services endpoints" and "k_get_tunnel K k ns nm = Inr t"
    and "k_update_tunnel_status K k (t\<lparr>tn_Status := s\<rparr>) = (None, k')"
  shows "k_get_tunnel K k' ns nm = Inr (t\<lparr>tn_Status := s\<rparr>)"
  using kube_client.status_stored [OF assms(1,2) _ _ _ assms(3)] kube_client.tunnel_named [OF assms(1,2)]
  by (simp add: tunnel_id_def)

lemma reflect_status_upd: "\<exists>s. reflect_status st t = t\<lparr>tn_Status := s\<rparr>"
  unfolding reflect_status_def by blast

lemma with_error_upd: "\<exists>s. with_error ph e t = t\<lparr>tn_Status := s\<rparr>"
  unfolding with_error_def by blast

lemma agent_degrade_degraded:
  assumes "kube_client K services endpoints" and "k_get_tunnel K k ns nm = Inr t"
    and "agent_degrade K t msg k = ((res, None), k')"
  shows "degraded K t res k'"
proof -
  have id: "om_Namespace (tn_Meta t) = ns" "om_Name (tn_Meta t) = nm"
    using kube_client.tunnel_named [OF assms(1,2)] by (simp_all add: tunnel_id_def)
  obtain e k1 where u: "k_update_tunnel_status K k (with_error PhaseDegraded msg t) = (e, k1)"
    by (rule prod.exhaust)
  have r: "e = None" "k1 = k'" "res = requeue_after requeueErr"
    using assms(3) u by (cases e; simp add: agent_degrade_def)+
  obtain s where s: "with_error PhaseDegraded msg t = t\<lparr>tn_Status := s\<rparr>"
    using with_error_upd by blast
  have "k_get_tunnel K k' ns nm = Inr (with_error PhaseDegraded msg t)"
    unfolding s using status_update_stored [OF assms(1,2)] u r s by simp
  then show ?thesis
    using r(3) id by (auto simp: degraded_def)
qed

section \<open>The agent on any such daemon\<close>

context daemon_contract
begin

lemma poll_reflects:
  assumes "kube_client K services endpoints" and "k_get_tunnel K k ns nm = Inr t"
    and "good d" and "tunnels d (daemonTunnelName ns nm) = Some q"
    and "agent_poll K C t (daemonTunnelName ns nm) (k, d) = ((res, None), k', d')"
  shows "d' = d \<and> reflected K t q k'"
proof -
  have id: "om_Namespace (tn_Meta t) = ns" "om_Name (tn_Meta t) = nm"
    using kube_client.tunnel_named [OF assms(1,2)] by (simp_all add: tunnel_id_def)
  obtain st where st: "d_Status C d \<lparr>sr_Name = daemonTunnelName ns nm\<rparr> = (Inr \<lparr>sr_Tunnels = [st]\<rparr>, d)"
      "st_Name st = daemonTunnelName ns nm" "st_Spec st = Some q"
    using status [OF assms(3) _ assms(4)] by auto
  obtain e k1 where u: "k_update_tunnel_status K k (reflect_status st t) = (e, k1)"
    by (rule prod.exhaust)
  have r: "e = None" "k1 = k'" "d' = d"
    using assms(5) u by (cases e; simp add: agent_poll_def st(1) Let_def)+
  obtain s where s: "reflect_status st t = t\<lparr>tn_Status := s\<rparr>"
    using reflect_status_upd by blast
  have "k_get_tunnel K k' ns nm = Inr (reflect_status st t)"
    unfolding s using status_update_stored [OF assms(1,2)] u r s by simp
  then show ?thesis
    using r(3) id st(2,3) by (auto simp: reflected_def)
qed

lemma push_syncs:
  assumes "kube_client K services endpoints" and "k_get_tunnel K k ns nm = Inr t" and "good d"
    and "agent_push K C D milli t (k, d) = ((res, None), k', d')"
  shows "good d' \<and> (\<forall>n. n \<noteq> daemonTunnelName ns nm \<longrightarrow> tunnels d' n = tunnels d n) \<and>
    (degraded K t res k' \<or>
     (\<exists>p q. agent_ToProto D milli t = Inr p \<and> tunnels d' (daemonTunnelName ns nm) = Some q \<and>
        (q = p \<or> same q p) \<and> reflected K t q k'))"
proof (cases "agent_ToProto D milli t")
  case (Inl e)
  obtain r k1 where deg: "agent_degrade K t e k = (r, k1)"
    by (rule prod.exhaust)
  then have "r = (res, None)" "k1 = k'" "d' = d"
    using assms(4) Inl by (simp_all add: agent_push_def)
  then show ?thesis
    using agent_degrade_degraded [OF assms(1,2), of e res k'] deg assms(3) by simp
next
  case (Inr p)
  obtain spec where spec: "FromProto p = Inr spec" and nm: "ts_Name p = daemonTunnelName ns nm"
    using agent_ToProto_valid [OF Inr] kube_client.tunnel_named [OF assms(1,2)] by (auto simp: tunnel_id_def)
  obtain e d1 where u: "d_Update C d (push_request p) = (e, d1)"
    by (rule prod.exhaust)
  note fr = update_frame [OF assms(3) spec u, unfolded nm]
  show ?thesis
  proof (cases e)
    case (Some m)
    obtain r k1 where deg: "agent_degrade K t (''Update: '' @ m) k = (r, k1)"
      by (rule prod.exhaust)
    then have "r = (res, None)" "k1 = k'" "d' = d1"
      using assms(4) Inr u Some by (simp_all add: agent_push_def push_request_def)
    then show ?thesis
      using agent_degrade_degraded [OF assms(1,2), of "''Update: '' @ m" res k'] deg fr by simp
  next
    case None
    obtain q where q: "tunnels d1 (daemonTunnelName ns nm) = Some q" "q = p \<or> same q p"
      using update_done [OF assms(3) spec u [unfolded None], unfolded nm] by blast
    have "agent_poll K C t (daemonTunnelName ns nm) (k, d1) = ((res, None), k', d')"
      using assms(4) Inr u None nm by (simp add: agent_push_def push_request_def)
    from poll_reflects [OF assms(1,2) conjunct1 [OF fr] q(1) this] show ?thesis
      using q fr Inr by auto
  qed
qed

lemma reconcile_syncs:
  assumes kc: "kube_client K services endpoints" and t: "k_get_tunnel K k ns nm = Inr t"
    and node: "kts_Node (tn_Status t) = NodeName" and ok: "good d"
    and run: "agent_Reconcile K C D milli NodeName ns nm (k, d) = ((res, None), k', d')"
  shows "good d' \<and> (\<forall>n. n \<noteq> daemonTunnelName ns nm \<longrightarrow> tunnels d' n = tunnels d n) \<and>
    (degraded K t res k' \<or>
     (\<exists>p q. agent_ToProto D milli t = Inr p \<and> tunnels d' (daemonTunnelName ns nm) = Some q \<and>
        (q = p \<or> same q p) \<and> reflected K t q k'))"
proof (cases "resolveKey K k t")
  case (Inl e)
  obtain r k1 where deg: "agent_degrade K t e k = (r, k1)"
    by (rule prod.exhaust)
  then have "r = (res, None)" "k1 = k'" "d' = d"
    using run t node Inl by (simp_all add: agent_Reconcile_def)
  then show ?thesis
    using agent_degrade_degraded [OF kc t, of e res k'] deg ok by simp
next
  case (Inr kn)
  obtain keyName content where kn: "kn = (keyName, content)"
    by (rule prod.exhaust)
  show ?thesis
  proof (cases "keyName = []")
    case True
    then have "agent_push K C D milli t (k, d) = ((res, None), k', d')"
      using run t node Inr kn by (simp add: agent_Reconcile_def)
    then show ?thesis
      by (rule push_syncs [OF kc t ok])
  next
    case False
    obtain e d1 where a: "d_AddKey C d \<lparr>addkey_Name = keyName, addkey_Content = content\<rparr> = (e, d1)"
      by (rule prod.exhaust)
    note ad = add_key [OF ok a]
    note same = quiet_tunnels [OF conjunct2 [OF ad]]
    show ?thesis
    proof (cases e)
      case (Some m)
      let ?msg = "''AddKey '' @ quote keyName @ '': '' @ m"
      obtain r k1 where deg: "agent_degrade K t ?msg k = (r, k1)"
        by (rule prod.exhaust)
      then have "r = (res, None)" "k1 = k'" "d' = d1"
        using run t node Inr kn False a Some by (simp_all add: agent_Reconcile_def)
      then show ?thesis
        using agent_degrade_degraded [OF kc t, of ?msg res k'] deg ad same by simp
    next
      case None
      then have "agent_push K C D milli t (k, d1) = ((res, None), k', d')"
        using run t node Inr kn False a by (simp add: agent_Reconcile_def)
      from push_syncs [OF kc t conjunct1 [OF ad] this] show ?thesis
        using same by simp
    qed
  qed
qed

lemma push_steady:
  assumes "tunnel_id t = (ns, nm)" and "good d" and "agent_ToProto D milli t = Inr p"
    and "tunnels d (daemonTunnelName ns nm) = Some q" and "same q p" and "live d (daemonTunnelName ns nm)"
    and "agent_push K C D milli t (k, d) = (r, k', d')"
  shows "quiet d d'"
proof -
  obtain spec where spec: "FromProto p = Inr spec" and nm: "ts_Name p = daemonTunnelName ns nm"
    using agent_ToProto_valid [OF assms(3)] assms(1) by (auto simp: tunnel_id_def)
  obtain d1 where u: "d_Update C d (push_request p) = (None, d1)" and q: "quiet d d1"
    using update_same [OF assms(2) spec _ assms(5)] assms(4,6) nm by auto
  have ok: "good d1"
    using update_frame [OF assms(2) spec u] by simp
  have "tunnels d1 (daemonTunnelName ns nm) = Some q"
    using quiet_tunnels [OF q] assms(4) by simp
  then obtain st where st: "d_Status C d1 \<lparr>sr_Name = daemonTunnelName ns nm\<rparr> = (Inr \<lparr>sr_Tunnels = [st]\<rparr>, d1)"
    using status [OF ok daemonTunnelName_nonempty] by blast
  obtain e k1 where us: "k_update_tunnel_status K k (reflect_status st t) = (e, k1)"
    by (rule prod.exhaust)
  have "agent_poll K C t (daemonTunnelName ns nm) (k, d1) = (r, k', d')"
    using assms(3,7) u nm by (simp add: agent_push_def push_request_def)
  then have "d' = d1"
    by (cases e) (simp_all add: agent_poll_def st Let_def us)
  with q show ?thesis by simp
qed

lemma reconcile_steady:
  assumes kc: "kube_client K services endpoints" and t: "k_get_tunnel K k ns nm = Inr t" and ok: "good d"
    and p: "agent_ToProto D milli t = Inr p" and q: "tunnels d (daemonTunnelName ns nm) = Some q" "same q p"
    and live: "live d (daemonTunnelName ns nm)"
    and run: "agent_Reconcile K C D milli NodeName ns nm (k, d) = (r, k', d')"
  shows "quiet d d'"
proof (cases "kts_Node (tn_Status t) = NodeName")
  case False
  then have "d' = d"
    using run t by (simp add: agent_Reconcile_def)
  then show ?thesis
    using quiet_refl by simp
next
  case node: True
  note id = kube_client.tunnel_named [OF kc t]
  show ?thesis
  proof (cases "resolveKey K k t")
    case (Inl e)
    then have "d' = d"
      using run t node by (auto simp: agent_Reconcile_def split: prod.splits)
    then show ?thesis
      using quiet_refl by simp
  next
    case (Inr kn)
    obtain keyName content where kn: "kn = (keyName, content)"
      by (rule prod.exhaust)
    show ?thesis
    proof (cases "keyName = []")
      case True
      then have "agent_push K C D milli t (k, d) = (r, k', d')"
        using run t node Inr kn by (simp add: agent_Reconcile_def)
      then show ?thesis
        by (rule push_steady [OF id ok p q live])
    next
      case False
      obtain e d1 where a: "d_AddKey C d \<lparr>addkey_Name = keyName, addkey_Content = content\<rparr> = (e, d1)"
        by (rule prod.exhaust)
      note ad = add_key [OF ok a]
      note same = quiet_tunnels [OF conjunct2 [OF ad]]
      show ?thesis
      proof (cases e)
        case (Some m)
        then have "d' = d1"
          using run t node Inr kn False a by (auto simp: agent_Reconcile_def split: prod.splits)
        with ad show ?thesis by simp
      next
        case None
        then have push: "agent_push K C D milli t (k, d1) = (r, k', d')"
          using run t node Inr kn False a by (simp add: agent_Reconcile_def)
        have "tunnels d1 (daemonTunnelName ns nm) = Some q" "live d1 (daemonTunnelName ns nm)"
          using same q(1) live by simp_all
        from push_steady [OF id conjunct1 [OF ad] p this(1) q(2) this(2) push] show ?thesis
          using quiet_trans conjunct2 [OF ad] by blast
      qed
    qed
  qed
qed

lemma reconcile_gone:
  assumes "k_get_tunnel K k ns nm = Inl (NotExist e)" and "good d"
  shows "\<exists>d'. agent_Reconcile K C D milli NodeName ns nm (k, d) = ((no_result, None), k, d') \<and>
    good d' \<and> tunnels d' = (tunnels d)(daemonTunnelName ns nm := None)"
  using delete [OF assms(2) surjective_pairing, of "daemonTunnelName ns nm"] assms(1)
  by (simp add: agent_Reconcile_def)

lemma reconcile_elsewhere:
  assumes "k_get_tunnel K k ns nm = Inr t" and "kts_Node (tn_Status t) \<noteq> NodeName"
  shows "agent_Reconcile K C D milli NodeName ns nm (k, d) = ((no_result, None), k, d)"
  using assms by (simp add: agent_Reconcile_def)

end

section \<open>The server\<close>

definition server_daemon :: "'w os \<Rightarrow> duration_ops \<Rightarrow> yaml_ops \<Rightarrow> ('g, 'i) graph_ops \<Rightarrow>
    (TunnelSpec \<Rightarrow> TunnelSpec \<Rightarrow> bool) \<Rightarrow> stop_env \<Rightarrow> visits \<Rightarrow> (rpc_error \<Rightarrow> err) \<Rightarrow> err \<Rightarrow>
    ('w, 'g, 'i) Supervisor option daemon" where
  "server_daemon S D Y G peq env vi msg gone =
    \<lparr>d_AddKey = (\<lambda>d req. case d of None \<Rightarrow> (Some gone, None)
       | Some sv \<Rightarrow> served msg gone (Ret (api_AddKey S req sv))),
     d_Update = (\<lambda>d req. case d of None \<Rightarrow> (Some gone, None)
       | Some sv \<Rightarrow> served msg gone (serve_Update S D Y G peq env vi req sv)),
     d_Status = (\<lambda>d req. case d of None \<Rightarrow> (Inl gone, None)
       | Some sv \<Rightarrow> (case api_Status (vi_tunnels vi (sv_processes sv)) sv req of
            Inl e \<Rightarrow> (Inl (msg e), Some sv) | Inr r \<Rightarrow> (Inr r, Some sv))),
     d_Delete = (\<lambda>d req. case d of None \<Rightarrow> (Some gone, None)
       | Some sv \<Rightarrow> served msg gone (Ret (api_Delete D env req sv)))\<rparr>"

definition server_good :: "'w os \<Rightarrow> duration_ops \<Rightarrow> ('w, 'g, 'i) Supervisor option \<Rightarrow> bool" where
  "server_good S D d \<longleftrightarrow> (case d of None \<Rightarrow> False | Some sv \<Rightarrow> sv_good S D sv)"

definition server_tunnels :: "('w, 'g, 'i) Supervisor option \<Rightarrow> string \<rightharpoonup> TunnelSpec" where
  "server_tunnels d = (case d of None \<Rightarrow> Map.empty | Some sv \<Rightarrow> sv_tunnels sv)"

definition server_live :: "('w, 'g, 'i) Supervisor option \<Rightarrow> string \<Rightarrow> bool" where
  "server_live d nm \<longleftrightarrow> (case d of None \<Rightarrow> False | Some sv \<Rightarrow> sv_live sv nm)"

text \<open>Only files change.\<close>

definition server_quiet :: "('w, 'g, 'i) Supervisor option \<Rightarrow> ('w, 'g, 'i) Supervisor option \<Rightarrow> bool" where
  "server_quiet d d' \<longleftrightarrow> d' = d \<or> (\<exists>sv w. d = Some sv \<and> d' = Some (sv\<lparr>sv_world := w\<rparr>))"

section \<open>The server meets the contract\<close>

lemma server_meets_contract:
  assumes lib: "graph_library G edges" and vi: "visits_ok vi"
  shows "daemon_contract (server_daemon S D Y G peq env vi msg gone) server_tunnels (server_good S D) peq
    server_live server_quiet"
proof (unfold_locales, goal_cases)
  case (1 d req e d')
  then obtain sv where sv: "d = Some sv" "sv_good S D sv"
    by (auto simp: server_good_def split: option.splits)
  obtain w where "snd (api_AddKey S req sv) = sv\<lparr>sv_world := w\<rparr>"
    using AddKey_world [of S req sv] by blast
  then have "d' = Some (sv\<lparr>sv_world := w\<rparr>)"
    using 1(2) sv(1) by (auto simp: server_daemon_def served_def split: prod.splits)
  then show ?case
    using sv sv_good_world by (auto simp: server_good_def server_quiet_def)
next
  case (2 d p spec e d')
  then obtain sv where sv: "d = Some sv" "sv_good S D sv"
    by (auto simp: server_good_def split: option.splits)
  from Update_push [OF lib vi sv(2) 2(2), of Y peq env] obtain r sv' where
    "serve_Update S D Y G peq env vi (push_request p) sv = Ret (internal r, sv')" "sv_good S D sv'"
    "\<forall>n. n \<noteq> ts_Name p \<longrightarrow> sv_tunnels sv' n = sv_tunnels sv n"
    by blast
  then show ?case
    using 2(3) sv(1) by (auto simp: server_daemon_def served_def server_good_def server_tunnels_def)
next
  case (3 d p spec d')
  then obtain sv where sv: "d = Some sv" "sv_good S D sv"
    by (auto simp: server_good_def split: option.splits)
  from Update_push [OF lib vi sv(2) 3(2), of Y peq env] obtain r sv' where
    "serve_Update S D Y G peq env vi (push_request p) sv = Ret (internal r, sv')"
    "r = None \<longrightarrow> (\<exists>q. sv_tunnels sv' (ts_Name p) = Some q \<and> (q = p \<or> peq q p))"
    by blast
  then show ?case
    using 3(3) sv(1)
    by (cases r) (auto simp: server_daemon_def served_def server_tunnels_def answer_def internal_def)
next
  case (4 d p spec q)
  then obtain sv where sv: "d = Some sv" "sv_good S D sv"
    by (auto simp: server_good_def split: option.splits)
  from Update_push [OF lib vi sv(2) 4(2), of Y peq env] obtain r sv' where
    "serve_Update S D Y G peq env vi (push_request p) sv = Ret (internal r, sv')"
    "\<forall>q. sv_tunnels sv (ts_Name p) = Some q \<longrightarrow> peq q p \<longrightarrow> sv_live sv (ts_Name p) \<longrightarrow> r = None \<and> sv' = sv"
    by blast
  then have "serve_Update S D Y G peq env vi (push_request p) sv = Ret (internal None, sv)"
    using 4(3-5) sv(1) by (simp add: server_tunnels_def server_live_def)
  then show ?case
    using sv(1) by (simp add: server_daemon_def served_def answer_def internal_def server_quiet_def)
next
  case (5 d nm q)
  then obtain sv where sv: "d = Some sv" "sv_good S D sv"
    by (auto simp: server_good_def split: option.splits)
  from Status_registered [OF vi sv(2) 5(2), of q] 5(3) sv(1) show ?case
    by (auto simp: server_daemon_def server_tunnels_def)
next
  case (6 d nm e d')
  then obtain sv where sv: "d = Some sv" "sv_good S D sv"
    by (auto simp: server_good_def split: option.splits)
  obtain x sv' where rem: "RemoveTunnel D env nm sv = (x, sv')"
    by (rule prod.exhaust)
  have "d' = Some sv'"
    using 6(2) sv(1) rem by (auto simp: server_daemon_def served_def api_Delete_def)
  then show ?case
    using good_Remove [OF sv(2) rem] sv(1) by (simp add: server_good_def server_tunnels_def)
next
  case (7 d d')
  then show ?case
    by (auto simp: server_quiet_def server_tunnels_def server_live_def world_simps fun_eq_iff)
next
  case (8 d)
  then show ?case by (simp add: server_quiet_def)
next
  case (9 d1 d2 d3)
  then show ?case
    by (auto simp: server_quiet_def)
qed

interpretation tunneld: daemon_contract "server_daemon S D Y adj_ops peq env sorted_visits msg gone" server_tunnels
    "server_good S D" peq server_live server_quiet
  for S D Y peq env msg gone
  by (rule server_meets_contract [OF adj_library sorted_visits_ok])

section \<open>The agent and the daemon\<close>

lemma reconcile_effect:
  assumes "graph_library G edges" and "visits_ok vi" and "kube_client K services endpoints" and "sv_good S D sv"
    and "agent_Reconcile K (server_daemon S D Y G peq env vi msg gone) D milli NodeName ns nm (k, Some sv) =
      ((res, None), k', d')"
  shows "\<exists>sv'. d' = Some sv' \<and> sv_good S D sv' \<and>
    (\<forall>n. n \<noteq> daemonTunnelName ns nm \<longrightarrow> sv_tunnels sv' n = sv_tunnels sv n) \<and>
    (case k_get_tunnel K k ns nm of
       Inl (NotExist e) \<Rightarrow> sv_tunnels sv' (daemonTunnelName ns nm) = None \<and> k' = k
     | Inl (FileErr e) \<Rightarrow> False
     | Inr t \<Rightarrow>
        if kts_Node (tn_Status t) \<noteq> NodeName then sv' = sv \<and> k' = k
        else degraded K t res k' \<or>
          (\<exists>p q. agent_ToProto D milli t = Inr p \<and> sv_tunnels sv' (daemonTunnelName ns nm) = Some q \<and>
             (q = p \<or> peq q p) \<and> reflected K t q k'))"
proof -
  note C = server_meets_contract [OF assms(1,2), of S D Y peq env msg gone]
  have good: "server_good S D (Some sv)"
    using assms(4) by (simp add: server_good_def)
  show ?thesis
  proof (cases "k_get_tunnel K k ns nm")
    case (Inl fe)
    show ?thesis
    proof (cases fe)
      case (NotExist e)
      with daemon_contract.reconcile_gone [OF C Inl [unfolded NotExist] good, of D milli NodeName] assms(5)
      show ?thesis
        by (cases d') (auto simp: Inl server_good_def server_tunnels_def)
    next
      case (FileErr e)
      with assms(5) Inl show ?thesis by (simp add: agent_Reconcile_def)
    qed
  next
    case (Inr t)
    show ?thesis
    proof (cases "kts_Node (tn_Status t) = NodeName")
      case True
      from daemon_contract.reconcile_syncs [OF C assms(3) Inr True good assms(5)] show ?thesis
        by (cases d') (auto simp: Inr True server_good_def server_tunnels_def)
    next
      case False
      from daemon_contract.reconcile_elsewhere [OF C Inr False, of D milli "Some sv"] assms(5)
      have "d' = Some sv" "k' = k"
        by simp_all
      with False assms(4) Inr show ?thesis by auto
    qed
  qed
qed


text \<open>
  C10: A reconciliation leaves a tunnel that is fine alone. When the daemon already has a spec
  equal to the translated one and its child runs, the agent changes nothing in the daemon
  but the key file: no tunnel, process or monitor is touched, whatever else fails.
\<close>

theorem agent_leaves_live_tunnel:
  assumes "graph_library G edges" and "visits_ok vi" and "kube_client K services endpoints" and "sv_good S D sv"
    and "k_get_tunnel K k ns nm = Inr t" and "agent_ToProto D milli t = Inr p"
    and "sv_tunnels sv (daemonTunnelName ns nm) = Some q" and "peq q p" and "sv_live sv (daemonTunnelName ns nm)"
  shows "\<exists>r k' w. agent_Reconcile K (server_daemon S D Y G peq env vi msg gone) D milli NodeName ns nm (k, Some sv) =
    (r, k', Some (sv\<lparr>sv_world := w\<rparr>))"
proof -
  note C = server_meets_contract [OF assms(1,2), of S D Y peq env msg gone]
  have good: "server_good S D (Some sv)"
    using assms(4) by (simp add: server_good_def)
  obtain r k' d' where run: "agent_Reconcile K (server_daemon S D Y G peq env vi msg gone) D milli NodeName ns nm
      (k, Some sv) = (r, k', d')"
    by (rule prod_cases3)
  have "server_quiet (Some sv) d'"
    by (rule daemon_contract.reconcile_steady [OF C assms(3,5) good assms(6) _ assms(8) _ run])
      (use assms(7,9) in \<open>simp_all add: server_tunnels_def server_live_def\<close>)
  then have "d' = Some (sv\<lparr>sv_world := sv_world sv\<rparr>) \<or> (\<exists>w. d' = Some (sv\<lparr>sv_world := w\<rparr>))"
    by (auto simp: server_quiet_def)
  with run show ?thesis by blast
qed

text \<open>The agent fails only when the API server does.\<close>

lemma agent_no_error:
  assumes t: "k_get_tunnel K k ns nm = Inr t"
    and upd: "\<And>s. \<exists>k1. k_update_tunnel_status K k (t\<lparr>tn_Status := s\<rparr>) = (None, k1)"
  shows "\<exists>res k' d'. agent_Reconcile K C D milli NodeName ns nm (k, d) = ((res, None), k', d')"
proof -
  have deg: "\<exists>res k1. agent_degrade K t msg k = ((res, None), k1)" for msg
  proof -
    obtain s where s: "with_error PhaseDegraded msg t = t\<lparr>tn_Status := s\<rparr>"
      using with_error_upd by blast
    obtain k1 where "k_update_tunnel_status K k (with_error PhaseDegraded msg t) = (None, k1)"
      using upd [of s] s by auto
    then show ?thesis by (simp add: agent_degrade_def)
  qed
  have poll: "\<exists>res k1 d1. agent_poll K C t x (k, d) = ((res, None), k1, d1)" for x d
  proof -
    obtain resp d1 where r: "d_Status C d \<lparr>sr_Name = x\<rparr> = (resp, d1)"
      by (rule prod.exhaust)
    obtain k1 where p: "k_update_tunnel_status K k (set_pending t) = (None, k1)"
      using upd [of "(tn_Status t)\<lparr>kts_Phase := PhasePending\<rparr>"] by (auto simp: set_pending_def)
    show ?thesis
    proof (cases "case resp of Inl e \<Rightarrow> [] | Inr r \<Rightarrow> sr_Tunnels r")
      case Nil
      then show ?thesis by (simp add: agent_poll_def r p)
    next
      case (Cons st sts)
      obtain s where s: "reflect_status st t = t\<lparr>tn_Status := s\<rparr>"
        using reflect_status_upd by blast
      obtain k2 where "k_update_tunnel_status K k (reflect_status st t) = (None, k2)"
        using upd [of s] s by auto
      with Cons show ?thesis by (simp add: agent_poll_def r Let_def)
    qed
  qed
  have push: "\<exists>res k1 d1. agent_push K C D milli t (k, d) = ((res, None), k1, d1)" for d
  proof (cases "agent_ToProto D milli t")
    case (Inl e)
    then show ?thesis
      using deg [of e] by (auto simp: agent_push_def)
  next
    case (Inr p)
    obtain e d1 where u: "d_Update C d \<lparr>update_Spec = Some p, update_InlineKeys = Map.empty, update_Persistent = False\<rparr>
        = (e, d1)"
      by (rule prod.exhaust)
    show ?thesis
    proof (cases e)
      case None
      then show ?thesis using Inr u poll [of "ts_Name p" d1] by (simp add: agent_push_def)
    next
      case (Some m)
      then show ?thesis using Inr u deg [of "''Update: '' @ m"] by (auto simp: agent_push_def)
    qed
  qed
  show ?thesis
  proof (cases "kts_Node (tn_Status t) = NodeName")
    case False
    then show ?thesis using t by (simp add: agent_Reconcile_def)
  next
    case node: True
    show ?thesis
    proof (cases "resolveKey K k t")
      case (Inl e)
      then show ?thesis using t node deg [of e] by (auto simp: agent_Reconcile_def)
    next
      case (Inr kn)
      obtain kname c where kn: "kn = (kname, c)"
        by (rule prod.exhaust)
      obtain e d1 where a: "d_AddKey C d \<lparr>addkey_Name = kname, addkey_Content = c\<rparr> = (e, d1)"
        by (rule prod.exhaust)
      show ?thesis
      proof (cases e)
        case None
        then show ?thesis using t node Inr kn a push [of d] push [of d1] by (simp add: agent_Reconcile_def)
      next
        case (Some m)
        then show ?thesis
          using t node Inr kn a push [of d] deg [of "''AddKey '' @ quote kname @ '': '' @ m"]
          by (auto simp: agent_Reconcile_def)
      qed
    qed
  qed
qed

definition demo_daemon :: "(mem, adj, nat) Supervisor" where
  "demo_daemon = demo_sv\<lparr>sv_ctx := Some False\<rparr>"

lemma demo_daemon_good: "sv_good mem_os demo_durations demo_daemon"
proof -
  have "sv_ok mem_os demo_durations demo_sv"
    by (rule sv_reachable_ok [OF adj_library demo_sv_reachable])
  from sv_ok_frame [OF this, of demo_daemon] have "sv_ok mem_os demo_durations demo_daemon"
    by (simp add: demo_daemon_def)
  moreover have "finite (dom (pl_specs (sv_planner demo_daemon)))"
    using enumerates_finite [OF demo_enumerates] by (simp add: demo_daemon_def demo_sv_def NewSupervisor_def)
  ultimately show ?thesis
    by (simp add: sv_good_def demo_daemon_def demo_sv_def NewSupervisor_def)
qed

definition demo_keyed_cluster :: cluster where
  "demo_keyed_cluster = demo_secrets\<lparr>cl_tunnels := [(''data'', ''pg'') \<mapsto> demo_keyed]\<rparr>"

lemma demo_keyed_get: "k_get_tunnel mem_kube demo_keyed_cluster ''data'' ''pg'' = Inr demo_keyed"
  by (simp add: mem_kube_def got_def demo_keyed_cluster_def named_tunnel_def demo_keyed_def demo_tunnel_def
      new_meta_def)

lemma demo_keyed_update:
  "\<exists>k1. k_update_tunnel_status mem_kube demo_keyed_cluster (demo_keyed\<lparr>tn_Status := s\<rparr>) = (None, k1)"
  by (simp add: mem_kube_simps demo_keyed_cluster_def tunnel_id_def demo_keyed_def demo_tunnel_def new_meta_def)

abbreviation demo_server :: "(mem, adj, nat) Supervisor option daemon" where
  "demo_server \<equiv> server_daemon mem_os demo_durations demo_yaml adj_ops (=)
     demo_stop sorted_visits (\<lambda>e. ''rpc'') ''gone''"


text \<open>A daemon on which the tunnel has just been started.\<close>

lemma demo_pushed:
  obtains p spec where "agent_ToProto demo_durations (\<lambda>x. 0) demo_keyed = Inr p" "FromProto p = Inr spec"
    "ts_Name p = ''data--pg''"
    "\<exists>w argv ms v. start_ok mem_os False [] w (NewProcess mem_os spec ''/keys'') argv ms v"
proof -
  obtain p where p: "agent_ToProto demo_durations (\<lambda>x. 0) demo_keyed = Inr p"
    by (simp add: agent_ToProto_def demo_keyed_def new_spec_def Let_def)
  have ssh: "ts_Type p = Some (TunnelSpec_Ssh \<lparr>ssh_User = ''u'', ssh_Host = ''h'', ssh_Port = 22, ssh_IdentityKeyFile = [],
      ssh_LocalForwards = [], ssh_Options = Map.empty, ssh_IdentityKeyRef = ''data--id''\<rparr>)"
    using p by (auto simp: agent_ToProto_def demo_keyed_def new_spec_def Let_def agent_ssh_def key_ref_def
        daemonKeyName_def demo_tunnel_def new_meta_def)
  have nm: "ts_Name p = ''data--pg''"
    using p by (auto simp: agent_ToProto_def demo_keyed_def new_spec_def Let_def daemonTunnelName_def
        demo_tunnel_def new_meta_def)
  have spec: "FromProto p = Inr (SSH_Spec (SSHSpecS p))"
    using ssh by (simp add: FromProto_def)
  have same: "p\<lparr>ts_Type := Some (TunnelSpec_Ssh \<lparr>ssh_User = ''u'', ssh_Host = ''h'', ssh_Port = 22,
      ssh_IdentityKeyFile = [], ssh_LocalForwards = [], ssh_Options = Map.empty, ssh_IdentityKeyRef = ''data--id''\<rparr>)\<rparr> = p"
    unfolding ssh [symmetric] by simp
  have "\<exists>argv ms v. start_ok mem_os False [] (mem0\<lparr>mem_files := [(Join2 ''/keys'' ''data--id'', [1])]\<rparr>)
      (NewProcess mem_os (SSH_Spec (SSHSpecS p)) ''/keys'') argv ms v"
    unfolding start_ok_def
    by (simp add: NewProcess_def SSHSpec_ToProto_def ResolvePortsInProto_def Let_def mem0_def ssh spec
        SSHSpec_BuildCommand_def same identity_path_def)
  with p spec nm show thesis using that by blast
qed

lemma demo_live_daemon:
  obtains sv :: "(mem, adj, nat) Supervisor" and p where "sv_good mem_os demo_durations sv"
    "agent_ToProto demo_durations (\<lambda>x. 0) demo_keyed = Inr p" "sv_tunnels sv ''data--pg'' = Some p"
    "sv_live sv ''data--pg''" "sv_processes sv = [''data--pg'' \<mapsto> 0]"
proof -
  obtain p spec w argv ms v where p: "agent_ToProto demo_durations (\<lambda>x. 0) demo_keyed = Inr p"
      and spec: "FromProto p = Inr spec" "ts_Name p = ''data--pg''"
      and ok: "start_ok mem_os False [] w (NewProcess mem_os spec ''/keys'') argv ms v"
    using demo_pushed by metis
  let ?new = "NewProcess mem_os spec ''/keys''"
  let ?up = "started ?new False argv ms"
  have idle: "idle ?new"
    by (simp add: NewProcess_def)
  note run = Start_ok [OF idle ok]
  have up: "pr_spec ?up = spec" "pr_status ?up = StatusStarting" "IsProcessAlive ?up"
    using Start_spec [OF run] by (simp_all add: started_def IsProcessAlive_def)
  have reach: "proc_reachable mem_os demo_durations ?up"
    by (rule proc_reachable.start [OF proc_reachable.new run])
  define sv where "sv = demo_daemon\<lparr>sv_planner := NewPlanner adj_ops [''data--pg'' \<mapsto> spec],
    sv_processes := [''data--pg'' \<mapsto> 0], sv_heap := [?up], sv_monitors := []\<rparr>"
  have f: "sv_processes sv = [''data--pg'' \<mapsto> 0]" "sv_heap sv = [?up]" "proc sv 0 = ?up" "sv_monitors sv = []"
    "pl_specs (sv_planner sv) = [''data--pg'' \<mapsto> spec]" "sv_ctx sv = Some False"
    by (simp_all add: sv_def proc_def NewPlanner_def demo_daemon_def)
  have nm: "spec_Name spec = ''data--pg''"
    using FromProto_Name [OF spec(1)] spec(2) by simp
  have "sv_ok mem_os demo_durations sv"
    using nm reach up(1)
    by (auto simp: sv_ok_def sv_registry_def sv_disjoint_def named_def f split: if_splits)
  then have "sv_good mem_os demo_durations sv"
    using wf_spec_FromProto [OF spec(1)] up(1) by (simp add: sv_good_def f)
  moreover have "sv_tunnels sv ''data--pg'' = Some p"
    using FromProto_ToProto [OF spec(1)] up(1) by (simp add: sv_tunnels_def f)
  moreover have "sv_live sv ''data--pg''"
    using up by (simp add: sv_live_def f)
  ultimately show thesis
    using that p f(1) by blast
qed

lemma agent_leaves_live_tunnel_witness:
  "\<exists>sv r k' w. sv_processes sv = [''data--pg'' \<mapsto> 0] \<and>
    agent_Reconcile mem_kube demo_server demo_durations (\<lambda>x. 0) [] ''data'' ''pg'' (demo_keyed_cluster, Some sv) =
      (r, k', Some (sv\<lparr>sv_world := w\<rparr>))"
proof -
  obtain sv :: "(mem, adj, nat) Supervisor" and p where sv: "sv_good mem_os demo_durations sv"
    "agent_ToProto demo_durations (\<lambda>x. 0) demo_keyed = Inr p" "sv_tunnels sv ''data--pg'' = Some p"
    "sv_live sv ''data--pg''" "sv_processes sv = [''data--pg'' \<mapsto> 0]"
    by (rule demo_live_daemon)
  have nm: "daemonTunnelName ''data'' ''pg'' = ''data--pg''"
    by (simp add: daemonTunnelName_def)
  from agent_leaves_live_tunnel [where peq = "(=)", OF adj_library sorted_visits_ok mem_kube.kube_client_axioms sv(1)
      demo_keyed_get sv(2), unfolded nm, OF sv(3) refl sv(4)] sv(5) show ?thesis
    by blast
qed

end
