(* ===== verification/Cluster_Flow.thy ===== *)
theory Cluster_Flow
  imports Agent_Server
begin

text \<open>
  From the resource to the child: the controller of \<open>k8s/controllers\<close> places a tunnel, the agents
  of \<open>k8s/agent\<close> bring it to the daemon of its node.
\<close>

text \<open>
  C9: A new Tunnel resource ends up in one daemon. When the controller has reconciled a valid
  resource that is on no good node, and some ready node matches its selector, then the resource
  is on such a node, and whichever agent reconciles it next without an error: the agent of that
  node marks it degraded or leaves its daemon with exactly the translated spec, and touches no
  other tunnel there; the agents of all other nodes change nothing, neither their daemon nor
  the cluster.
\<close>

theorem new_tunnel_reaches_one_daemon:
  assumes "graph_library G edges" and "visits_ok vi" and "kube_client K services endpoints"
    and "k_get_tunnel K k ns nm = Inr t" and "valid_kind t" and "\<not> placed K k es t"
    and "k_list_nodes K k = Inr nodes" and "\<forall>n \<in> set nodes. k_get_node K k (nd_Name n) = Inr n \<and> nd_Name n \<noteq> []"
    and "enumerates es (kt_NodeSelector (tn_Spec t))"
    and "\<exists>n \<in> set nodes. selects (kt_NodeSelector (tn_Spec t)) (nd_Labels n) \<and> isNodeReady n"
    and "tc_Reconcile K fmt now es ns nm k = Ret ((r, None), k')"
  shows "\<exists>t'. k_get_tunnel K k' ns nm = Inr t' \<and> tn_Spec t' = tn_Spec t \<and>
    (\<exists>n \<in> set nodes. nd_Name n = kts_Node (tn_Status t') \<and> selects (kt_NodeSelector (tn_Spec t)) (nd_Labels n) \<and>
       isNodeReady n) \<and>
    (\<forall>NodeName sv res k2 d'. sv_good S D sv \<longrightarrow>
       agent_Reconcile K (server_daemon S D Y G peq env vi msg gone) D milli NodeName ns nm (k', Some sv) =
         ((res, None), k2, d') \<longrightarrow>
       (if NodeName = kts_Node (tn_Status t')
        then \<exists>sv'. d' = Some sv' \<and> sv_good S D sv' \<and>
          (\<forall>n. n \<noteq> daemonTunnelName ns nm \<longrightarrow> sv_tunnels sv' n = sv_tunnels sv n) \<and>
          (degraded K t' res k2 \<or>
           (\<exists>p q. agent_ToProto D milli t' = Inr p \<and> sv_tunnels sv' (daemonTunnelName ns nm) = Some q \<and>
              (q = p \<or> peq q p) \<and> reflected K t' q k2))
        else d' = Some sv \<and> k2 = k'))"
proof -
  have nodes: "\<forall>n \<in> set nodes. k_get_node K k (nd_Name n) = Inr n" "\<forall>n \<in> set nodes. nd_Name n \<noteq> []"
    using assms(8) by blast+
  from schedules_least [OF assms(3-7) nodes assms(9,11)] obtain t' where
    t': "k_get_tunnel K k' ns nm = Inr t'" "tn_Spec t' = tn_Spec t"
      "\<exists>n \<in> set nodes. nd_Name n = kts_Node (tn_Status t') \<and> selects (kt_NodeSelector (tn_Spec t)) (nd_Labels n) \<and>
         isNodeReady n"
    using assms(10) by auto
  note effect = reconcile_effect [OF assms(1-3), where ns = ns and nm = nm and k = k', unfolded t'(1) sum.case]
  show ?thesis
  proof (intro exI [of _ t'] conjI t' allI impI, goal_cases)
    case (1 NodeName sv res k2 d')
    from effect [OF 1] show ?case
      by (cases "NodeName = kts_Node (tn_Status t')") auto
  qed
qed

lemma mem_status_accepted:
  assumes "k_get_tunnel mem_kube k ns nm = Inr t"
  shows "\<exists>k1. k_update_tunnel_status mem_kube k (t\<lparr>tn_Status := s\<rparr>) = (None, k1)"
proof -
  have "cl_tunnels k (ns, nm) \<noteq> None"
    using assms by (auto simp: mem_kube_def got_def split: option.splits)
  moreover have "tunnel_id (t\<lparr>tn_Status := s\<rparr>) = (ns, nm)"
    using mem_kube.tunnel_named [OF assms] by (simp add: tunnel_id_def)
  ultimately show ?thesis
    by (auto simp: mem_kube_simps)
qed

lemma new_tunnel_reaches_one_daemon_witness:
  "\<exists>r k' t'. tc_Reconcile mem_kube (\<lambda>s. []) 0 [(''zone'', ''a'')] ''data'' ''pg'' demo_unplaced = Ret ((r, None), k') \<and>
    k_get_tunnel mem_kube k' ''data'' ''pg'' = Inr t' \<and>
    (\<exists>res k2 sv'. agent_Reconcile mem_kube demo_server demo_durations (\<lambda>x. 0) (kts_Node (tn_Status t')) ''data'' ''pg''
       (k', Some demo_daemon) = ((res, None), k2, Some sv') \<and> sv_good mem_os demo_durations sv')"
proof -
  obtain r k' where run: "tc_Reconcile mem_kube (\<lambda>s. []) 0 [(''zone'', ''a'')] ''data'' ''pg'' demo_unplaced =
      Ret ((r, None), k')"
    using demo_unplaced_run by blast
  have nodes: "\<forall>n \<in> set demo_nodes. k_get_node mem_kube demo_unplaced (nd_Name n) = Inr n \<and> nd_Name n \<noteq> []"
    using demo_unplaced_facts(5,6) by blast
  have some: "\<exists>n \<in> set demo_nodes. selects (kt_NodeSelector (tn_Spec demo_tunnel)) (nd_Labels n) \<and> isNodeReady n"
    using demo_node_good by simp
  from new_tunnel_reaches_one_daemon [where peq = "(=)", OF adj_library sorted_visits_ok mem_kube.kube_client_axioms
      demo_unplaced_facts(1-4) nodes demo_unplaced_facts(7) some run, of mem_os demo_durations demo_yaml
      demo_stop "\<lambda>e. ''rpc''" "''gone''" "\<lambda>x. 0"]
  obtain t' where t': "k_get_tunnel mem_kube k' ''data'' ''pg'' = Inr t'"
    and ag: "\<And>sv :: (mem, adj, nat) Supervisor. \<And>res k2 d'. sv_good mem_os demo_durations sv \<Longrightarrow>
      agent_Reconcile mem_kube demo_server demo_durations (\<lambda>x. 0) (kts_Node (tn_Status t')) ''data'' ''pg''
        (k', Some sv) = ((res, None), k2, d') \<Longrightarrow> \<exists>sv'. d' = Some sv' \<and> sv_good mem_os demo_durations sv'"
    by fastforce
  obtain res k2 d' where "agent_Reconcile mem_kube demo_server demo_durations (\<lambda>x. 0) (kts_Node (tn_Status t'))
      ''data'' ''pg'' (k', Some demo_daemon) = ((res, None), k2, d')"
    using agent_no_error [OF t' mem_status_accepted [OF t'], of demo_server demo_durations "\<lambda>x. 0"
        "kts_Node (tn_Status t')" "Some demo_daemon"] by blast
  with ag [OF demo_daemon_good this] run t' show ?thesis
    by blast
qed

end
