(* ===== verification/Entry_Points.thy ===== *)
theory Entry_Points
  imports Kube_Agent
begin

text \<open>
  \<open>cmd/tunneld-agent/main.go\<close>, \<open>cmd/tunneld-controller/main.go\<close> and the registration of the
  reconcilers with the controller-runtime manager. The library and the values of the flags are
  inputs.
\<close>

section \<open>Registration\<close>

text \<open>What the watches deliver: an object of one of the program's kinds, or of another.\<close>

datatype kobject = Obj_Tunnel Tunnel | Obj_Group TunnelGroup | Obj_Key TunnelKey | Obj_Other

datatype kevent = CreateEvent kobject | DeleteEvent kobject | UpdateEvent kobject kobject | GenericEvent kobject

type_synonym kpredicate = "kevent \<Rightarrow> bool"

text \<open>\<open>predicate.NewPredicateFuncs\<close> and \<open>predicate.Or\<close> of controller-runtime.\<close>

record predicate_lib =
  NewPredicateFuncs :: "(kobject \<Rightarrow> bool) \<Rightarrow> kpredicate"
  predicate_Or :: "kpredicate \<Rightarrow> kpredicate \<Rightarrow> kpredicate"

definition mine_object :: "string \<Rightarrow> kobject \<Rightarrow> bool" where
  "mine_object NodeName ob = (case ob of Obj_Tunnel t \<Rightarrow> kts_Node (tn_Status t) = NodeName | _ \<Rightarrow> False)"

fun allEvents :: kpredicate where
  "allEvents (CreateEvent ob) = True"
| "allEvents (DeleteEvent ob) = True"
| "allEvents (UpdateEvent old new) = True"
| "allEvents (GenericEvent ob) = True"

datatype kind = Kind_Tunnel | Kind_TunnelGroup | Kind_TunnelKey

text \<open>A controller as it is handed to the manager: what it watches, and for whom it runs.\<close>

datatype reconciler = Agent_Of string | Tunnel_Controller | Group_Controller | Key_Controller

record registration =
  rg_For :: kind
  rg_Owns :: "kind list"
  rg_Filter :: "kpredicate option"
  rg_Runs :: reconciler

definition agent_SetupWithManager :: "predicate_lib \<Rightarrow> string \<Rightarrow> registration" where
  "agent_SetupWithManager P NodeName =
    \<lparr>rg_For = Kind_Tunnel, rg_Owns = [],
     rg_Filter = Some (predicate_Or P (NewPredicateFuncs P (mine_object NodeName)) allEvents),
     rg_Runs = Agent_Of NodeName\<rparr>"

definition tc_SetupWithManager :: registration where
  "tc_SetupWithManager = \<lparr>rg_For = Kind_Tunnel, rg_Owns = [], rg_Filter = None, rg_Runs = Tunnel_Controller\<rparr>"

definition tg_SetupWithManager :: registration where
  "tg_SetupWithManager =
    \<lparr>rg_For = Kind_TunnelGroup, rg_Owns = [Kind_Tunnel], rg_Filter = None, rg_Runs = Group_Controller\<rparr>"

definition tk_SetupWithManager :: registration where
  "tk_SetupWithManager = \<lparr>rg_For = Kind_TunnelKey, rg_Owns = [], rg_Filter = None, rg_Runs = Key_Controller\<rparr>"

section \<open>The two programs\<close>

text \<open>The values that were given for flags on the command line.\<close>

definition flag_value :: "(string \<rightharpoonup> string) \<Rightarrow> string \<Rightarrow> string \<Rightarrow> string" where
  "flag_value given name dflt = (case given name of None \<Rightarrow> dflt | Some v \<Rightarrow> v)"

text \<open>
  The manager, over an arbitrary type of managers: \<open>tunneldv1.AddToScheme\<close>, whose error panics;
  \<open>ctrl.NewManager\<close>, on the cluster that \<open>ctrl.GetConfigOrDie\<close> finds, with the two addresses and,
  for the controller, leader election and its id; \<open>Complete\<close> of a registration; the two checks
  (\<open>AddHealthzCheck\<close>, \<open>AddReadyzCheck\<close>); \<open>Start\<close>, which returns when the program is told to end.
  \<open>ml_Dial\<close> is \<open>grpc.DialContext\<close> with the target and the socket.
\<close>

record 'm manager_lib =
  ml_AddToScheme :: "err option"
  ml_New :: "string \<Rightarrow> string \<Rightarrow> (bool \<times> string) option \<Rightarrow> err + 'm"
  ml_Complete :: "registration \<Rightarrow> 'm \<Rightarrow> err + 'm"
  ml_Healthz :: "'m \<Rightarrow> err + 'm"
  ml_Readyz :: "'m \<Rightarrow> err + 'm"
  ml_Start :: "'m \<Rightarrow> err option"
  ml_Dial :: "string \<Rightarrow> string \<Rightarrow> err option"

text \<open>How a program ends: \<open>os.Exit(1)\<close> after a log line, a panic, or by returning from \<open>main\<close>.\<close>

datatype main_end = Exit1 string "err option" | Panicked err | Ended

definition agent_Dial :: "'m manager_lib \<Rightarrow> string \<Rightarrow> err option" where
  "agent_Dial L socketPath = ml_Dial L (''unix:'' @ socketPath) socketPath"

definition serve :: "'m manager_lib \<Rightarrow> 'm \<Rightarrow> main_end" where
  "serve L mgr =
    (case ml_Healthz L mgr of
       Inl e \<Rightarrow> Exit1 ''unable to register healthz'' (Some e)
     | Inr mgr1 \<Rightarrow>
        (case ml_Readyz L mgr1 of
           Inl e \<Rightarrow> Exit1 ''unable to register readyz'' (Some e)
         | Inr mgr2 \<Rightarrow>
            (case ml_Start L mgr2 of
               Some e \<Rightarrow> Exit1 ''manager exited with error'' (Some e)
             | None \<Rightarrow> Ended)))"

definition agent_node :: "(string \<rightharpoonup> string) \<Rightarrow> string \<Rightarrow> string" where
  "agent_node given NODE_NAME = flag_value given ''node-name'' NODE_NAME"

definition agent_main :: "'m manager_lib \<Rightarrow> predicate_lib \<Rightarrow> (string \<rightharpoonup> string) \<Rightarrow> string \<Rightarrow> main_end" where
  "agent_main L P given NODE_NAME =
    (let metricsAddr = flag_value given ''metrics-bind-address'' '':8080'';
         probeAddr = flag_value given ''health-probe-bind-address'' '':8081'';
         socketPath = flag_value given ''socket'' ''/run/tunneld/tunneld.sock'';
         nodeName = agent_node given NODE_NAME in
     if nodeName = [] then Exit1 ''--node-name (or $NODE_NAME) is required'' None
     else (case ml_AddToScheme L of Some e \<Rightarrow> Panicked e | None \<Rightarrow>
      (case ml_New L metricsAddr probeAddr None of
         Inl e \<Rightarrow> Exit1 ''unable to start manager'' (Some e)
       | Inr mgr \<Rightarrow>
          (case agent_Dial L socketPath of
             Some e \<Rightarrow> Exit1 ''unable to dial tunneld socket'' (Some e)
           | None \<Rightarrow>
              (case ml_Complete L (agent_SetupWithManager P nodeName) mgr of
                 Inl e \<Rightarrow> Exit1 ''unable to set up agent Tunnel reconciler'' (Some e)
               | Inr mgr1 \<Rightarrow> serve L mgr1)))))"

text \<open>\<open>elect\<close> is the value of the flag \<open>leader-elect\<close>, which is true by default.\<close>

definition controller_main :: "'m manager_lib \<Rightarrow> (string \<rightharpoonup> string) \<Rightarrow> bool option \<Rightarrow> main_end" where
  "controller_main L given elect =
    (let metricsAddr = flag_value given ''metrics-bind-address'' '':8080'';
         probeAddr = flag_value given ''health-probe-bind-address'' '':8081'';
         enableLeaderElection = (case elect of None \<Rightarrow> True | Some b \<Rightarrow> b) in
     case ml_AddToScheme L of Some e \<Rightarrow> Panicked e | None \<Rightarrow>
     (case ml_New L metricsAddr probeAddr (Some (enableLeaderElection, ''tunneld-controller.tunneld.io'')) of
       Inl e \<Rightarrow> Exit1 ''unable to start manager'' (Some e)
     | Inr mgr \<Rightarrow>
        (case ml_Complete L tc_SetupWithManager mgr of
           Inl e \<Rightarrow> Exit1 ''unable to set up Tunnel controller'' (Some e)
         | Inr mgr1 \<Rightarrow>
            (case ml_Complete L tk_SetupWithManager mgr1 of
               Inl e \<Rightarrow> Exit1 ''unable to set up TunnelKey controller'' (Some e)
             | Inr mgr2 \<Rightarrow>
                (case ml_Complete L tg_SetupWithManager mgr2 of
                   Inl e \<Rightarrow> Exit1 ''unable to set up TunnelGroup controller'' (Some e)
                 | Inr mgr3 \<Rightarrow> serve L mgr3)))))"

section \<open>Properties\<close>

text \<open>
  The filter of the agent lets every event of every tunnel through, whatever node it is on: the
  first half of \<open>predicate.Or\<close> has no effect, and only the check in \<open>Reconcile\<close> keeps an agent to
  its own node.
\<close>

lemma agent_watches_everything:
  assumes "\<forall>p q e. predicate_Or P p q e \<longleftrightarrow> p e \<or> q e"
  shows "\<exists>f. rg_Filter (agent_SetupWithManager P NodeName) = Some f \<and> (\<forall>e. f e)"
proof -
  have "allEvents e" for e
    by (cases e) simp_all
  then show ?thesis
    using assms unfolding agent_SetupWithManager_def by auto
qed

text \<open>A manager that remembers what was registered, for a program that gets as far as \<open>Start\<close>.\<close>

definition recording :: "(registration list \<Rightarrow> err option) \<Rightarrow> registration list manager_lib" where
  "recording start =
    \<lparr>ml_AddToScheme = None, ml_New = \<lambda>m p l. Inr [], ml_Complete = \<lambda>r mgr. Inr (mgr @ [r]), ml_Healthz = Inr, ml_Readyz = Inr,
     ml_Start = start, ml_Dial = \<lambda>t s. None\<rparr>"

lemma recording_simps:
  "ml_AddToScheme (recording start) = None" "ml_New (recording start) m p l = Inr []"
  "ml_Complete (recording start) r mgr = Inr (mgr @ [r])" "ml_Healthz (recording start) mgr = Inr mgr"
  "ml_Readyz (recording start) mgr = Inr mgr" "ml_Start (recording start) mgr = start mgr"
  "ml_Dial (recording start) t s = None"
  by (simp_all add: recording_def)

text \<open>
  An agent without a node name never gets to its manager. This is what keeps it from the tunnels
  that have no node yet: to the reconciliation the empty name would be a node like any other, and
  every agent would take them.
\<close>

lemma agent_has_a_name:
  assumes "agent_main (recording start) P given NODE_NAME = r" and "agent_node given NODE_NAME = nd"
  shows "r = (if nd = [] then Exit1 ''--node-name (or $NODE_NAME) is required'' None
    else case start [agent_SetupWithManager P nd] of
      None \<Rightarrow> Ended | Some e \<Rightarrow> Exit1 ''manager exited with error'' (Some e))"
  using assms by (cases "nd = []") (simp_all add: agent_main_def recording_simps agent_Dial_def serve_def Let_def)

lemma unplaced_tunnel_of_no_agent:
  assumes "agent_main (L :: 'm manager_lib) P given NODE_NAME = Ended"
    and "k_get_tunnel K k ns nm = Inr t" and "kts_Node (tn_Status t) = []"
  shows "agent_Reconcile K C D milli (agent_node given NODE_NAME) ns nm (k, d) = ((no_result, None), k, d)"
proof -
  have "agent_node given NODE_NAME \<noteq> []"
    using assms(1) by (auto simp: agent_main_def Let_def split: if_splits)
  then show ?thesis
    using assms(2,3) by (simp add: agent_Reconcile_def)
qed

text \<open>The controller runs the three reconcilers of the resources, and only groups watch a second kind.\<close>

lemma controller_runs_three:
  "controller_main (recording start) given elect =
    (case start [tc_SetupWithManager, tk_SetupWithManager, tg_SetupWithManager] of
       None \<Rightarrow> Ended | Some e \<Rightarrow> Exit1 ''manager exited with error'' (Some e))"
  by (simp add: controller_main_def serve_def recording_simps Let_def)

end
