(* ===== verification/Daemon_Cmd.thy ===== *)
theory Daemon_Cmd
  imports Supervisor_Props Map_Order
begin

text \<open>
  \<open>cmd/tunneld/cmd\<close>: the commands \<open>run\<close>, \<open>validate\<close> and \<open>plan\<close> of the daemon, from the
  configuration file to the running supervisor.
\<close>

section \<open>The commands\<close>

text \<open>
  The loops over the configured tunnels visit them in some order each: those of \<open>Validate\<close>,
  of \<open>ToSpecs\<close>, and the two of \<open>Plan\<close> over the specs.
\<close>

record config_visits =
  cv_validate :: "(string \<rightharpoonup> TunnelConfig) \<Rightarrow> (string \<times> TunnelConfig) list"
  cv_conflicts :: "(string \<rightharpoonup> TunnelConfig) \<Rightarrow> (string \<times> TunnelConfig) list"
  cv_specs :: "(string \<rightharpoonup> TunnelConfig) \<Rightarrow> (string \<times> TunnelConfig) list"
  cv_add :: "(string \<rightharpoonup> Spec) \<Rightarrow> (string \<times> Spec) list"
  cv_connect :: "(string \<rightharpoonup> Spec) \<Rightarrow> (string \<times> Spec) list"

definition config_visits_ok :: "config_visits \<Rightarrow> bool" where
  "config_visits_ok v \<longleftrightarrow>
     (\<forall>m. finite (dom m) \<longrightarrow> enumerates (cv_validate v m) m \<and> enumerates (cv_conflicts v m) m \<and>
        enumerates (cv_specs v m) m) \<and>
     (\<forall>m. finite (dom m) \<longrightarrow> enumerates (cv_add v m) m \<and> enumerates (cv_connect v m) m)"

definition no_config :: Config where
  "no_config = \<lparr>cfg_Tunnels = Map.empty, cfg_filePath = []\<rparr>"

definition read_config :: "'w os \<Rightarrow> yaml_ops \<Rightarrow> string \<Rightarrow> bool \<Rightarrow> 'w \<Rightarrow> err + Config" where
  "read_config S Y path noConfig w =
    (if noConfig then Inr no_config
     else (case Load S Y w path of
       Inl (NotExist e) \<Rightarrow> Inr no_config
     | Inl (FileErr e) \<Rightarrow> Inl (''Error loading config: '' @ e)
     | Inr cfg \<Rightarrow> Inr cfg))"

text \<open>The callers ignore the error of \<open>ToSpecs\<close>, which returns a nil map with it.\<close>

definition specs_or_none :: "err + (string \<rightharpoonup> Spec) \<Rightarrow> (string \<rightharpoonup> Spec)" where
  "specs_or_none r = (case r of Inl e \<Rightarrow> Map.empty | Inr m \<Rightarrow> m)"

text \<open>
  The daemon's start: its outcome is the message with which it gives up, or the supervisor
  when \<open>Run\<close> waits for the end of the context. \<open>listen\<close> is the result of \<open>net.Listen\<close> on the
  socket; clients can call the supervisor from then on, which the transition system covers.
\<close>

definition run_setup :: "'w os \<Rightarrow> duration_ops \<Rightarrow> yaml_ops \<Rightarrow> ('g, 'i) graph_ops \<Rightarrow> config_visits \<Rightarrow>
    string \<Rightarrow> string \<Rightarrow> string \<Rightarrow> bool \<Rightarrow> 'w \<Rightarrow> err + ('w, 'g, 'i) Supervisor" where
  "run_setup S D Y G v path keyDir tunnelsDir noConfig w =
    (case read_config S Y path noConfig w of
       Inl e \<Rightarrow> Inl e
     | Inr cfg \<Rightarrow>
        (case Validate D (cv_validate v (cfg_Tunnels cfg)) (cv_conflicts v (cfg_Tunnels cfg)) of
           Some e \<Rightarrow> Inl (''Validation failed: '' @ e)
         | None \<Rightarrow> Inr (NewSupervisor w
             (NewPlanner G (specs_or_none (ToSpecs D (cv_specs v (cfg_Tunnels cfg))))) cfg keyDir tunnelsDir)))"

definition run_daemon :: "'w os \<Rightarrow> duration_ops \<Rightarrow> yaml_ops \<Rightarrow> ('g, 'i) graph_ops \<Rightarrow> config_visits \<Rightarrow>
    (string \<Rightarrow> (string \<times> string) list) \<Rightarrow> err option \<Rightarrow> string \<Rightarrow> string \<Rightarrow> string \<Rightarrow> string \<Rightarrow> bool \<Rightarrow> 'w \<Rightarrow>
    (err + ('w, 'g, 'i) Supervisor) go" where
  "run_daemon S D Y G v opts listen path socketPath keyDir tunnelsDir noConfig w =
    (case run_setup S D Y G v path keyDir tunnelsDir noConfig w of
       Inl e \<Rightarrow> Ret (Inl e)
     | Inr sv \<Rightarrow>
        (let sv1 = sv\<lparr>sv_world := snd (os_remove S (sv_world sv) socketPath)\<rparr>;
             specs = pl_specs (sv_planner sv) in
         case listen of
           Some e \<Rightarrow> Ret (Inl (''Failed to listen on '' @ socketPath @ '': '' @ e))
         | None \<Rightarrow> bind_go (Run S D G (cv_add v specs) (cv_connect v specs) opts (Some False) sv1)
             (\<lambda>(r, sv2). case r of
                Some e \<Rightarrow> Ret (Inl (''Supervisor failed: '' @ e))
              | None \<Rightarrow> Ret (Inr sv2))))"

text \<open>What \<open>validate\<close> prints before it exits with 1, or nothing when the file is valid.\<close>

definition plan_config :: "'w os \<Rightarrow> duration_ops \<Rightarrow> ('g, 'i) graph_ops \<Rightarrow> config_visits \<Rightarrow> Config \<Rightarrow>
    (err + Spec list) go" where
  "plan_config S D G v cfg =
    (let specs = specs_or_none (ToSpecs D (cv_specs v (cfg_Tunnels cfg))) in
     bind_go (Plan G (cv_add v specs) (cv_connect v specs) (NewPlanner G specs)) (\<lambda>(r, pl). Ret r))"

definition validate_cmd :: "'w os \<Rightarrow> duration_ops \<Rightarrow> yaml_ops \<Rightarrow> ('g, 'i) graph_ops \<Rightarrow> config_visits \<Rightarrow>
    string \<Rightarrow> 'w \<Rightarrow> err option go" where
  "validate_cmd S D Y G v path w =
    (case Load S Y w path of
       Inl e \<Rightarrow> Ret (Some (''Error loading config: '' @ file_err_msg e))
     | Inr cfg \<Rightarrow>
        (case Validate D (cv_validate v (cfg_Tunnels cfg)) (cv_conflicts v (cfg_Tunnels cfg)) of
           Some e \<Rightarrow> Ret (Some (''Validation failed: '' @ e))
         | None \<Rightarrow> bind_go (plan_config S D G v cfg) (\<lambda>r. case r of
             Inl e \<Rightarrow> Ret (Some (''Dependency validation failed: '' @ e))
           | Inr order \<Rightarrow> Ret None)))"

text \<open>The lines that \<open>plan\<close> prints; \<open>%v\<close> of a slice of strings puts it in brackets.\<close>

fun spaced_names :: "string list \<Rightarrow> string" where
  "spaced_names [] = []"
| "spaced_names [x] = x"
| "spaced_names (x # xs) = x @ '' '' @ spaced_names xs"

definition plan_lines :: "nat \<times> Spec \<Rightarrow> string list" where
  "plan_lines x =
    (nat_dec (Suc (fst x)) @ ''. '' @ spec_Name (snd x) @ '' ('' @ spec_Type (snd x) @ '')'') #
    (if spec_Dependencies (snd x) = [] then []
     else [''   Depends on: ['' @ spaced_names (spec_Dependencies (snd x)) @ '']''])"

definition plan_cmd :: "'w os \<Rightarrow> duration_ops \<Rightarrow> yaml_ops \<Rightarrow> ('g, 'i) graph_ops \<Rightarrow> config_visits \<Rightarrow>
    string \<Rightarrow> 'w \<Rightarrow> (err + string list) go" where
  "plan_cmd S D Y G v path w =
    (case Load S Y w path of
       Inl e \<Rightarrow> Ret (Inl (''Error loading config: '' @ file_err_msg e))
     | Inr cfg \<Rightarrow> bind_go (plan_config S D G v cfg) (\<lambda>r. case r of
         Inl e \<Rightarrow> Ret (Inl (''Error planning: '' @ e))
       | Inr order \<Rightarrow> Ret (Inr (''Startup order:'' # concat (map plan_lines (enumerate 0 order))))))"

section \<open>What a valid configuration gives\<close>

lemma valid_specs:
  assumes v: "valid_config D m" and fin: "finite (dom m)"
  obtains specs where "\<And>es. enumerates es m \<Longrightarrow> ToSpecs D es = Inr specs" and "named specs"
    and "dom specs = {n. \<exists>t. m n = Some t \<and> tc_Enabled t}" and "\<forall>s \<in> ran specs. wf_spec s"
    and "\<And>n s. specs n = Some s \<Longrightarrow> spec_Dependencies s = tc_DependsOn (the (m n)) \<and>
      LocalPortKeys (spec_ToProto s) = config_keys D (n, the (m n)) \<and>
      tc_ToProto D (the (m n)) n = Inr (spec_ToProto s)"
proof -
  define specs where "specs n = (case m n of
      Some t \<Rightarrow> if tc_Enabled t then (case tc_ToSpec D t n of Inr s \<Rightarrow> Some s | Inl e \<Rightarrow> None) else None
    | None \<Rightarrow> None)" for n
  have view: "\<exists>t. m n = Some t \<and> tc_Enabled t \<and> tc_ToSpec D t n = Inr s" if "specs n = Some s" for n s
    using that by (auto simp: specs_def split: option.splits if_splits sum.splits)
  have tospecs: "ToSpecs D es = Inr specs" if es: "enumerates es m" for es
  proof -
    have "Validate D es es = None"
      using Validate_valid [OF es es] v by simp
    from Validate_ToSpecs [OF es es this] obtain sp where sp: "ToSpecs D es = Inr sp"
      by blast
    have "sp n = specs n" for n
      using to_specs_lookup [of D es Map.empty sp n] sp es by (simp add: ToSpecs_def enumerates_def specs_def)
    with sp show ?thesis by (simp add: fun_eq_iff [symmetric] ext)
  qed
  have some: "\<exists>s. specs n = Some s" if "m n = Some t" "tc_Enabled t" for n t
  proof -
    have "translatable t"
      using v that by (auto simp: valid_config_def)
    then show ?thesis
      using tc_ToSpec_ok_iff [of D t n] that by (auto simp: specs_def)
  qed
  show thesis
  proof (rule that [of specs])
    show "named specs"
      using view tc_ToSpec_view(2) by (fastforce simp: named_def)
    show "dom specs = {n. \<exists>t. m n = Some t \<and> tc_Enabled t}"
      using view some by blast
    show "\<forall>s \<in> ran specs. wf_spec s"
      using view tc_ToSpec_view(4) by (fastforce simp: ran_def)
    show "spec_Dependencies s = tc_DependsOn (the (m n)) \<and>
        LocalPortKeys (spec_ToProto s) = config_keys D (n, the (m n)) \<and>
        tc_ToProto D (the (m n)) n = Inr (spec_ToProto s)" if "specs n = Some s" for n s
      using view [OF that] tc_ToSpec_view(1,3) by (auto simp: config_keys_def)
  qed (rule tospecs)
qed

lemma Plan_verdict:
  assumes lib: "graph_library G edges" and es: "enumerates es1 (pl_specs p)" "enumerates es2 (pl_specs p)"
    and nm: "named (pl_specs p)" and dist: "deps_distinct (pl_specs p)"
  obtains (planned) ss p' where "Plan G es1 es2 p = Ret (Inr ss, p')" "is_plan (pl_specs p) ss"
      "deps_present (pl_specs p)" "acyclic (dep_rel (pl_specs p))" "pl_specs p' = pl_specs p"
  | (rejected) e p' where "Plan G es1 es2 p = Ret (Inl e, p')" "pl_specs p' = pl_specs p"
      "\<not> (deps_present (pl_specs p) \<and> acyclic (dep_rel (pl_specs p)))"
proof (rule graph_library.Plan_returns [OF lib es nm])
  fix e p'
  assume rej: "Plan G es1 es2 p = Ret (Inl e, p')" "pl_specs p' = pl_specs p"
  have "\<not> (deps_present (pl_specs p) \<and> acyclic (dep_rel (pl_specs p)))"
  proof
    assume h: "deps_present (pl_specs p) \<and> acyclic (dep_rel (pl_specs p))"
    then have "irrefl (dep_rel (pl_specs p))"
      by (simp add: acyclic_irrefl irrefl_def acyclic_def) blast
    from graph_library.Plan_accepts(1) [OF lib es nm dist this] h rej(1) show False
      by auto
  qed
  with rej show thesis by (rule rejected)
next
  fix ss p'
  assume "Plan G es1 es2 p = Ret (Inr ss, p')" "pl_specs p' = pl_specs p" "is_plan (pl_specs p) ss"
    "deps_present (pl_specs p)" "acyclic (dep_rel (pl_specs p))"
  then show thesis using planned by blast
qed

lemma claims_accepted:
  assumes "is_plan m order" and "named m" and "specs_disjoint m"
    and "\<forall>s \<in> ran m. distinct (LocalPortKeys (spec_ToProto s))"
  shows "claim_all msg (map (\<lambda>s. (spec_Name s, LocalPortKeys (spec_ToProto s))) order) Map.empty = None"
proof -
  have o: "distinct order" "set order = ran m"
    using assms(1) by (simp_all add: is_plan_def)
  have "set (LocalPortKeys (spec_ToProto x)) \<inter> set (LocalPortKeys (spec_ToProto y)) = {}"
    if xy: "x \<in> ran m" "y \<in> ran m" "x \<noteq> y" for x y
  proof -
    obtain n n' where n: "m n = Some x" "m n' = Some y"
      using xy by (auto simp: ran_def)
    then have "n \<noteq> n'"
      using xy(3) by auto
    then show ?thesis
      using assms(3) n by (simp add: specs_disjoint_def spec_keys_def)
  qed
  then show ?thesis
    using assms(4) o by (simp add: claim_all_None comp_def distinct_concat_iff)
qed

lemma Run_verdict:
  assumes lib: "graph_library G edges" and ok: "sv_ok S D sv" and m: "pl_specs (sv_planner sv) = m"
    and es: "enumerates es1 m" "enumerates es2 m" and nm: "named m" and dist: "deps_distinct m"
    and wf: "\<forall>s \<in> ran m. wf_spec s" and disj: "specs_disjoint m"
    and keys: "\<forall>s \<in> ran m. distinct (LocalPortKeys (spec_ToProto s))"
  shows "\<exists>r sv'. Run S D G es1 es2 opts (Some False) sv = Ret (r, sv') \<and>
    (r = None \<longleftrightarrow> deps_present m \<and> acyclic (dep_rel m))"
proof -
  note es' = es [folded m] and nm' = nm [folded m] and dist' = dist [folded m]
  show ?thesis
  proof (rule Plan_verdict [OF lib es' nm' dist'], unfold m)
    fix ss p'
    assume pl: "Plan G es1 es2 (sv_planner sv) = Ret (Inr ss, p')" "is_plan m ss" "deps_present m" "acyclic (dep_rel m)"
    have "\<forall>s \<in> set ss. wf_spec s"
      using pl(2) wf by (simp add: is_plan_def)
    then obtain sv' where "start_order S D opts (Some False) ss (sv\<lparr>sv_ctx := Some False, sv_planner := p'\<rparr>) = Ret sv'"
      using start_order_returns by blast
    then show ?thesis
      using pl claims_accepted [OF pl(2) nm disj keys] by (simp add: Run_def Let_def)
  next
    fix e p'
    assume "Plan G es1 es2 (sv_planner sv) = Ret (Inl e, p')" "\<not> (deps_present m \<and> acyclic (dep_rel m))"
    then show ?thesis by (simp add: Run_def Let_def)
  qed
qed

lemma valid_specs_keys:
  assumes v: "valid_config D m" and nm: "named specs"
    and dom: "dom specs = {n. \<exists>t. m n = Some t \<and> tc_Enabled t}"
    and keys: "\<And>n s. specs n = Some s \<Longrightarrow> spec_Dependencies s = tc_DependsOn (the (m n)) \<and>
      LocalPortKeys (spec_ToProto s) = config_keys D (n, the (m n)) \<and>
      tc_ToProto D (the (m n)) n = Inr (spec_ToProto s)"
  shows "specs_disjoint specs" and "\<forall>s \<in> ran specs. distinct (LocalPortKeys (spec_ToProto s))"
proof -
  have en: "\<exists>t. m n = Some t \<and> tc_Enabled t" if "specs n = Some s" for n s
    using that dom by blast
  show "specs_disjoint specs"
    unfolding specs_disjoint_def
  proof (intro allI impI)
    fix n s n' s'
    assume h: "specs n = Some s" "specs n' = Some s'" "n \<noteq> n'"
    obtain t t' where "m n = Some t" "tc_Enabled t" "m n' = Some t'" "tc_Enabled t'"
      using en [OF h(1)] en [OF h(2)] by blast
    then show "spec_keys s \<inter> spec_keys s' = {}"
      using v h(3) keys [OF h(1)] keys [OF h(2)] by (simp add: valid_config_def spec_keys_def)
  qed
  show "\<forall>s \<in> ran specs. distinct (LocalPortKeys (spec_ToProto s))"
  proof
    fix s
    assume "s \<in> ran specs"
    then obtain n where n: "specs n = Some s"
      by (auto simp: ran_def)
    obtain t where "m n = Some t" "tc_Enabled t"
      using en [OF n] by blast
    then show "distinct (LocalPortKeys (spec_ToProto s))"
      using v keys [OF n] by (auto simp: valid_config_def)
  qed
qed

text \<open>What a valid configuration is translated to.\<close>

lemma valid_plannable:
  assumes v: "valid_config D m" and fin: "finite (dom m)" and deps: "\<forall>t \<in> ran m. distinct (tc_DependsOn t)"
  obtains specs where "\<And>es. enumerates es m \<Longrightarrow> ToSpecs D es = Inr specs" and "named specs" and "finite (dom specs)"
    and "dom specs = {n. \<exists>t. m n = Some t \<and> tc_Enabled t}" and "\<forall>s \<in> ran specs. wf_spec s"
    and "deps_distinct specs" and "specs_disjoint specs" and "\<forall>s \<in> ran specs. distinct (LocalPortKeys (spec_ToProto s))"
    and "\<And>n s. specs n = Some s \<Longrightarrow> tc_ToProto D (the (m n)) n = Inr (spec_ToProto s)"
proof (rule valid_specs [OF v fin])
  fix specs
  assume ts: "\<And>es. enumerates es m \<Longrightarrow> ToSpecs D es = Inr specs" and nm: "named specs"
    and dom: "dom specs = {n. \<exists>t. m n = Some t \<and> tc_Enabled t}" and wf: "\<forall>s \<in> ran specs. wf_spec s"
    and keys: "\<And>n s. specs n = Some s \<Longrightarrow> spec_Dependencies s = tc_DependsOn (the (m n)) \<and>
      LocalPortKeys (spec_ToProto s) = config_keys D (n, the (m n)) \<and>
      tc_ToProto D (the (m n)) n = Inr (spec_ToProto s)"
  have dist: "deps_distinct specs"
    unfolding deps_distinct_def
  proof
    fix s
    assume "s \<in> ran specs"
    then obtain n where n: "specs n = Some s"
      by (auto simp: ran_def)
    then obtain t where "m n = Some t"
      using dom by blast
    then show "distinct (spec_Dependencies s)"
      using keys [OF n] deps by (auto simp: ran_def)
  qed
  have "dom specs \<subseteq> dom m"
    using dom by blast
  then have fs: "finite (dom specs)"
    using fin finite_subset by blast
  have tp: "tc_ToProto D (the (m n)) n = Inr (spec_ToProto s)" if "specs n = Some s" for n s
    using keys [OF that] by simp
  show thesis
    by (rule that [OF ts nm fs dom wf dist valid_specs_keys [OF v nm dom keys] tp])
qed

section \<open>\<open>validate\<close> and \<open>run\<close>\<close>

lemma validate_verdict:
  assumes lib: "graph_library G edges" and v: "config_visits_ok v" and load: "Load S Y w path = Inr cfg"
    and fin: "finite (dom (cfg_Tunnels cfg))" and valid: "valid_config D (cfg_Tunnels cfg)"
    and ts: "\<And>es. enumerates es (cfg_Tunnels cfg) \<Longrightarrow> ToSpecs D es = Inr specs"
    and nm: "named specs" and dist: "deps_distinct specs" and fs: "finite (dom specs)"
  shows "\<exists>r. validate_cmd S D Y G v path w = Ret r \<and> (r = None \<longleftrightarrow> deps_present specs \<and> acyclic (dep_rel specs))"
proof -
  let ?m = "cfg_Tunnels cfg"
  have en: "enumerates (cv_validate v ?m) ?m" "enumerates (cv_conflicts v ?m) ?m" "enumerates (cv_specs v ?m) ?m"
    and es: "enumerates (cv_add v specs) specs" "enumerates (cv_connect v specs) specs"
    using v fin fs by (simp_all add: config_visits_ok_def)
  have v1: "Validate D (cv_validate v ?m) (cv_conflicts v ?m) = None"
    using Validate_valid [OF en(1,2)] valid by simp
  have eq: "validate_cmd S D Y G v path w = bind_go (plan_config S D G v cfg) (\<lambda>r. case r of
         Inl e \<Rightarrow> Ret (Some (''Dependency validation failed: '' @ e)) | Inr order \<Rightarrow> Ret None)"
    unfolding validate_cmd_def load sum.case(2) v1 option.case(1) by (rule refl)
  have pc: "plan_config S D G v cfg =
      bind_go (Plan G (cv_add v specs) (cv_connect v specs) (NewPlanner G specs)) (\<lambda>(r, pl). Ret r)"
    using ts [OF en(3)] by (simp add: plan_config_def specs_or_none_def)
  show ?thesis
    unfolding eq pc
    by (rule Plan_verdict [OF lib, where p = "NewPlanner G specs", unfolded NewPlanner_specs, OF es nm dist]) auto
qed

lemma validate_invalid:
  assumes "config_visits_ok v" and "Load S Y w path = Inr cfg" and "finite (dom (cfg_Tunnels cfg))"
    and "\<not> valid_config D (cfg_Tunnels cfg)"
  shows "\<exists>e. Validate D (cv_validate v (cfg_Tunnels cfg)) (cv_conflicts v (cfg_Tunnels cfg)) = Some e \<and>
    validate_cmd S D Y G v path w = Ret (Some (''Validation failed: '' @ e))"
proof -
  have en: "enumerates (cv_validate v (cfg_Tunnels cfg)) (cfg_Tunnels cfg)"
    "enumerates (cv_conflicts v (cfg_Tunnels cfg)) (cfg_Tunnels cfg)"
    using assms(1,3) by (simp_all add: config_visits_ok_def)
  show ?thesis
    using Validate_valid [OF en, of D] assms(2,4) by (auto simp: validate_cmd_def)
qed


definition sorted_config_visits :: config_visits where
  "sorted_config_visits =
    \<lparr>cv_validate = sorted_entries, cv_conflicts = sorted_entries, cv_specs = sorted_entries,
     cv_add = sorted_entries, cv_connect = sorted_entries\<rparr>"

lemma sorted_config_visits_ok: "config_visits_ok sorted_config_visits"
  by (simp add: config_visits_ok_def sorted_config_visits_def sorted_entries_enumerates)

definition demo_config_yaml :: yaml_ops where
  "demo_config_yaml = demo_yaml\<lparr>y_unmarshal_config := (\<lambda>b. Inr (map_of demo_cfg))\<rparr>"


end
