(* ===== verification/Client_Cmd.thy ===== *)
theory Client_Cmd
  imports Server_Calls Daemon_Cmd
begin

text \<open>
  \<open>cmd/tunnelctl/cmd\<close>: the commands of the client that do more than one call: the upload of
  local keys, \<open>create\<close>, \<open>load\<close> and \<open>key add\<close>.
\<close>

section \<open>Local keys\<close>

definition expand_home :: "'w os \<Rightarrow> string \<Rightarrow> string" where
  "expand_home S path = (if prefix ''~'' path then Join2 (os_homedir S) (tl path) else path)"

definition readLocalKey :: "'w os \<Rightarrow> 'w \<Rightarrow> string \<Rightarrow> err + (bytes \<times> string)" where
  "readLocalKey S w path =
    (let path = expand_home S path in
     case os_readfile S w path of
       Inl e \<Rightarrow> Inl (''failed to read local key '' @ quote path @ '': '' @ file_err_msg e)
     | Inr content \<Rightarrow> Inr (content, Base path))"

text \<open>The inline keys, and the spec, which the code changes in place.\<close>

definition slurpKeys :: "'w os \<Rightarrow> 'w \<Rightarrow> TunnelSpec \<Rightarrow> err + ((string \<rightharpoonup> bytes) \<times> TunnelSpec)" where
  "slurpKeys S w p =
    (case ts_Type p of
       Some (TunnelSpec_Ssh s) \<Rightarrow>
         if ssh_IdentityKeyFile s = [] then Inr (Map.empty, p)
         else (case readLocalKey S w (ssh_IdentityKeyFile s) of
           Inl e \<Rightarrow> Inl e
         | Inr (content, name) \<Rightarrow> Inr ([name \<mapsto> content],
             p\<lparr>ts_Type := Some (TunnelSpec_Ssh (s\<lparr>ssh_IdentityKeyFile := [], ssh_IdentityKeyRef := name\<rparr>))\<rparr>))
     | Some (TunnelSpec_Kubectl k) \<Rightarrow>
         if kc_KubeconfigFile k = [] then Inr (Map.empty, p)
         else (case readLocalKey S w (kc_KubeconfigFile k) of
           Inl e \<Rightarrow> Inl e
         | Inr (content, name) \<Rightarrow> Inr ([name \<mapsto> content],
             p\<lparr>ts_Type := Some (TunnelSpec_Kubectl (k\<lparr>kc_KubeconfigFile := [], kc_KubeconfigRef := name\<rparr>))\<rparr>))
     | None \<Rightarrow> Inr (Map.empty, p))"

section \<open>The commands\<close>

text \<open>The calls the commands make; \<open>'c\<close> is the state of the daemon behind them.\<close>

record 'c client =
  cl_Create :: "'c \<Rightarrow> CreateRequest \<Rightarrow> err option \<times> 'c"
  cl_Start :: "'c \<Rightarrow> StartRequest \<Rightarrow> err option \<times> 'c"
  cl_AddKey :: "'c \<Rightarrow> AddKeyRequest \<Rightarrow> err option \<times> 'c"

text \<open>A command ends with the message of its fatal error, if there is one.\<close>

definition create_cmd :: "'w os \<Rightarrow> duration_ops \<Rightarrow> yaml_ops \<Rightarrow> 'c client \<Rightarrow> string \<Rightarrow> string \<Rightarrow> bool \<Rightarrow> 'w \<Rightarrow> 'c \<Rightarrow>
    err option \<times> 'c" where
  "create_cmd S D Y C name configPath persistent w c =
    (if configPath = [] then (Some ''--config required'', c)
     else case os_readfile S w configPath of
       Inl e \<Rightarrow> (Some (''failed to read config: '' @ file_err_msg e), c)
     | Inr data \<Rightarrow>
        (case y_unmarshal_tunnel Y data of
           Inl e \<Rightarrow> (Some (''failed to parse yaml: '' @ e), c)
         | Inr tc \<Rightarrow>
            (case tc_ToProto D tc name of
               Inl e \<Rightarrow> (Some (''failed to convert to proto: '' @ e), c)
             | Inr p \<Rightarrow>
                (case slurpKeys S w p of
                   Inl e \<Rightarrow> (Some (''failed to slurp keys: '' @ e), c)
                 | Inr (ks, p') \<Rightarrow>
                    (case cl_Create C c \<lparr>create_Spec = Some p', create_InlineKeys = ks, create_Persistent = persistent\<rparr> of
                       (Some e, c') \<Rightarrow> (Some (''could not create: '' @ e), c')
                     | (None, c') \<Rightarrow> (None, c'))))))"

text \<open>One tunnel of \<open>load\<close>: whether it failed.\<close>

definition load_one :: "'w os \<Rightarrow> 'c client \<Rightarrow> bool \<Rightarrow> 'w \<Rightarrow> Spec \<Rightarrow> 'c \<Rightarrow> bool \<times> 'c" where
  "load_one S C persistent w spec c =
    (case slurpKeys S w (spec_ToProto spec) of
       Inl e \<Rightarrow> (True, c)
     | Inr (ks, p) \<Rightarrow>
        (case cl_Create C c \<lparr>create_Spec = Some p, create_InlineKeys = ks, create_Persistent = persistent\<rparr> of
           (Some e, c1) \<Rightarrow> (True, c1)
         | (None, c1) \<Rightarrow>
            (case cl_Start C c1 \<lparr>start_Name = spec_Name spec\<rparr> of
               (Some e, c2) \<Rightarrow> (True, c2)
             | (None, c2) \<Rightarrow> (False, c2))))"

fun load_loop :: "'w os \<Rightarrow> 'c client \<Rightarrow> bool \<Rightarrow> 'w \<Rightarrow> Spec list \<Rightarrow> bool \<Rightarrow> 'c \<Rightarrow> bool \<times> 'c" where
  "load_loop S C persistent w [] hasError c = (hasError, c)"
| "load_loop S C persistent w (spec # specs) hasError c =
    (case load_one S C persistent w spec c of
       (failed, c') \<Rightarrow> load_loop S C persistent w specs (hasError \<or> failed) c')"

text \<open>\<open>load\<close>: a fatal error, or whether it exits with 1 because a tunnel failed.\<close>

definition load_cmd :: "'w os \<Rightarrow> duration_ops \<Rightarrow> yaml_ops \<Rightarrow> ('g, 'i) graph_ops \<Rightarrow> config_visits \<Rightarrow> 'c client \<Rightarrow>
    string \<Rightarrow> bool \<Rightarrow> 'w \<Rightarrow> 'c \<Rightarrow> ((err + bool) \<times> 'c) go" where
  "load_cmd S D Y G v C configPath persistent w c =
    (case Load S Y w configPath of
       Inl e \<Rightarrow> Ret (Inl (''failed to load config: '' @ file_err_msg e), c)
     | Inr cfg \<Rightarrow>
        (case ToSpecs D (cv_specs v (cfg_Tunnels cfg)) of
           Inl e \<Rightarrow> Ret (Inl (''failed to parse specs: '' @ e), c)
         | Inr specs \<Rightarrow> bind_go (Plan G (cv_add v specs) (cv_connect v specs) (NewPlanner G specs))
             (\<lambda>(r, pl). case r of
                Inl e \<Rightarrow> Ret (Inl (''failed to resolve dependency order: '' @ e), c)
              | Inr order \<Rightarrow> (case load_loop S C persistent w order False c of
                  (hasError, c') \<Rightarrow> Ret (Inr hasError, c')))))"

definition key_add_cmd :: "'w os \<Rightarrow> 'c client \<Rightarrow> string \<Rightarrow> string \<Rightarrow> 'w \<Rightarrow> 'c \<Rightarrow> err option \<times> 'c" where
  "key_add_cmd S C name path w c =
    (case os_readfile S w path of
       Inl e \<Rightarrow> (Some (''failed to read key file: '' @ file_err_msg e), c)
     | Inr content \<Rightarrow>
        (case cl_AddKey C c \<lparr>addkey_Name = name, addkey_Content = content\<rparr> of
           (Some e, c') \<Rightarrow> (Some (''failed to add key: '' @ e), c')
         | (None, c') \<Rightarrow> (None, c')))"

section \<open>Slurping keeps the rest of a spec\<close>

lemma slurp_keeps:
  assumes "slurpKeys S w p = Inr (ks, p')"
  shows "ts_Name p' = ts_Name p" and "ts_DependsOn p' = ts_DependsOn p" and "LocalPortKeys p' = LocalPortKeys p"
    and "ts_Type p' = None \<longleftrightarrow> ts_Type p = None"
  using assms
  by (auto simp: slurpKeys_def LocalPortKeys_def split: option.splits tunnel_type.splits if_splits sum.splits)

section \<open>The contract of the daemon\<close>

definition proto_deps :: "(string \<rightharpoonup> TunnelSpec) \<Rightarrow> (string \<times> string) set" where
  "proto_deps T = {(d, n). \<exists>p. T n = Some p \<and> d \<in> set (ts_DependsOn p)}"

definition with_tunnel :: "(string \<rightharpoonup> TunnelSpec) \<Rightarrow> TunnelSpec \<Rightarrow> string \<rightharpoonup> TunnelSpec" where
  "with_tunnel T p = T(ts_Name p \<mapsto> p)"

text \<open>A tunnel that can be added to those of \<open>T\<close>.\<close>

definition fits :: "(string \<rightharpoonup> TunnelSpec) \<Rightarrow> TunnelSpec \<Rightarrow> bool" where
  "fits T p \<longleftrightarrow> T (ts_Name p) = None \<and> (\<exists>spec. FromProto p = Inr spec) \<and>
     (\<forall>q \<in> ran T. set (LocalPortKeys q) \<inter> set (LocalPortKeys p) = {}) \<and>
     (\<forall>q \<in> ran (with_tunnel T p). distinct (ts_DependsOn q)) \<and>
     Domain (proto_deps (with_tunnel T p)) \<subseteq> dom (with_tunnel T p) \<and>
     acyclic (proto_deps (with_tunnel T p))"

locale load_contract =
  fixes C :: "'c client"
    and tunnels :: "'c \<Rightarrow> string \<rightharpoonup> TunnelSpec"
    and good :: "'c \<Rightarrow> bool"
  assumes create: "good c \<Longrightarrow> fits (tunnels c) p \<Longrightarrow>
      cl_Create C c \<lparr>create_Spec = Some p, create_InlineKeys = ks, create_Persistent = False\<rparr> = (e, c') \<Longrightarrow>
      good c' \<and> tunnels c' = with_tunnel (tunnels c) p"
    and start: "good c \<Longrightarrow> tunnels c nm \<noteq> None \<Longrightarrow> cl_Start C c \<lparr>start_Name = nm\<rparr> = (e, c') \<Longrightarrow>
      good c' \<and> tunnels c' = tunnels c"

fun fits_seq :: "(string \<rightharpoonup> TunnelSpec) \<Rightarrow> TunnelSpec list \<Rightarrow> bool" where
  "fits_seq T [] \<longleftrightarrow> True"
| "fits_seq T (p # ps) \<longleftrightarrow> fits T p \<and> fits_seq (with_tunnel T p) ps"

context load_contract
begin

lemma load_one_registers:
  assumes "good c" and "slurpKeys S w (spec_ToProto s) = Inr (ks, p)" and "fits (tunnels c) p"
    and "ts_Name p = spec_Name s" and "load_one S C False w s c = (failed, c')"
  shows "good c' \<and> tunnels c' = with_tunnel (tunnels c) p"
proof -
  obtain e c1 where cr: "cl_Create C c \<lparr>create_Spec = Some p, create_InlineKeys = ks, create_Persistent = False\<rparr> = (e, c1)"
    by (rule prod.exhaust)
  note c1 = create [OF assms(1,3) cr]
  show ?thesis
  proof (cases e)
    case (Some m)
    with assms(2,5) cr c1 show ?thesis by (simp add: load_one_def)
  next
    case None
    obtain e2 c2 where st: "cl_Start C c1 \<lparr>start_Name = spec_Name s\<rparr> = (e2, c2)"
      by (rule prod.exhaust)
    have "c' = c2"
      using assms(2,5) cr None st by (cases e2) (simp_all add: load_one_def)
    then show ?thesis
      using start [OF conjunct1 [OF c1] _ st] c1 assms(4) by (simp add: with_tunnel_def)
  qed
qed

lemma load_loop_registers:
  assumes "good c" and "\<forall>s \<in> set order. \<exists>ks. slurpKeys S w (spec_ToProto s) = Inr (ks, sl s) \<and> ts_Name (sl s) = spec_Name s"
    and "fits_seq (tunnels c) (map sl order)" and "load_loop S C False w order hasError c = (failed, c')"
  shows "good c' \<and> tunnels c' = foldl with_tunnel (tunnels c) (map sl order)"
  using assms
proof (induction order arbitrary: c hasError)
  case (Cons s order)
  obtain f c1 where one: "load_one S C False w s c = (f, c1)"
    by (rule prod.exhaust)
  obtain ks where ks: "slurpKeys S w (spec_ToProto s) = Inr (ks, sl s)" "ts_Name (sl s) = spec_Name s"
    using Cons.prems(2) by auto
  have c1: "good c1 \<and> tunnels c1 = with_tunnel (tunnels c) (sl s)"
    by (rule load_one_registers [OF Cons.prems(1) ks(1) _ ks(2) one]) (use Cons.prems(3) in simp)
  show ?case
    using Cons.IH [of c1 "hasError \<or> f"] c1 Cons.prems one by simp
qed simp

end

section \<open>A planned order can be loaded\<close>

text \<open>What is loaded of the specs \<open>m\<close> when the tunnels \<open>ns\<close> are there, each changed by \<open>sl\<close>.\<close>

definition loaded :: "(string \<rightharpoonup> Spec) \<Rightarrow> (Spec \<Rightarrow> TunnelSpec) \<Rightarrow> string set \<Rightarrow> string \<rightharpoonup> TunnelSpec" where
  "loaded m sl ns n = (if n \<in> ns then map_option sl (m n) else None)"

definition keeps_spec :: "(Spec \<Rightarrow> TunnelSpec) \<Rightarrow> Spec \<Rightarrow> bool" where
  "keeps_spec sl s \<longleftrightarrow> ts_Name (sl s) = spec_Name s \<and> ts_DependsOn (sl s) = spec_Dependencies s \<and>
     LocalPortKeys (sl s) = LocalPortKeys (spec_ToProto s) \<and> (\<exists>t. FromProto (sl s) = Inr t)"

lemma loaded_insert:
  assumes "m n = Some s" and "ts_Name (sl s) = n"
  shows "with_tunnel (loaded m sl ns) (sl s) = loaded m sl (insert n ns)"
  using assms by (auto simp: with_tunnel_def loaded_def fun_eq_iff)

lemma fits_loaded:
  assumes nm: "named m" and dist: "deps_distinct m" and acyc: "acyclic (dep_rel m)" and disj: "specs_disjoint m"
    and keep: "\<forall>s \<in> ran m. keeps_spec sl s" and s: "m n = Some s" and new: "n \<notin> ns"
    and deps: "set (spec_Dependencies s) \<subseteq> ns" and closed: "Domain (proto_deps (loaded m sl ns)) \<subseteq> ns"
    and sub: "ns \<subseteq> dom m"
  shows "fits (loaded m sl ns) (sl s) \<and> Domain (proto_deps (loaded m sl (insert n ns))) \<subseteq> ns"
proof -
  have ks: "keeps_spec sl s"
    using keep s by (auto simp: ran_def)
  have name: "ts_Name (sl s) = n"
    using ks nm s by (simp add: keeps_spec_def named_def)
  note ins = loaded_insert [of m n s sl ns, OF s name]
  have some: "\<exists>t. m k = Some t \<and> q = sl t \<and> keeps_spec sl t \<and> k \<in> N" if "loaded m sl N k = Some q" for k q N
    using that keep by (auto simp: loaded_def ran_def split: if_splits)
  have rel: "proto_deps (loaded m sl N) \<subseteq> dep_rel m" for N
    using some by (fastforce simp: proto_deps_def dep_rel_def keeps_spec_def)
  have dom: "dom (loaded m sl (insert n ns)) = insert n ns"
    using s sub by (auto simp: loaded_def split: if_splits)
  have "Domain (proto_deps (loaded m sl (insert n ns))) \<subseteq> Domain (proto_deps (loaded m sl ns)) \<union> set (spec_Dependencies s)"
    using ks s by (auto simp: proto_deps_def loaded_def keeps_spec_def split: if_splits)
  then have dm: "Domain (proto_deps (loaded m sl (insert n ns))) \<subseteq> ns"
    using deps closed by blast
  have "set (LocalPortKeys q) \<inter> set (LocalPortKeys (sl s)) = {}" if q: "q \<in> ran (loaded m sl ns)" for q
  proof -
    obtain k where "loaded m sl ns k = Some q"
      using q by (auto simp: ran_def)
    then obtain t where t: "m k = Some t" "q = sl t" "keeps_spec sl t" "k \<in> ns"
      using some by blast
    then have "k \<noteq> n"
      using new by blast
    then show ?thesis
      using disj t s ks by (simp add: specs_disjoint_def spec_keys_def keeps_spec_def)
  qed
  moreover have "distinct (ts_DependsOn q)" if q: "q \<in> ran (loaded m sl (insert n ns))" for q
  proof -
    obtain k where "loaded m sl (insert n ns) k = Some q"
      using q by (auto simp: ran_def)
    then obtain t where "m k = Some t" "q = sl t" "keeps_spec sl t"
      using some by blast
    then show ?thesis
      using dist by (auto simp: deps_distinct_def keeps_spec_def ran_def)
  qed
  moreover have "loaded m sl ns (ts_Name (sl s)) = None"
    using new name by (simp add: loaded_def)
  moreover have "acyclic (proto_deps (loaded m sl (insert n ns)))"
    by (rule acyclic_subset [OF acyc rel])
  ultimately show ?thesis
    using dm dom ks unfolding fits_def ins by (auto simp: keeps_spec_def)
qed

lemma plan_fits:
  assumes plan: "is_plan m order" and nm: "named m" and dist: "deps_distinct m" and acyc: "acyclic (dep_rel m)"
    and pres: "deps_present m" and disj: "specs_disjoint m" and keep: "\<forall>s \<in> ran m. keeps_spec sl s"
    and split: "order = xs @ ys" and closed: "Domain (proto_deps (loaded m sl (spec_Name ` set xs))) \<subseteq> spec_Name ` set xs"
  shows "fits_seq (loaded m sl (spec_Name ` set xs)) (map sl ys) \<and>
    foldl with_tunnel (loaded m sl (spec_Name ` set xs)) (map sl ys) = loaded m sl (spec_Name ` set order)"
  using split closed
proof (induction ys arbitrary: xs)
  case Nil
  then show ?case by simp
next
  case (Cons s ys)
  have mem: "m (spec_Name t) = Some t" if "t \<in> set order" for t
    using that plan nm by (auto simp: is_plan_def named_def ran_def)
  have dn: "distinct (map spec_Name order)"
    unfolding distinct_map using plan mem by (auto simp: is_plan_def inj_on_def) (metis option.inject)
  have s: "m (spec_Name s) = Some s"
    using mem Cons.prems(1) by simp
  have name: "ts_Name (sl s) = spec_Name s"
    using keep s by (auto simp: keeps_spec_def ran_def)
  have new: "spec_Name s \<notin> spec_Name ` set xs"
    using dn Cons.prems(1) by auto
  have "d \<in> spec_Name ` set xs" if "d \<in> set (spec_Dependencies s)" for d
  proof -
    have "(d, spec_Name s) \<in> dep_rel m"
      using that s by (auto simp: dep_rel_def)
    then have bf: "before (map spec_Name order) d (spec_Name s)"
      using plan by (simp add: is_plan_def)
    have "spec_Name s \<notin> set (map spec_Name ys)" "d \<noteq> spec_Name s"
      using dn Cons.prems(1) before_asym [OF dn bf] bf by auto
    then show ?thesis
      using bf new before_mem [of "map spec_Name ys" d "spec_Name s"] before_mem [of "map spec_Name xs" d "spec_Name s"]
      unfolding Cons.prems(1) by (auto simp: before_append)
  qed
  then have deps: "set (spec_Dependencies s) \<subseteq> spec_Name ` set xs"
    by blast
  have sub: "spec_Name ` set xs \<subseteq> dom m"
    using mem Cons.prems(1) by force
  note ft = fits_loaded [OF nm dist acyc disj keep s new deps Cons.prems(2) sub]
  have ins: "with_tunnel (loaded m sl (spec_Name ` set xs)) (sl s) = loaded m sl (spec_Name ` set (xs @ [s]))"
    using loaded_insert [of m "spec_Name s" s sl, OF s name] by simp
  have "Domain (proto_deps (loaded m sl (spec_Name ` set (xs @ [s])))) \<subseteq> spec_Name ` set (xs @ [s])"
    using ft by auto
  from Cons.IH [of "xs @ [s]", OF _ this] Cons.prems(1)
  have "fits_seq (loaded m sl (spec_Name ` set (xs @ [s]))) (map sl ys) \<and>
    foldl with_tunnel (loaded m sl (spec_Name ` set (xs @ [s]))) (map sl ys) = loaded m sl (spec_Name ` set order)"
    by simp
  then show ?case
    using ft ins by (simp del: set_append)
qed

lemma plan_loads:
  assumes "is_plan m order" and "named m" and "deps_distinct m" and "acyclic (dep_rel m)"
    and "deps_present m" and "specs_disjoint m" and "\<forall>s \<in> ran m. keeps_spec sl s"
  shows "fits_seq Map.empty (map sl order)" and "foldl with_tunnel Map.empty (map sl order) = (\<lambda>n. map_option sl (m n))"
proof -
  have e: "loaded m sl {} = Map.empty"
    by (simp add: loaded_def fun_eq_iff)
  have names: "spec_Name ` set order = dom m"
    using assms(1,2) by (force simp: is_plan_def named_def ran_def)
  have all: "loaded m sl (dom m) = (\<lambda>n. map_option sl (m n))"
    by (auto simp: loaded_def fun_eq_iff domIff)
  show "fits_seq Map.empty (map sl order)" "foldl with_tunnel Map.empty (map sl order) = (\<lambda>n. map_option sl (m n))"
    using plan_fits [OF assms, of "[]" order] by (simp_all add: e names all proto_deps_def)
qed

section \<open>The daemon behind the client\<close>

text \<open>The daemon as its client sees it; \<open>None\<close> once a handler has panicked.\<close>

definition server_client :: "'w os \<Rightarrow> duration_ops \<Rightarrow> yaml_ops \<Rightarrow> ('g, 'i) graph_ops \<Rightarrow> visits \<Rightarrow>
    (rpc_error \<Rightarrow> err) \<Rightarrow> err \<Rightarrow> ('w, 'g, 'i) Supervisor option client" where
  "server_client S D Y G vi msg gone =
    \<lparr>cl_Create = (\<lambda>d req. case d of None \<Rightarrow> (Some gone, None)
       | Some sv \<Rightarrow> served msg gone (serve_Create S D Y G vi req sv)),
     cl_Start = (\<lambda>d req. case d of None \<Rightarrow> (Some gone, None)
       | Some sv \<Rightarrow> served msg gone (api_Start S D (vi_options vi (sv_tunnels sv (start_Name req))) req sv)),
     cl_AddKey = (\<lambda>d req. case d of None \<Rightarrow> (Some gone, None)
       | Some sv \<Rightarrow> served msg gone (Ret (api_AddKey S req sv)))\<rparr>"

definition client_tunnels :: "('w, 'g, 'i) Supervisor option \<Rightarrow> string \<rightharpoonup> TunnelSpec" where
  "client_tunnels d = (case d of None \<Rightarrow> Map.empty | Some sv \<Rightarrow> sv_tunnels sv)"

text \<open>A good state in which every planned tunnel is registered.\<close>

definition client_good :: "'w os \<Rightarrow> duration_ops \<Rightarrow> ('w, 'g, 'i) Supervisor option \<Rightarrow> bool" where
  "client_good S D d \<longleftrightarrow> (case d of None \<Rightarrow> False
     | Some sv \<Rightarrow> sv_good S D sv \<and> sv_tunnels sv = map_option spec_ToProto \<circ> pl_specs (sv_planner sv))"

lemma spec_ToProto_deps: "ts_DependsOn (spec_ToProto s) = spec_Dependencies s"
  by (cases s) (simp_all add: SSHSpec_ToProto_def KubectlSpec_ToProto_def SSHSpec_Dependencies_def
      KubectlSpec_Dependencies_def)

lemma spec_ToProto_name: "ts_Name (spec_ToProto s) = spec_Name s"
  by (cases s) (simp_all add: SSHSpec_ToProto_def KubectlSpec_ToProto_def SSHSpec_Name_def KubectlSpec_Name_def)

lemma proto_deps_planned: "proto_deps (map_option spec_ToProto \<circ> m) = dep_rel m"
  by (auto simp: proto_deps_def dep_rel_def spec_ToProto_deps)

lemma planned_insert:
  assumes "spec_ToProto spec = p"
  shows "with_tunnel (map_option spec_ToProto \<circ> m) p = map_option spec_ToProto \<circ> m(ts_Name p \<mapsto> spec)"
  using assms by (simp add: with_tunnel_def fun_eq_iff)

lemma fits_planned:
  assumes "fits (map_option spec_ToProto \<circ> m) p" and "FromProto p = Inr spec"
  shows "deps_distinct (m(ts_Name p \<mapsto> spec))" and "deps_present (m(ts_Name p \<mapsto> spec))"
    and "acyclic (dep_rel (m(ts_Name p \<mapsto> spec)))"
proof -
  note ins = planned_insert [of spec p m, OF FromProto_ToProto [OF assms(2)]]
  let ?m = "m(ts_Name p \<mapsto> spec)"
  have f: "\<forall>q \<in> ran (map_option spec_ToProto \<circ> ?m). distinct (ts_DependsOn q)"
    "Domain (dep_rel ?m) \<subseteq> dom (map_option spec_ToProto \<circ> ?m)" "acyclic (dep_rel ?m)"
    using assms(1) unfolding fits_def ins proto_deps_planned by blast+
  show "deps_distinct ?m"
    unfolding deps_distinct_def
  proof
    fix s
    assume "s \<in> ran ?m"
    then obtain n where "?m n = Some s"
      unfolding ran_def by blast
    then have "(map_option spec_ToProto \<circ> ?m) n = Some (spec_ToProto s)"
      by (simp only: comp_def option.map)
    then have "spec_ToProto s \<in> ran (map_option spec_ToProto \<circ> ?m)"
      by (rule ranI)
    then show "distinct (spec_Dependencies s)"
      using f(1) spec_ToProto_deps [of s] by metis
  qed
  show "deps_present ?m"
    using f(2) unfolding deps_present_def dom_map_option_comp .
  show "acyclic (dep_rel ?m)"
    by (rule f(3))
qed

lemma server_serves_load:
  assumes lib: "graph_library G edges" and vi: "visits_ok vi" and disk: "disk_works S"
  shows "load_contract (server_client S D Y G vi msg gone) client_tunnels (client_good S D)"
proof (unfold_locales, goal_cases)
  case (1 d p ks e d')
  then obtain sv where sv: "d = Some sv" "sv_good S D sv"
      "sv_tunnels sv = map_option spec_ToProto \<circ> pl_specs (sv_planner sv)"
    by (auto simp: client_good_def split: option.splits)
  have fit: "fits (sv_tunnels sv) p"
    using 1(2) sv(1) by (simp add: client_tunnels_def)
  then obtain spec where spec: "FromProto p = Inr spec"
    by (auto simp: fits_def)
  note tp = FromProto_ToProto [OF spec]
  have free: "sv_processes sv (ts_Name p) = None"
    using fit by (simp add: fits_def sv_tunnels_def)
  have apart: "\<not> in_conflict spec sv"
  proof
    assume "in_conflict spec sv"
    then obtain n i where n: "sv_processes sv n = Some i" "proc_keys sv i \<inter> spec_keys spec \<noteq> {}"
      by (auto simp: in_conflict_def)
    then have "spec_ToProto (pr_spec (proc sv i)) \<in> ran (sv_tunnels sv)"
      by (auto simp: ran_def sv_tunnels_def)
    then show False
      using fit n(2) tp by (auto simp: fits_def proc_keys_spec spec_keys_def)
  qed
  from Create_accepts [OF lib vi sv(2) disk spec free apart refl
      fits_planned [OF fit [unfolded sv(3)] spec], where Y = Y and ks = ks]
  obtain r sv' where run: "serve_Create S D Y G vi
        \<lparr>create_Spec = Some p, create_InlineKeys = ks, create_Persistent = False\<rparr> sv = Ret (r, sv')"
      "sv_good S D sv'" "sv_tunnels sv' = with_tunnel (sv_tunnels sv) p"
      "pl_specs (sv_planner sv') = (pl_specs (sv_planner sv))(ts_Name p \<mapsto> spec)"
    unfolding with_tunnel_def by blast
  have "sv_tunnels sv' = map_option spec_ToProto \<circ> pl_specs (sv_planner sv')"
    using run(3,4) planned_insert [OF tp] unfolding sv(3) by simp
  then show ?case
    using 1(3) sv(1) run by (auto simp: server_client_def served_def client_good_def client_tunnels_def)
next
  case (2 d nm e d')
  then obtain sv where sv: "d = Some sv" "sv_good S D sv"
      "sv_tunnels sv = map_option spec_ToProto \<circ> pl_specs (sv_planner sv)"
    by (auto simp: client_good_def split: option.splits)
  have "sv_tunnels sv nm \<noteq> None"
    using 2(2) sv(1) by (simp add: client_tunnels_def)
  from Start_keeps [OF sv(2) this, where opts = "vi_options vi (sv_tunnels sv nm)"] obtain r sv' where
    "api_Start S D (vi_options vi (sv_tunnels sv nm)) \<lparr>start_Name = nm\<rparr> sv = Ret (r, sv')" "sv_good S D sv'"
    "sv_tunnels sv' = sv_tunnels sv" "sv_planner sv' = sv_planner sv"
    by blast
  then show ?case
    using 2(3) sv by (auto simp: server_client_def served_def client_good_def client_tunnels_def)
qed

interpretation tunnelctl: load_contract "server_client mem_os D Y adj_ops sorted_visits msg gone" client_tunnels
    "client_good mem_os D"
  for D Y msg gone
  by (rule server_serves_load [OF adj_library sorted_visits_ok]) (simp add: disk_works_def)

section \<open>Loading a validated file\<close>

text \<open>A spec with its key files replaced by the names under which they are uploaded.\<close>

definition uploaded :: "'w os \<Rightarrow> 'w \<Rightarrow> TunnelSpec \<Rightarrow> TunnelSpec" where
  "uploaded S w p = (case slurpKeys S w p of Inl e \<Rightarrow> p | Inr (ks, q) \<Rightarrow> q)"

lemma uploaded_keeps:
  assumes "wf_spec s" and "slurpKeys S w (spec_ToProto s) = Inr (ks, q)"
  shows "keeps_spec (\<lambda>s. uploaded S w (spec_ToProto s)) s"
proof -
  have "\<exists>t. FromProto q = Inr t"
    using assms(1) slurp_keeps(4) [OF assms(2)] FromProto_Inr_iff unfolding wf_spec_def by metis
  then show ?thesis
    using slurp_keeps [OF assms(2)] assms(2)
    by (simp add: keeps_spec_def uploaded_def spec_ToProto_deps spec_ToProto_name)
qed

text \<open>Loading the specs of a plan, one after the other, into a daemon without tunnels.\<close>

lemma empty_daemon:
  assumes "sv_good S' D' sv" and "pl_specs (sv_planner sv) = Map.empty"
  shows "client_tunnels (Some sv) = Map.empty" and "client_good S' D' (Some sv)"
proof -
  have "sv_ok S' D' sv"
    using assms(1) by (simp add: sv_good_def)
  then have "sv_processes sv n = None" for n
    using sv_ok_registered(2) [of S' D' sv n] assms(2) by (cases "sv_processes sv n") auto
  then have "sv_tunnels sv = Map.empty"
    by (simp add: sv_tunnels_def fun_eq_iff)
  then show "client_tunnels (Some sv) = Map.empty" "client_good S' D' (Some sv)"
    using assms by (simp_all add: client_tunnels_def client_good_def fun_eq_iff)
qed

lemma load_order_registers:
  assumes lib: "graph_library G' edges'" "visits_ok vi" "disk_works S'"
    and plan: "is_plan specs order" "named specs" "deps_distinct specs" "acyclic (dep_rel specs)" "deps_present specs"
      "specs_disjoint specs"
    and wf: "\<forall>s \<in> ran specs. wf_spec s"
    and slurp: "\<And>s. s \<in> ran specs \<Longrightarrow> \<exists>ks q. slurpKeys S w (spec_ToProto s) = Inr (ks, q)"
    and empty: "sv_good S' D' sv" "pl_specs (sv_planner sv) = Map.empty"
  defines "sl \<equiv> (\<lambda>s. uploaded S w (spec_ToProto s))"
  shows "\<exists>hasError sv'. load_loop S (server_client S' D' Y' G' vi msg gone) False w order False (Some sv) =
      (hasError, Some sv') \<and> sv_good S' D' sv' \<and> sv_tunnels sv' = (\<lambda>n. map_option sl (specs n))"
proof -
  have keep: "\<forall>s \<in> ran specs. keeps_spec sl s"
  proof
    fix s
    assume s: "s \<in> ran specs"
    obtain ks q where q: "slurpKeys S w (spec_ToProto s) = Inr (ks, q)"
      using slurp [OF s] by (elim exE)
    show "keeps_spec sl s"
      unfolding sl_def by (rule uploaded_keeps [OF bspec [OF wf s] q])
  qed
  have each: "\<forall>s \<in> set order. \<exists>ks. slurpKeys S w (spec_ToProto s) = Inr (ks, sl s) \<and> ts_Name (sl s) = spec_Name s"
  proof
    fix s
    assume "s \<in> set order"
    then have s: "s \<in> ran specs"
      using plan(1) by (simp add: is_plan_def)
    obtain ks q where q: "slurpKeys S w (spec_ToProto s) = Inr (ks, q)"
      using slurp [OF s] by blast
    then show "\<exists>ks. slurpKeys S w (spec_ToProto s) = Inr (ks, sl s) \<and> ts_Name (sl s) = spec_Name s"
      using bspec [OF keep s] by (simp add: sl_def uploaded_def keeps_spec_def)
  qed
  obtain hasError d' where run: "load_loop S (server_client S' D' Y' G' vi msg gone) False w order False (Some sv) =
      (hasError, d')"
    by (rule prod.exhaust)
  have "client_good S' D' d' \<and> client_tunnels d' = (\<lambda>n. map_option sl (specs n))"
    using load_contract.load_loop_registers [OF server_serves_load [OF lib] empty_daemon(2) [OF empty] each _ run]
      plan_loads [OF plan(1-3,4,5,6) keep]
    unfolding empty_daemon(1) [OF empty] by simp
  then obtain sv' where "d' = Some sv'" "sv_good S' D' sv'" "sv_tunnels sv' = (\<lambda>n. map_option sl (specs n))"
    by (auto simp: client_good_def client_tunnels_def split: option.splits)
  with run show ?thesis by blast
qed


text \<open>A file with two tunnels, one of which needs the other and one of which has a key file.\<close>

definition demo_load_cfg :: "string \<rightharpoonup> TunnelConfig" where
  "demo_load_cfg =
    [''db'' \<mapsto> demo_tc\<lparr>tc_DependsOn := [], tc_Type := ''ssh'', tc_SSH := Some
       \<lparr>sc_User = ''u'', sc_Host = ''h'', sc_Port = 22, sc_IdentityKeyFile = ''/id'', sc_IdentityKeyRef = [],
        sc_LocalForwards = [], sc_Options = Map.empty\<rparr>\<rparr>,
     ''web'' \<mapsto> demo_tc\<lparr>tc_DependsOn := [''db'']\<rparr>]"

definition demo_load_yaml :: yaml_ops where
  "demo_load_yaml = demo_yaml\<lparr>y_unmarshal_config := (\<lambda>b. Inr demo_load_cfg)\<rparr>"

definition demo_disk :: mem where
  "demo_disk = mem0\<lparr>mem_files := [(''/t.yaml'', [1]), (''/id'', [2])]\<rparr>"

definition demo_empty :: "(mem, adj, nat) Supervisor" where
  "demo_empty = (NewSupervisor mem0 (NewPlanner adj_ops Map.empty) no_config ''/keys'' ''/tunnels'')\<lparr>sv_ctx := Some False\<rparr>"

lemma demo_empty_good: "sv_good mem_os demo_durations demo_empty"
proof -
  have "sv_ok mem_os demo_durations demo_empty"
    unfolding demo_empty_def by (rule sv_ok_frame [OF sv_ok_init]) (simp_all add: named_def)
  then show ?thesis
    by (simp add: sv_good_def demo_empty_def NewSupervisor_def)
qed

lemma demo_load_load:
  "Load mem_os demo_load_yaml demo_disk ''/t.yaml'' = Inr \<lparr>cfg_Tunnels = demo_load_cfg, cfg_filePath = ''/t.yaml''\<rparr>"
  by (simp add: Load_def demo_load_yaml_def mem_os_def demo_disk_def)

lemma demo_load_tunnels:
  assumes "demo_load_cfg n = Some t"
  shows "n = ''db'' \<and> tc_DependsOn t = [] \<and> config_keys demo_durations (n, t) = [] \<and> translatable t \<or>
    n = ''web'' \<and> tc_DependsOn t = [''db''] \<and> distinct (config_keys demo_durations (n, t)) \<and> translatable t"
  using assms
  by (auto simp: demo_load_cfg_def demo_tc_def translatable_def config_keys_def tc_ToProto_def Let_def
      LocalPortKeys_def ssh_keys_def kubectl_keys_def pb_ssh_def pb_kubectl_def pb_kubectl_forward_def to_int32_def
      split: if_splits)

lemma demo_load_valid: "valid_config demo_durations demo_load_cfg"
proof -
  have "set (config_keys demo_durations (n, t)) \<inter> set (config_keys demo_durations (n', t')) = {}"
    if "demo_load_cfg n = Some t" "demo_load_cfg n' = Some t'" "n \<noteq> n'" for n t n' t'
    using demo_load_tunnels [OF that(1)] demo_load_tunnels [OF that(2)] that(3) by auto
  moreover have "translatable t \<and> distinct (config_keys demo_durations (n, t))" if "demo_load_cfg n = Some t" for n t
    using demo_load_tunnels [OF that] by auto
  ultimately show ?thesis
    unfolding valid_config_def by blast
qed

lemma demo_load_dom: "dom demo_load_cfg = {''db'', ''web''}"
  by (auto simp: demo_load_cfg_def)

lemma demo_load_accepted:
  "validate_cmd mem_os demo_durations demo_load_yaml adj_ops sorted_config_visits ''/t.yaml'' demo_disk = Ret None"
proof -
  let ?cfg = "\<lparr>cfg_Tunnels = demo_load_cfg, cfg_filePath = ''/t.yaml''\<rparr>"
  have fin: "finite (dom demo_load_cfg)"
    by (simp add: demo_load_dom)
  have deps: "\<forall>t \<in> ran demo_load_cfg. distinct (tc_DependsOn t)"
    using demo_load_tunnels by (fastforce simp: ran_def)
  show ?thesis
  proof (rule valid_plannable [OF demo_load_valid fin deps])
    fix specs
    assume ts: "\<And>es. enumerates es demo_load_cfg \<Longrightarrow> ToSpecs demo_durations es = Inr specs"
      and nm: "named specs" and fs: "finite (dom specs)" and dist: "deps_distinct specs"
      and dom: "dom specs = {n. \<exists>t. demo_load_cfg n = Some t \<and> tc_Enabled t}"
      and tp: "\<And>n s. specs n = Some s \<Longrightarrow> tc_ToProto demo_durations (the (demo_load_cfg n)) n = Inr (spec_ToProto s)"
    have dm: "dom specs = {''db'', ''web''}"
      unfolding dom by (auto simp: demo_load_cfg_def demo_tc_def)
    have rel: "dep_rel specs \<subseteq> {(''db'', ''web'')}"
    proof
      fix x
      assume "x \<in> dep_rel specs"
      then obtain d n s where x: "x = (d, n)" "specs n = Some s" "d \<in> set (spec_Dependencies s)"
        by (auto simp: dep_rel_def)
      have n: "n = ''db'' \<or> n = ''web''"
        using x(2) dm by blast
      then obtain t where t: "demo_load_cfg n = Some t"
        using demo_load_dom by blast
      have "spec_Dependencies s = tc_DependsOn t"
        using tc_ToProto_name [OF tp [OF x(2)]] t spec_ToProto_deps [of s] by simp
      then show "x \<in> {(''db'', ''web'')}"
        using x demo_load_tunnels [OF t] by auto
    qed
    have "acyclic {(''db'', ''web'')}"
      by (simp add: acyclic_def trancl_insert)
    then have "acyclic (dep_rel specs)"
      by (rule acyclic_subset [OF _ rel])
    moreover have "deps_present specs"
      unfolding deps_present_def dm using rel by blast
    ultimately have ok: "deps_present specs \<and> acyclic (dep_rel specs)"
      by blast
    have c: "finite (dom (cfg_Tunnels ?cfg))" "valid_config demo_durations (cfg_Tunnels ?cfg)"
      using fin demo_load_valid by simp_all
    have ts': "ToSpecs demo_durations es = Inr specs" if "enumerates es (cfg_Tunnels ?cfg)" for es
      by (rule ts) (use that in simp)
    from validate_verdict [OF adj_library sorted_config_visits_ok demo_load_load c ts' nm dist fs] ok
    show ?thesis by (elim exE conjE) simp
  qed
qed

lemma demo_load_slurps:
  assumes "demo_load_cfg n = Some t" and "tc_ToProto demo_durations t n = Inr p"
  shows "\<exists>ks q. slurpKeys mem_os demo_disk p = Inr (ks, q)"
  using assms
  by (auto simp: demo_load_cfg_def demo_tc_def tc_ToProto_def Let_def slurpKeys_def readLocalKey_def expand_home_def
      mem_os_def demo_disk_def pb_ssh_def pb_kubectl_def split: if_splits)


end
