(* ===== verification/Client_Calls.thy ===== *)
theory Client_Calls
  imports Server_Calls Daemon_Cmd
begin

text \<open>
  \<open>cmd/tunnelctl/cmd\<close>: the commands of the client that make one call, and what \<open>status\<close>,
  \<open>wait\<close>, \<open>logs\<close>, \<open>key list\<close> and the completion of names print of the answer.
\<close>

section \<open>The calls\<close>

text \<open>
  \<open>'c\<close> is the state of the daemon behind the calls. A stream of log lines is what was received
  and how it ended: \<open>None\<close> as long as it has not, \<open>Some None\<close> at its end, or an error.
\<close>

record 'c calls =
  ca_Start :: "'c \<Rightarrow> StartRequest \<Rightarrow> err option \<times> 'c"
  ca_Stop :: "'c \<Rightarrow> StopRequest \<Rightarrow> err option \<times> 'c"
  ca_Enable :: "'c \<Rightarrow> EnableRequest \<Rightarrow> err option \<times> 'c"
  ca_Disable :: "'c \<Rightarrow> DisableRequest \<Rightarrow> err option \<times> 'c"
  ca_Delete :: "'c \<Rightarrow> DeleteRequest \<Rightarrow> err option \<times> 'c"
  ca_DeleteKey :: "'c \<Rightarrow> DeleteKeyRequest \<Rightarrow> err option \<times> 'c"
  ca_ListKeys :: "'c \<Rightarrow> (err + ListKeysResponse) \<times> 'c"
  ca_Status :: "'c \<Rightarrow> StatusRequest \<Rightarrow> (err + StatusResponse) \<times> 'c"
  ca_Wait :: "'c \<Rightarrow> WaitRequest \<Rightarrow> (err + WaitResponse) \<times> 'c"
  ca_Logs :: "'c \<Rightarrow> LogsRequest \<Rightarrow> (err + LogsResponse list \<times> err option option) \<times> 'c"

text \<open>What a command prints, and the message of the fatal error with which it may end.\<close>

type_synonym printed = "string list \<times> err option"

definition one_call :: "string \<Rightarrow> string list \<Rightarrow> err option \<times> 'c \<Rightarrow> printed \<times> 'c" where
  "one_call what done r =
    (case r of (Some e, c) \<Rightarrow> (([], Some (what @ e)), c) | (None, c) \<Rightarrow> ((done, None), c))"

definition start_cmd :: "'c calls \<Rightarrow> string \<Rightarrow> 'c \<Rightarrow> printed \<times> 'c" where
  "start_cmd C name c =
    one_call ''could not start: '' [''Tunnel '' @ quote name @ '' start signal sent''] (ca_Start C c \<lparr>start_Name = name\<rparr>)"

definition stop_cmd :: "'c calls \<Rightarrow> string \<Rightarrow> 'c \<Rightarrow> printed \<times> 'c" where
  "stop_cmd C name c =
    one_call ''could not stop: '' [''Tunnel '' @ quote name @ '' stop signal sent''] (ca_Stop C c \<lparr>stop_Name = name\<rparr>)"

definition enable_cmd :: "'c calls \<Rightarrow> string \<Rightarrow> 'c \<Rightarrow> printed \<times> 'c" where
  "enable_cmd C name c =
    one_call ''could not enable tunnel: '' [''Tunnel '' @ quote name @ '' enabled and starting'']
      (ca_Enable C c \<lparr>enable_Name = name\<rparr>)"

definition disable_cmd :: "'c calls \<Rightarrow> string \<Rightarrow> 'c \<Rightarrow> printed \<times> 'c" where
  "disable_cmd C name c =
    one_call ''could not disable tunnel: '' [''Tunnel '' @ quote name @ '' disabled and stopping'']
      (ca_Disable C c \<lparr>disable_Name = name\<rparr>)"

definition delete_cmd :: "'c calls \<Rightarrow> string \<Rightarrow> 'c \<Rightarrow> printed \<times> 'c" where
  "delete_cmd C name c =
    one_call ''could not delete: '' [''Tunnel '' @ quote name @ '' deleted''] (ca_Delete C c \<lparr>delete_Name = name\<rparr>)"

definition key_delete_cmd :: "'c calls \<Rightarrow> string \<Rightarrow> 'c \<Rightarrow> printed \<times> 'c" where
  "key_delete_cmd C name c =
    one_call ''failed to delete key: '' [''Key '' @ quote name @ '' deleted successfully'']
      (ca_DeleteKey C c \<lparr>delkey_Name = name\<rparr>)"

definition key_list_cmd :: "'c calls \<Rightarrow> 'c \<Rightarrow> printed \<times> 'c" where
  "key_list_cmd C c =
    (case ca_ListKeys C c of
       (Inl e, c') \<Rightarrow> (([], Some (''failed to list keys: '' @ e)), c')
     | (Inr resp, c') \<Rightarrow> ((''Managed Keys:'' # map (\<lambda>n. ''- '' @ n) (keys_Names resp), None), c'))"

section \<open>Names to complete\<close>

definition tunnelNameCompletion :: "'c calls \<Rightarrow> 'c \<Rightarrow> string list \<times> 'c" where
  "tunnelNameCompletion C c =
    (case ca_Status C c \<lparr>sr_Name = []\<rparr> of
       (Inl e, c') \<Rightarrow> ([], c') | (Inr resp, c') \<Rightarrow> (map st_Name (sr_Tunnels resp), c'))"

definition keyNameCompletion :: "'c calls \<Rightarrow> 'c \<Rightarrow> string list \<times> 'c" where
  "keyNameCompletion C c =
    (case ca_ListKeys C c of (Inl e, c') \<Rightarrow> ([], c') | (Inr resp, c') \<Rightarrow> (keys_Names resp, c'))"

section \<open>\<open>wait\<close> and \<open>logs\<close>\<close>

text \<open>The bytes of the arrow.\<close>

definition arrow :: string where
  "arrow = [CHR 0xE2, CHR 0x86, CHR 0x92]"

definition wait_forward :: "ResolvedForward \<Rightarrow> string" where
  "wait_forward f =
    ''  '' @ rf_LocalAddress f @ '':'' @ dec32 (rf_ActualPort f) @ '' '' @ arrow @ '' :'' @ dec32 (rf_RemotePort f) @
    (if rf_ConfiguredPort f = 0 then '' (dynamic)'' else [])"

definition wait_cmd :: "'c calls \<Rightarrow> string \<Rightarrow> int64 \<Rightarrow> 'c \<Rightarrow> printed \<times> 'c" where
  "wait_cmd C name timeout c =
    (let first = ''Waiting for tunnel '' @ quote name @ '' (timeout '' @ int_dec (sint timeout) @ ''s)...'' in
     case ca_Wait C c \<lparr>wait_Name = name, wait_TimeoutSeconds = timeout\<rparr> of
       (Inl e, c') \<Rightarrow> (([first], Some (''wait failed: '' @ e)), c')
     | (Inr resp, c') \<Rightarrow>
        ((first # (''Tunnel '' @ quote name @ '' is '' @ wait_Status resp) #
          map wait_forward (wait_ResolvedForwards resp), None), c'))"

text \<open>The lines printed so far, and whether the command has ended, and with which error.\<close>

definition logs_cmd :: "'c calls \<Rightarrow> string \<Rightarrow> bool \<Rightarrow> 'c \<Rightarrow> (string list \<times> err option option) \<times> 'c" where
  "logs_cmd C name follow c =
    (case ca_Logs C c \<lparr>lr_Name = name, lr_Follow = follow\<rparr> of
       (Inl e, c') \<Rightarrow> (([], Some (Some (''could not get logs: '' @ e))), c')
     | (Inr (lines, fin), c') \<Rightarrow>
        ((map lr_Line lines, map_option (map_option (\<lambda>e. ''error receiving logs: '' @ e)) fin), c'))"

section \<open>\<open>status\<close>\<close>

definition type_column :: "TunnelStatus \<Rightarrow> string" where
  "type_column t =
    (case st_Spec t of
       None \<Rightarrow> ''unknown''
     | Some p \<Rightarrow>
        if GetSsh p \<noteq> None then ''ssh'' else if GetKubectl p \<noteq> None then ''kubectl'' else ''unknown'')"

text \<open>A dynamic port is marked with a star.\<close>

definition port_part :: "ResolvedForward \<Rightarrow> string" where
  "port_part f =
    rf_LocalAddress f @ '':'' @ dec32 (rf_ActualPort f) @ (if rf_ConfiguredPort f = 0 then ''*'' else [])"

fun comma_joined :: "string list \<Rightarrow> string" where
  "comma_joined [] = []"
| "comma_joined [x] = x"
| "comma_joined (x # xs) = x @ '','' @ comma_joined xs"

text \<open>The verb \<open>%-\<close> with a width, which counts characters: these are the bytes of an ASCII string.\<close>

definition padded :: "nat \<Rightarrow> string \<Rightarrow> string" where
  "padded n s = s @ replicate (n - length s) CHR '' ''"

definition table_row :: "string \<Rightarrow> string \<Rightarrow> string \<Rightarrow> string \<Rightarrow> string \<Rightarrow> string \<Rightarrow> string" where
  "table_row name ty st ports e deps =
    padded 20 name @ '' '' @ padded 10 ty @ '' '' @ padded 10 st @ '' '' @ padded 25 ports @ '' '' @
    padded 20 e @ '' '' @ deps"

definition status_row :: "TunnelStatus \<Rightarrow> string" where
  "status_row t =
    table_row (st_Name t) (type_column t) (st_Status t) (comma_joined (map port_part (st_ResolvedForwards t)))
      (st_Error t) (''['' @ spaced_names (case st_Spec t of None \<Rightarrow> [] | Some p \<Rightarrow> ts_DependsOn p) @ '']'')"

text \<open>\<open>json\<close> is the text that \<open>protojson\<close> makes of a spec.\<close>

definition status_cmd :: "(TunnelSpec option \<Rightarrow> string) \<Rightarrow> 'c calls \<Rightarrow> string \<Rightarrow> 'c \<Rightarrow> printed \<times> 'c" where
  "status_cmd json C name c =
    (case ca_Status C c \<lparr>sr_Name = name\<rparr> of
       (Inl e, c') \<Rightarrow> (([], Some (''could not get status: '' @ e)), c')
     | (Inr resp, c') \<Rightarrow>
        (if name \<noteq> [] \<and> length (sr_Tunnels resp) = 1
         then (let t = hd (sr_Tunnels resp) in
           (([''Tunnel: '' @ st_Name t, ''Status: '' @ st_Status t] @
             (if st_Error t \<noteq> [] then [''Error:  '' @ st_Error t] else []) @
             [''Spec:'', json (st_Spec t)], None), c'))
         else ((table_row ''NAME'' ''TYPE'' ''STATUS'' ''PORTS'' ''ERROR'' ''DEPENDENCIES'' #
             map status_row (sr_Tunnels resp), None), c')))"

section \<open>What is shown of a daemon\<close>

text \<open>\<open>C\<close> reads the status of the supervisor \<open>sv\<close>, whose tunnels are visited in the order \<open>es\<close>.\<close>

definition reads_status :: "'c calls \<Rightarrow> (rpc_error \<Rightarrow> err) \<Rightarrow> (string \<times> nat) list \<Rightarrow> ('w, 'g, 'i) Supervisor \<Rightarrow> 'c \<Rightarrow> bool" where
  "reads_status C msg es sv c \<longleftrightarrow> (\<forall>req. ca_Status C c req =
     (case api_Status es sv req of Inl e \<Rightarrow> (Inl (msg e), c) | Inr resp \<Rightarrow> (Inr resp, c)))"

definition mapping_part :: "PortMapping \<Rightarrow> string" where
  "mapping_part m = pm_LocalAddress m @ '':'' @ dec32 (pm_ActualPort m) @ (if pm_ConfiguredPort m = 0 then ''*'' else [])"

lemma type_column_spec:
  assumes "pr_spec p = s" and "wf_spec s"
  shows "type_column (to_status (tunnel_info nm p)) = spec_Type s"
  using assms
  by (cases s) (auto simp: type_column_def to_status_def tunnel_info_def wf_spec_def FromProto_def
      SSHSpec_ToProto_def KubectlSpec_ToProto_def SSHSpec_Type_def KubectlSpec_Type_def
      split: option.splits tunnel_type.splits)

lemma status_row_spec:
  assumes "wf_spec (pr_spec p)"
  shows "status_row (to_status (tunnel_info nm p)) =
    table_row nm (spec_Type (pr_spec p)) (status_string (pr_status p))
      (comma_joined (map mapping_part (pr_portMappings p))) (case pr_lastError p of None \<Rightarrow> [] | Some e \<Rightarrow> e)
      (''['' @ spaced_names (spec_Dependencies (pr_spec p)) @ '']'')"
proof -
  have "ts_DependsOn (spec_ToProto (pr_spec p)) = spec_Dependencies (pr_spec p)"
    by (cases "pr_spec p") (simp_all add: SSHSpec_ToProto_def KubectlSpec_ToProto_def SSHSpec_Dependencies_def
        KubectlSpec_Dependencies_def)
  then show ?thesis
    using type_column_spec [OF refl assms]
    by (simp add: status_row_def to_status_def tunnel_info_def toProtoResolvedForwards_def port_part_def
        mapping_part_def [abs_def] comp_def)
qed

text \<open>
  What the client shows of a daemon in a good state. \<open>status\<close> prints one row for every
  registered tunnel, with the type, dependencies, status and last error of its process and the
  addresses it listens on, a star at those whose port was chosen by the system; the type is
  never unknown. With the name of a registered tunnel it prints that one, and with any other
  name it ends with the daemon's error. Completion offers exactly the registered names.
\<close>

theorem status_shows_tunnels:
  assumes "sv_good S D sv" and "enumerates es (sv_processes sv)" and "reads_status C msg es sv c"
  shows "status_cmd json C [] c = ((table_row ''NAME'' ''TYPE'' ''STATUS'' ''PORTS'' ''ERROR'' ''DEPENDENCIES'' #
      map (\<lambda>(n, i). let p = proc sv i in
        table_row n (spec_Type (pr_spec p)) (status_string (pr_status p))
          (comma_joined (map mapping_part (pr_portMappings p))) (case pr_lastError p of None \<Rightarrow> [] | Some e \<Rightarrow> e)
          (''['' @ spaced_names (spec_Dependencies (pr_spec p)) @ '']'')) es, None), c) \<and>
    (\<exists>ns. tunnelNameCompletion C c = (ns, c) \<and> distinct ns \<and> set ns = dom (sv_processes sv)) \<and>
    (\<forall>nm i. nm \<noteq> [] \<and> sv_processes sv nm = Some i \<longrightarrow> (\<exists>es. status_cmd json C nm c =
       (((''Tunnel: '' @ nm) # (''Status: '' @ status_string (pr_status (proc sv i))) #
         es @ [''Spec:'', json (Some (spec_ToProto (pr_spec (proc sv i))))], None), c) \<and>
       (es \<noteq> [] \<longleftrightarrow> pr_lastError (proc sv i) \<noteq> None \<and> pr_lastError (proc sv i) \<noteq> Some []))) \<and>
    (\<forall>nm. nm \<noteq> [] \<and> sv_processes sv nm = None \<longrightarrow> (\<exists>e. status_cmd json C nm c = (([], Some e), c)))"
proof (intro conjI allI impI, goal_cases)
  case 1
  have all: "ca_Status C c \<lparr>sr_Name = []\<rparr> = (Inr \<lparr>sr_Tunnels = map (\<lambda>(n, i). to_status (tunnel_info n (proc sv i))) es\<rparr>, c)"
    using assms(3) by (simp add: reads_status_def api_Status_def ListTunnels_def comp_def split_def)
  have wf: "wf_spec (pr_spec (proc sv i))" if "(n, i) \<in> set es" for n i
  proof -
    have "sv_processes sv n = Some i"
      using that assms(2) enumerates_mem by metis
    then show ?thesis
      using assms(1) sv_ok_registered(1) [of S D sv n i] by (simp add: sv_good_def proc_def)
  qed
  have "map (\<lambda>x. status_row (case x of (n, i) \<Rightarrow> to_status (tunnel_info n (proc sv i)))) es =
      map (\<lambda>(n, i). let p = proc sv i in
        table_row n (spec_Type (pr_spec p)) (status_string (pr_status p))
          (comma_joined (map mapping_part (pr_portMappings p))) (case pr_lastError p of None \<Rightarrow> [] | Some e \<Rightarrow> e)
          (''['' @ spaced_names (spec_Dependencies (pr_spec p)) @ '']'')) es"
    by (rule map_cong [OF refl]) (auto simp: Let_def status_row_spec [OF wf])
  then show ?case
    using all by (simp add: status_cmd_def comp_def)
next
  case 2
  have "tunnelNameCompletion C c = (map fst es, c)"
    using assms(3) by (simp add: tunnelNameCompletion_def reads_status_def api_Status_def ListTunnels_def comp_def
        split_def to_status_def tunnel_info_def)
  moreover have "set (map fst es) = dom (sv_processes sv)"
    using enumerates_mem [OF assms(2)] by force
  ultimately show ?case
    using enumerates_distinct [OF assms(2)] by blast
next
  case (3 nm i)
  then have "ca_Status C c \<lparr>sr_Name = nm\<rparr> = (Inr \<lparr>sr_Tunnels = [to_status (tunnel_info nm (proc sv i))]\<rparr>, c)"
    using assms(3) Status_cases [OF assms(2)] by (simp add: reads_status_def)
  then show ?case
    using 3 by (intro exI [of _ "if st_Error (to_status (tunnel_info nm (proc sv i))) \<noteq> []
        then [''Error:  '' @ st_Error (to_status (tunnel_info nm (proc sv i)))] else []"])
      (auto simp: status_cmd_def to_status_def tunnel_info_def split: option.split)
next
  case (4 nm)
  then show ?case
    using assms(3) Status_cases [OF assms(2)] by (simp add: reads_status_def status_cmd_def)
qed

definition demo_calls :: "(mem, adj, nat) Supervisor calls" where
  "demo_calls =
    \<lparr>ca_Start = \<lambda>c r. (None, c), ca_Stop = \<lambda>c r. (None, c), ca_Enable = \<lambda>c r. (None, c), ca_Disable = \<lambda>c r. (None, c),
     ca_Delete = \<lambda>c r. (None, c), ca_DeleteKey = \<lambda>c r. (None, c), ca_ListKeys = \<lambda>c. (Inl [], c),
     ca_Status = \<lambda>c req. (case api_Status (sorted_entries (sv_processes c)) c req of
        Inl e \<Rightarrow> (Inl ''rpc'', c) | Inr resp \<Rightarrow> (Inr resp, c)),
     ca_Wait = \<lambda>c r. (Inl [], c), ca_Logs = \<lambda>c r. (Inl [], c)\<rparr>"

lemma status_shows_tunnels_witness:
  "\<exists>sv. sv_good mem_os demo_durations sv \<and> sv_processes sv = [''bastion'' \<mapsto> 0] \<and>
    (\<exists>es. status_cmd (\<lambda>p. ''{}'') demo_calls ''bastion'' sv =
       (([''Tunnel: bastion'', ''Status: stopped''] @ es @ [''Spec:'', ''{}''], None), sv)) \<and>
    (\<exists>e. status_cmd (\<lambda>p. ''{}'') demo_calls ''web'' sv = (([], Some e), sv))"
proof -
  obtain sv0 :: "(mem, adj, nat) Supervisor" where sv0:
    "sv_reachable mem_os demo_durations demo_yaml adj_ops demo_scale sv0" "sv_processes sv0 = [''bastion'' \<mapsto> 0]"
    "sv_heap sv0 = [NewProcess mem_os demo_bastion ''/keys'']" "pl_specs (sv_planner sv0) = pl_specs demo_planner"
    using demo_registered by blast
  define sv where "sv = sv0\<lparr>sv_ctx := Some False\<rparr>"
  have "sv_ok mem_os demo_durations sv"
    unfolding sv_def by (rule sv_ok_frame [OF sv_reachable_ok [OF adj_library sv0(1)]]) simp_all
  moreover have "wf_spec demo_bastion"
    by (simp add: wf_spec_def demo_bastion_def demo_spec_def FromProto_def SSHSpec_ToProto_def)
  moreover have "finite (dom (pl_specs demo_planner))"
    using enumerates_finite [OF demo_enumerates] by simp
  ultimately have good: "sv_good mem_os demo_durations sv"
    by (simp add: sv_good_def sv_def sv0 NewProcess_def)
  have p: "sv_processes sv = [''bastion'' \<mapsto> 0]" "pr_status (proc sv 0) = StatusStopped"
    by (simp_all add: sv_def sv0 proc_def NewProcess_def)
  have en: "enumerates (sorted_entries (sv_processes sv)) (sv_processes sv)"
    by (rule sorted_entries_enumerates) (simp add: p)
  have reads: "reads_status demo_calls (\<lambda>e. ''rpc'') (sorted_entries (sv_processes sv)) sv sv"
    by (simp add: reads_status_def demo_calls_def)
  from status_shows_tunnels [OF good en reads, of "\<lambda>p. ''{}''"] good p
  show ?thesis
    by (intro exI [of _ sv]) fastforce
qed

end
