(* ===== verification/Concurrent_Start.thy ===== *)
theory Concurrent_Start
  imports Races
begin

text \<open>
  \<open>Process.Start\<close> is not one critical section: it checks the status and records the wish under
  the lock, releases it, and only then makes the child and sets the status. Two callers that
  do not hold the supervisor's lock (\<open>StartTunnel\<close>, \<open>EnableTunnel\<close>, the restart after a failure)
  can both pass the check.
\<close>

section \<open>The two halves of Start\<close>

text \<open>Up to the release of the lock: an error, or the process as the other callers see it.\<close>

definition start_guard :: "Process \<Rightarrow> err option \<times> Process" where
  "start_guard p =
    (if pr_status p \<noteq> StatusStopped \<and> pr_status p \<noteq> StatusFailed
     then (Some ''process already running'', p)
     else (None, setExpectedState DesiredRunning p))"

text \<open>From there on, on whatever the process has become meanwhile.\<close>

definition start_rest :: "'w os \<Rightarrow> ctx \<Rightarrow> (string \<times> string) list \<Rightarrow> 'w \<Rightarrow> Process \<Rightarrow>
    (err option \<times> 'w \<times> Process) go" where
  "start_rest S ctx opts w p =
    (case os_mkdirall S w (Dir (pr_logPath p)) PermDirPublic of
       (Some e, w1) \<Rightarrow> Ret (Some (''failed to create log directory: '' @ e), w1, p)
     | (None, w1) \<Rightarrow>
        (case os_openappend S w1 (pr_logPath p) PermFilePublic of
           (Some e, w2) \<Rightarrow> Ret (Some (''failed to open log file: '' @ e), w2, p)
         | (None, w2) \<Rightarrow>
            (case ctx of
               None \<Rightarrow> Panic
             | Some d \<Rightarrow>
                 start_build S d opts w2 (length (pr_runs p))
                   (p\<lparr>pr_runs := pr_runs p @ [new_run d], pr_cancel := Some (length (pr_runs p))\<rparr>))))"

text \<open>Without another caller in between, the halves are \<open>Start\<close>.\<close>

lemma Start_halves:
  "Start S ctx opts w p =
    (case start_guard p of (Some e, q) \<Rightarrow> Ret (Some e, w, q) | (None, q) \<Rightarrow> start_rest S ctx opts w q)"
  by (simp add: Start_def start_guard_def start_rest_def setExpectedState_def Let_def
      cong: prod.case_cong option.case_cong)

lemma start_rest_ok:
  assumes ok: "start_ok S d opts w p argv ms w'" and want: "pr_expectedState p = DesiredRunning"
  shows "start_rest S (Some d) opts w p = Ret (None, w', started p d argv ms)"
proof -
  from ok obtain w1 w2 w3 proto rs w4 w5 where
    mk: "os_mkdirall S w (Dir (pr_logPath p)) PermDirPublic = (None, w1)" and
    op: "os_openappend S w1 (pr_logPath p) PermFilePublic = (None, w2)" and
    res: "ResolvePortsInProto S w2 (spec_ToProto (pr_spec p)) = (Inr (proto, ms), w3)" and
    fp: "FromProto proto = Inr rs" and bc: "spec_BuildCommand S w3 (pr_keyDir p) opts rs = Ret (Inr argv)" and
    pipes: "os_pipe S w3 = (None, w4)" "os_pipe S w4 = (None, w5)" and d: "\<not> d" and
    sp: "os_spawn S w5 (fst argv) (snd argv) = (None, w')"
    unfolding start_ok_def by blast
  let ?p = "p\<lparr>pr_runs := pr_runs p @ [new_run d], pr_cancel := Some (length (pr_runs p))\<rparr>"
  have "start_rest S (Some d) opts w p = start_build S d opts w2 (length (pr_runs p)) ?p"
    by (simp add: start_rest_def mk op)
  also have "\<dots> = Ret (start_launch S d w3 (length (pr_runs p)) argv (?p\<lparr>pr_portMappings := ms\<rparr>))"
    by (simp add: start_build_def res fp bc)
  also have "start_launch S d w3 (length (pr_runs p)) argv (?p\<lparr>pr_portMappings := ms\<rparr>) = (None, w', started p d argv ms)"
    using d want by (simp add: start_launch_def spawn_def pipes sp started_def Let_def go_defs new_run_def list_update_append)
  finally show ?thesis .
qed

lemma start_ok_started: "start_ok S d opts w (started p d' argv' ms') argv ms v = start_ok S d opts w p argv ms v"
  by (simp add: start_ok_def started_def)

section \<open>A child that nothing reaches\<close>

lemma nth_update_any: "xs[i := y] ! n = (if i = n \<and> i < length xs then y else xs ! n)"
  by (cases "i < length xs") (auto simp: nth_list_update list_update_beyond)

lemma child_step_spares:
  assumes "child_step e p = Some p'" and "e \<noteq> ChildExits n" and "rn_child (pr_runs p ! n) = Alive"
  shows "rn_child (pr_runs p' ! n) = Alive \<and> rn_done (pr_runs p' ! n) = rn_done (pr_runs p ! n)"
  using assms
  by (cases e) (auto simp: upd_run_def reap_def go_defs nth_update_any split: if_splits child.splits option.splits)

lemma child_events_spare:
  assumes "\<forall>e \<in> set es. e \<noteq> ChildExits n" and "rn_child (pr_runs p ! n) = Alive"
  shows "rn_child (pr_runs (child_events es p) ! n) = Alive \<and>
    rn_done (pr_runs (child_events es p) ! n) = rn_done (pr_runs p ! n)"
  using assms
proof (induction es arbitrary: p)
  case (Cons e es)
  then show ?case
    using child_step_spares [of e p _ n] by (auto split: option.split)
qed simp

lemma stop_select_spares:
  "rn_child (pr_runs (snd (stop_select D env p)) ! n) = rn_child (pr_runs p ! n) \<and>
   rn_done (pr_runs (snd (stop_select D env p)) ! n) = rn_done (pr_runs p ! n)"
  by (auto simp: stop_select_def receive_def upd_run_def nth_update_any split: option.splits list.splits if_splits)

text \<open>\<open>Stop\<close> cancels one run only: the one whose cancel function was stored last.\<close>

lemma Stop_spares:
  assumes "pr_cancel p = Some c" and "c \<noteq> n" and "rn_child (pr_runs p ! n) = Alive"
    and "\<forall>e \<in> set (se_events env). e \<noteq> ChildExits n"
  shows "rn_child (pr_runs (snd (Stop D env p)) ! n) = Alive \<and>
    rn_done (pr_runs (snd (Stop D env p)) ! n) = rn_done (pr_runs p ! n)"
proof -
  have b: "pr_runs (stop_begin p) ! n = pr_runs p ! n"
    using assms(1,2) by (simp add: stop_begin_def Let_def go_defs)
  then have "rn_child (pr_runs (child_events (se_events env) (stop_begin p)) ! n) = Alive \<and>
      rn_done (pr_runs (child_events (se_events env) (stop_begin p)) ! n) = rn_done (pr_runs p ! n)"
    using child_events_spare [OF assms(4), of "stop_begin p"] assms(3) by simp
  then show ?thesis
    using b assms(3) stop_select_spares by (simp add: Stop_def Let_def)
qed

section \<open>Two starts at once\<close>

text \<open>The exit of the first child, after the second start: it is taken for an exit of the second.\<close>

lemma first_exit_misreported:
  fixes p :: Process and argv argv' :: cmd and ms ms' :: "PortMapping list"
  defines "n \<equiv> length (pr_runs p)"
  defines "q \<equiv> started (started p False argv ms) False argv' ms'"
  shows "\<exists>q3 q4. child_events [ChildExits n, WaiterReaps n e, WaiterSends n] q = q3 \<and>
    pr_status q3 = (case e of None \<Rightarrow> StatusStopped | Some m \<Rightarrow> StatusFailed) \<and>
    rn_child (pr_runs q3 ! Suc n) = Alive \<and> receive q3 = Some (e, q4)"
proof -
  let ?r = "\<lambda>c. \<lparr>rn_done = False, rn_cmd = argv, rn_child = c, rn_ch = []\<rparr>"
  let ?s = "\<lambda>c ch. q\<lparr>pr_runs := pr_runs p @ [?r c, \<lparr>rn_done = False, rn_cmd = argv', rn_child = Alive, rn_ch = ch\<rparr>]\<rparr>"
  have f: "pr_waitCh q = Some (Suc n)" "pr_cmd q = Some (Suc n)" "length (pr_runs q) = Suc (Suc n)"
    by (simp_all add: q_def n_def started_def)
  have runs: "pr_runs q = pr_runs p @ [?r Alive, \<lparr>rn_done = False, rn_cmd = argv', rn_child = Alive, rn_ch = []\<rparr>]"
    by (simp add: q_def started_def)
  have 1: "child_step (ChildExits n) q = Some (?s Dead [])"
    using f runs by (simp add: upd_run_def n_def nth_append list_update_append)
  have 2: "child_step (WaiterReaps n e) (?s Dead []) = Some (reap e (?s (Reaped e) []))"
    using f by (cases e) (simp_all add: reap_def go_defs n_def nth_append list_update_append)
  have 3: "child_step (WaiterSends n) (reap e (?s (Reaped e) [])) = Some (reap e (?s Notified [e]))"
    using f by (cases e) (simp_all add: reap_def go_defs n_def nth_append list_update_append)
  have "receive (reap e (?s Notified [e])) \<noteq> None \<and> fst (the (receive (reap e (?s Notified [e])))) = e"
    using f by (cases e) (simp_all add: receive_def reap_def go_defs n_def nth_append)
  then obtain q4 where "receive (reap e (?s Notified [e])) = Some (e, q4)"
    by (cases "receive (reap e (?s Notified [e]))") auto
  moreover have "pr_status (reap e (?s Notified [e])) = (case e of None \<Rightarrow> StatusStopped | Some m \<Rightarrow> StatusFailed)"
    "rn_child (pr_runs (reap e (?s Notified [e])) ! Suc n) = Alive"
    by (cases e; simp add: reap_def go_defs n_def nth_append)+
  ultimately show ?thesis
    by (intro exI [of _ "reap e (?s Notified [e])"] exI [of _ q4]) (simp only: child_events.simps 1 2 3 option.case)
qed

text \<open>
  C24: Two starts at once leave a child that nobody can stop. When two callers of \<open>Start\<close> on a
  stopped or failed process are both past the check, and the system can start it twice, both
  calls succeed, although the second would have been refused after the first had returned, and
  two children run the tunnel. From then on no \<open>Stop\<close> cancels the first, whatever happens while
  it waits: the cancel function of that child is lost. And when the first child exits by itself,
  the process is shown as stopped or failed and a monitor is told of the exit while the second
  child lives, so that a restart passes the check again and makes a third.
\<close>

theorem concurrent_starts_leak_child:
  fixes p :: Process
  defines "n \<equiv> length (pr_runs p)"
  assumes "idle p" and "start_ok S False opts w p argv ms w1" and "start_ok S False opts' w1 p argv' ms' w2"
  shows "\<exists>q q1 q2. start_guard p = (None, q) \<and> start_guard q = (None, q) \<and>
    start_rest S (Some False) opts w q = Ret (None, w1, q1) \<and>
    Start S (Some False) opts' w1 q1 = Ret (Some ''process already running'', w1, q1) \<and>
    start_rest S (Some False) opts' w1 q1 = Ret (None, w2, q2) \<and>
    rn_child (pr_runs q2 ! n) = Alive \<and> rn_child (pr_runs q2 ! Suc n) = Alive \<and>
    (\<forall>D env. ChildExits n \<notin> set (se_events env) \<longrightarrow>
      rn_child (pr_runs (snd (Stop D env q2)) ! n) = Alive \<and> \<not> rn_done (pr_runs (snd (Stop D env q2)) ! n)) \<and>
    (\<forall>e. \<exists>q3 q4. child_events [ChildExits n, WaiterReaps n e, WaiterSends n] q2 = q3 \<and>
      (pr_status q3 = StatusStopped \<or> pr_status q3 = StatusFailed) \<and> rn_child (pr_runs q3 ! Suc n) = Alive \<and>
      receive q3 = Some (e, q4) \<and> fst (start_guard q3) = None)"
proof -
  let ?q = "setExpectedState DesiredRunning p"
  let ?q1 = "started ?q False argv ms"
  let ?q2 = "started ?q1 False argv' ms'"
  have n: "length (pr_runs ?q) = n"
    by (simp add: n_def setExpectedState_def)
  have ok: "start_ok S False opts w ?q argv ms w1" "start_ok S False opts' w1 ?q argv' ms' w2"
    using assms(3,4) by (simp_all add: start_ok_def setExpectedState_def)
  have guard: "start_guard p = (None, ?q)" "start_guard ?q = (None, ?q)"
    using assms(2) by (auto simp: start_guard_def setExpectedState_def)
  have want: "pr_expectedState ?q = DesiredRunning" "pr_expectedState ?q1 = DesiredRunning"
    by (simp_all add: setExpectedState_def started_def)
  have rest: "start_rest S (Some False) opts w ?q = Ret (None, w1, ?q1)"
    "start_rest S (Some False) opts' w1 ?q1 = Ret (None, w2, ?q2)"
    using start_rest_ok [OF ok(1) want(1)] start_rest_ok [OF _ want(2)] ok(2) by (simp_all add: start_ok_started)
  have refused: "Start S (Some False) opts' w1 ?q1 = Ret (Some ''process already running'', w1, ?q1)"
    by (rule Start_busy) simp
  have runs: "rn_child (pr_runs ?q2 ! n) = Alive" "rn_child (pr_runs ?q2 ! Suc n) = Alive"
    "\<not> rn_done (pr_runs ?q2 ! n)" "pr_cancel ?q2 = Some (Suc n)"
    using n by (simp_all add: started_def nth_append)
  have stop: "rn_child (pr_runs (snd (Stop D env ?q2)) ! n) = Alive \<and> \<not> rn_done (pr_runs (snd (Stop D env ?q2)) ! n)"
    if "ChildExits n \<notin> set (se_events env)" for D env
    using Stop_spares [OF runs(4) _ runs(1), of env D] that runs(3) by auto
  have exit: "\<exists>q3 q4. child_events [ChildExits n, WaiterReaps n e, WaiterSends n] ?q2 = q3 \<and>
      (pr_status q3 = StatusStopped \<or> pr_status q3 = StatusFailed) \<and> rn_child (pr_runs q3 ! Suc n) = Alive \<and>
      receive q3 = Some (e, q4) \<and> fst (start_guard q3) = None" for e
    using first_exit_misreported [of ?q e argv ms argv' ms'] unfolding n
    by (cases e) (auto simp: start_guard_def simp del: child_events.simps)
  show ?thesis
    using guard rest refused runs(1,2) stop exit by blast
qed

lemma demo_starts_ok:
  "\<exists>argv ms v argv' ms' v'. start_ok mem_os False [] mem0 demo_process argv ms v \<and>
    start_ok mem_os False [] v demo_process argv' ms' v'"
  unfolding start_ok_def
  by (simp add: demo_process_def NewProcess_def demo_bastion_def SSHSpec_ToProto_def demo_spec_def demo_ssh_def
      ResolvePortsInProto_def Let_def resolve_port_def allocatePort_def mem_listen_def mem0_def FromProto_def
      SSHSpec_BuildCommand_def identity_path_def)

lemma concurrent_starts_leak_child_witness:
  "\<exists>q w1 q1 w2 q2. start_guard demo_process = (None, q) \<and> start_guard q = (None, q) \<and>
    start_rest mem_os (Some False) [] mem0 q = Ret (None, w1, q1) \<and>
    start_rest mem_os (Some False) [] w1 q1 = Ret (None, w2, q2) \<and>
    rn_child (pr_runs q2 ! 0) = Alive \<and> rn_child (pr_runs q2 ! 1) = Alive"
proof -
  obtain argv ms v argv' ms' v' where
    ok: "start_ok mem_os False [] mem0 demo_process argv ms v" "start_ok mem_os False [] v demo_process argv' ms' v'"
    using demo_starts_ok by (elim exE conjE)
  have p: "idle demo_process" "length (pr_runs demo_process) = 0"
    by (simp_all add: demo_process_def NewProcess_def)
  from concurrent_starts_leak_child [OF p(1) ok, unfolded p(2)] show ?thesis
    by (elim exE conjE) (intro exI conjI; simp)
qed

end
