(* ===== verification/Copy_Lib.thy ===== *)
theory Copy_Lib
  imports Main "HOL-Library.Monad_Syntax" "HOL-Library.AList"
begin

text \<open>
  Memory for the generated deep copies. The heap is a list of cells, a cell is the array that
  one allocation made: \<open>new(T)\<close> an array of length one, \<open>make([]T, n)\<close> one of length \<open>n\<close>, a map
  the list of its entries in the order in which a loop visits them. An address is the position
  of a cell, and an allocation appends. A pointer names a cell and an index in it (\<open>&a[i]\<close>), a
  slice a cell, its first index and its length; nil is \<open>None\<close>. Access to a cell of another type
  or outside it has no value; Go's types and bounds exclude it.

  The locale \<open>copier\<close> states what a deep copy is: the copy reads as the original does, it is
  made of new cells alone, and no old cell is written. The combinators are the forms of copying
  the generator emits.
\<close>

section \<open>Cells, pointers, slices and maps\<close>

text \<open>A type of cells: how the arrays of one type are put into a cell and taken out.\<close>

record ('c, 'e) kind =
  kd_put :: "'e list \<Rightarrow> 'c"
  kd_get :: "'c \<Rightarrow> 'e list option"

definition kind_ok :: "('c, 'e) kind \<Rightarrow> bool" where
  "kind_ok K \<longleftrightarrow> (\<forall>xs. kd_get K (kd_put K xs) = Some xs)"

type_synonym ptr = "(nat \<times> nat) option"
type_synonym slice = "(nat \<times> nat \<times> nat) option"
type_synonym mapref = "nat option"

definition array :: "('c, 'e) kind \<Rightarrow> 'c list \<Rightarrow> nat \<Rightarrow> 'e list option" where
  "array K h a = (if a < length h then kd_get K (h ! a) else None)"

text \<open>The value of \<open>*p\<close>, and the elements of a slice.\<close>

definition load :: "('c, 'e) kind \<Rightarrow> 'c list \<Rightarrow> nat \<times> nat \<Rightarrow> 'e option" where
  "load K h p = do { xs \<leftarrow> array K h (fst p); if snd p < length xs then Some (xs ! snd p) else None }"

definition elements :: "('c, 'e) kind \<Rightarrow> 'c list \<Rightarrow> nat \<times> nat \<times> nat \<Rightarrow> 'e list option" where
  "elements K h s = (case s of (a, i, n) \<Rightarrow>
    do { xs \<leftarrow> array K h a; if i + n \<le> length xs then Some (take n (drop i xs)) else None })"

section \<open>Reading a structure\<close>

fun rd_all :: "('c list \<Rightarrow> 'a \<Rightarrow> 'b option) \<Rightarrow> 'c list \<Rightarrow> 'a list \<Rightarrow> 'b list option" where
  "rd_all rd h [] = Some []"
| "rd_all rd h (x # xs) = do { v \<leftarrow> rd h x; vs \<leftarrow> rd_all rd h xs; Some (v # vs) }"

definition rd_flat :: "'c list \<Rightarrow> 'a \<Rightarrow> 'a option" where
  "rd_flat h x = Some x"

definition rd_ptr :: "('c, 'e) kind \<Rightarrow> ('c list \<Rightarrow> 'e \<Rightarrow> 'v option) \<Rightarrow> 'c list \<Rightarrow> ptr \<Rightarrow> 'v option option" where
  "rd_ptr K rd h p = (case p of None \<Rightarrow> Some None
    | Some q \<Rightarrow> do { x \<leftarrow> load K h q; v \<leftarrow> rd h x; Some (Some v) })"

definition rd_slice :: "('c, 'e) kind \<Rightarrow> ('c list \<Rightarrow> 'e \<Rightarrow> 'v option) \<Rightarrow> 'c list \<Rightarrow> slice \<Rightarrow> 'v list option" where
  "rd_slice K rd h s = (case s of None \<Rightarrow> Some []
    | Some t \<Rightarrow> do { xs \<leftarrow> elements K h t; rd_all rd h xs })"

text \<open>The keys of a map are distinct.\<close>

definition rd_map :: "('c, 'k \<times> 'v) kind \<Rightarrow> 'c list \<Rightarrow> mapref \<Rightarrow> ('k \<rightharpoonup> 'v) option" where
  "rd_map K h m = (case m of None \<Rightarrow> Some Map.empty
    | Some a \<Rightarrow> do { kvs \<leftarrow> array K h a; if distinct (map fst kvs) then Some (map_of kvs) else None })"

section \<open>Copying it\<close>

text \<open>\<open>*out = new(T); **out = **in\<close>\<close>

definition copy_val :: "('c, 'e) kind \<Rightarrow> ptr \<Rightarrow> 'c list \<Rightarrow> (ptr \<times> 'c list) option" where
  "copy_val K p h = (case p of None \<Rightarrow> Some (None, h)
    | Some q \<Rightarrow> do { x \<leftarrow> load K h q; Some (Some (length h, 0), h @ [kd_put K [x]]) })"

text \<open>
  \<open>*out = new(T); ( *in).DeepCopyInto( *out)\<close>, which is also \<open>in.DeepCopy()\<close>: the new cell first
  holds \<open>*in\<close> (every \<open>DeepCopyInto\<close> begins with \<open>*out = *in\<close>), in the end what \<open>DeepCopyInto\<close> made.
\<close>

definition copy_ptr :: "('c, 'e) kind \<Rightarrow> ('e \<Rightarrow> 'c list \<Rightarrow> ('e \<times> 'c list) option) \<Rightarrow> ptr \<Rightarrow> 'c list \<Rightarrow>
    (ptr \<times> 'c list) option" where
  "copy_ptr K into p h = (case p of None \<Rightarrow> Some (None, h)
    | Some q \<Rightarrow> do {
        x \<leftarrow> load K h q;
        (y, h1) \<leftarrow> into x (h @ [kd_put K [x]]);
        Some (Some (length h, 0), h1[length h := kd_put K [y]]) })"

text \<open>\<open>*out = make([]T, len( *in)); copy( *out, *in)\<close>\<close>

definition copy_slice :: "('c, 'e) kind \<Rightarrow> slice \<Rightarrow> 'c list \<Rightarrow> (slice \<times> 'c list) option" where
  "copy_slice K s h = (case s of None \<Rightarrow> Some (None, h)
    | Some t \<Rightarrow> do { xs \<leftarrow> elements K h t; Some (Some (length h, 0, length xs), h @ [kd_put K xs]) })"

text \<open>
  \<open>*out = make([]T, len( *in))\<close> and the loop \<open>( *in)[i].DeepCopyInto(&( *out)[i])\<close>. What the new
  array holds before an element is copied is never read.
\<close>

fun copy_all :: "('e \<Rightarrow> 'c list \<Rightarrow> ('e \<times> 'c list) option) \<Rightarrow> 'e list \<Rightarrow> 'c list \<Rightarrow> ('e list \<times> 'c list) option" where
  "copy_all into [] h = Some ([], h)"
| "copy_all into (x # xs) h = do {
    (y, h1) \<leftarrow> into x h;
    (ys, h2) \<leftarrow> copy_all into xs h1;
    Some (y # ys, h2) }"

definition copy_each :: "('c, 'e) kind \<Rightarrow> ('e \<Rightarrow> 'c list \<Rightarrow> ('e \<times> 'c list) option) \<Rightarrow> slice \<Rightarrow> 'c list \<Rightarrow>
    (slice \<times> 'c list) option" where
  "copy_each K into s h = (case s of None \<Rightarrow> Some (None, h)
    | Some t \<Rightarrow> do {
        xs \<leftarrow> elements K h t;
        (ys, h1) \<leftarrow> copy_all into xs (h @ [kd_put K xs]);
        Some (Some (length h, 0, length xs), h1[length h := kd_put K ys]) })"

text \<open>\<open>*out = make(map[K]V, len( *in)); for key, val := range *in { ( *out)[key] = val }\<close>\<close>

fun copy_entries :: "('k \<times> 'v) list \<Rightarrow> ('k \<times> 'v) list \<Rightarrow> ('k \<times> 'v) list" where
  "copy_entries [] m = m"
| "copy_entries ((key, val) # es) m = copy_entries es (AList.update key val m)"

definition copy_map :: "('c, 'k \<times> 'v) kind \<Rightarrow> mapref \<Rightarrow> 'c list \<Rightarrow> (mapref \<times> 'c list) option" where
  "copy_map K m h = (case m of None \<Rightarrow> Some (None, h)
    | Some a \<Rightarrow> do { kvs \<leftarrow> array K h a; Some (Some (length h), h @ [kd_put K (copy_entries kvs [])]) })"

section \<open>What a deep copy is\<close>

text \<open>
  \<open>rd h x\<close> is the value that \<open>x\<close> stands for in the heap \<open>h\<close>, with all it refers to. New cells
  do not change it, and a copy of \<open>x\<close> is made in new cells \<open>k\<close> alone: it has that value over
  whatever the old cells become.
\<close>

locale copier =
  fixes rd :: "'c list \<Rightarrow> 'a \<Rightarrow> 'b option"
    and cp :: "'a \<Rightarrow> 'c list \<Rightarrow> ('a \<times> 'c list) option"
  assumes rd_grow: "rd h x = Some v \<Longrightarrow> rd (h @ k) x = Some v"
    and cp_fresh: "rd h x = Some v \<Longrightarrow>
      \<exists>y k. cp x h = Some (y, h @ k) \<and> (\<forall>g. length g = length h \<longrightarrow> rd (g @ k) y = Some v)"
begin

text \<open>The copy is isolated from the original: each keeps its value while the cells of the other change.\<close>

lemma isolated:
  assumes "rd h x = Some v"
  shows "\<exists>y k. cp x h = Some (y, h @ k) \<and> (\<forall>g. length g = length h \<longrightarrow> rd (g @ k) y = Some v) \<and>
    (\<forall>k'. rd (h @ k') x = Some v)"
  using cp_fresh [OF assms] rd_grow [OF assms] by blast

text \<open>The same for the elements of an array.\<close>

lemma rd_all_grow: "rd_all rd h xs = Some vs \<Longrightarrow> rd_all rd (h @ k) xs = Some vs"
  by (induction xs arbitrary: vs) (auto simp: bind_eq_Some_conv rd_grow)

lemma copy_all_fresh:
  "rd_all rd h xs = Some vs \<Longrightarrow>
    \<exists>ys k. copy_all cp xs h = Some (ys, h @ k) \<and> length ys = length xs \<and>
      (\<forall>g. length g = length h \<longrightarrow> rd_all rd (g @ k) ys = Some vs)"
proof (induction xs arbitrary: vs h)
  case Nil
  then show ?case by (intro exI [of _ "[]"]) simp
next
  case (Cons x xs)
  from Cons.prems obtain v ws where v: "rd h x = Some v" "rd_all rd h xs = Some ws" "vs = v # ws"
    by (auto simp: bind_eq_Some_conv)
  obtain y k where y: "cp x h = Some (y, h @ k)" "\<And>g. length g = length h \<Longrightarrow> rd (g @ k) y = Some v"
    using cp_fresh [OF v(1)] by blast
  obtain ys k' where ys: "copy_all cp xs (h @ k) = Some (ys, (h @ k) @ k')" "length ys = length xs"
    "\<And>g. length g = length (h @ k) \<Longrightarrow> rd_all rd (g @ k') ys = Some ws"
    using Cons.IH [OF rd_all_grow [OF v(2)], of k] by blast
  have "rd_all rd (g @ k @ k') (y # ys) = Some vs" if "length g = length h" for g
    using rd_grow [OF y(2) [OF that], of k'] ys(3) [of "g @ k"] that v(3) by simp
  then show ?case
    using y(1) ys(1,2) by (intro exI [of _ "y # ys"] exI [of _ "k @ k'"]) simp
qed

end

lemmas copier_laws = copier.rd_grow copier.cp_fresh

section \<open>The forms of copying are deep copies\<close>

lemma array_grow: "array K h a = Some xs \<Longrightarrow> array K (h @ k) a = Some xs"
  by (auto simp: array_def nth_append split: if_splits)

lemma load_grow: "load K h q = Some x \<Longrightarrow> load K (h @ k) q = Some x"
  by (auto simp: load_def bind_eq_Some_conv array_grow split: if_splits)

lemma elements_grow: "elements K h t = Some xs \<Longrightarrow> elements K (h @ k) t = Some xs"
  by (auto simp: elements_def bind_eq_Some_conv array_grow split: prod.splits if_splits)

text \<open>A cell that was made at the end of a heap of \<open>n\<close> cells.\<close>

lemma array_new: "kind_ok K \<Longrightarrow> length g = n \<Longrightarrow> array K (g @ kd_put K xs # k) n = Some xs"
  by (auto simp: array_def kind_ok_def nth_append)

lemma load_new: "kind_ok K \<Longrightarrow> length g = n \<Longrightarrow> load K (g @ kd_put K [x] # k) (n, 0) = Some x"
  by (simp add: load_def array_new)

lemma elements_new: "kind_ok K \<Longrightarrow> length g = n \<Longrightarrow> elements K (g @ kd_put K xs # k) (n, 0, length xs) = Some xs"
  by (simp add: elements_def array_new)

lemma copier_flat: "copier rd_flat (\<lambda>x h. Some (x, h))"
  by unfold_locales (auto simp: rd_flat_def)

lemma copier_ptr:
  assumes K: "kind_ok K" and "copier rd into"
  shows "copier (rd_ptr K rd) (copy_ptr K into)"
proof -
  note grow = copier.rd_grow [OF assms(2)] and fresh = copier.cp_fresh [OF assms(2)]
  show ?thesis
  proof
    show "rd_ptr K rd (h @ k) p = Some v" if "rd_ptr K rd h p = Some v" for h p v k
      using that by (auto simp: rd_ptr_def bind_eq_Some_conv load_grow grow split: option.splits)
  next
    fix h p v assume rd: "rd_ptr K rd h p = Some v"
    show "\<exists>y k. copy_ptr K into p h = Some (y, h @ k) \<and>
        (\<forall>g. length g = length h \<longrightarrow> rd_ptr K rd (g @ k) y = Some v)"
    proof (cases p)
      case None
      then show ?thesis using rd by (auto simp: copy_ptr_def rd_ptr_def)
    next
      case (Some q)
      then obtain x w where x: "load K h q = Some x" "rd h x = Some w" "v = Some w"
        using rd by (auto simp: rd_ptr_def bind_eq_Some_conv)
      obtain y k where y: "into x (h @ [kd_put K [x]]) = Some (y, (h @ [kd_put K [x]]) @ k)"
        "\<And>g. length g = length (h @ [kd_put K [x]]) \<Longrightarrow> rd (g @ k) y = Some w"
        using fresh [OF grow [OF x(2)]] by blast
      have "rd_ptr K rd (g @ kd_put K [y] # k) (Some (length h, 0)) = Some v" if "length g = length h" for g
        using y(2) [of "g @ [kd_put K [y]]"] that load_new [OF K that] x(3) by (simp add: rd_ptr_def)
      then show ?thesis
        using Some x(1) y(1)
        by (intro exI [of _ "Some (length h, 0)"] exI [of _ "kd_put K [y] # k"]) (simp add: copy_ptr_def list_update_append)
    qed
  qed
qed

lemma copier_each:
  assumes K: "kind_ok K" and cp: "copier rd into"
  shows "copier (rd_slice K rd) (copy_each K into)"
proof -
  note grow = copier.rd_all_grow [OF cp] and fresh = copier.copy_all_fresh [OF cp]
  show ?thesis
  proof
    show "rd_slice K rd (h @ k) s = Some v" if "rd_slice K rd h s = Some v" for h s v k
      using that by (auto simp: rd_slice_def bind_eq_Some_conv elements_grow grow split: option.splits)
  next
    fix h s v assume rd: "rd_slice K rd h s = Some v"
    show "\<exists>y k. copy_each K into s h = Some (y, h @ k) \<and>
        (\<forall>g. length g = length h \<longrightarrow> rd_slice K rd (g @ k) y = Some v)"
    proof (cases s)
      case None
      then show ?thesis using rd by (auto simp: copy_each_def rd_slice_def)
    next
      case (Some t)
      then obtain xs where x: "elements K h t = Some xs" "rd_all rd h xs = Some v"
        using rd by (auto simp: rd_slice_def bind_eq_Some_conv)
      obtain ys k where y: "copy_all into xs (h @ [kd_put K xs]) = Some (ys, (h @ [kd_put K xs]) @ k)"
        "length ys = length xs" "\<And>g. length g = length (h @ [kd_put K xs]) \<Longrightarrow> rd_all rd (g @ k) ys = Some v"
        using fresh [OF grow [OF x(2)]] by blast
      have "rd_slice K rd (g @ kd_put K ys # k) (Some (length h, 0, length xs)) = Some v" if "length g = length h" for g
        using y(3) [of "g @ [kd_put K ys]"] that elements_new [OF K that, of ys] y(2) by (simp add: rd_slice_def)
      then show ?thesis
        using Some x(1) y(1)
        by (intro exI [of _ "Some (length h, 0, length xs)"] exI [of _ "kd_put K ys # k"])
          (simp add: copy_each_def list_update_append)
    qed
  qed
qed

text \<open>Pointers to and slices of flat values are the special case without nested copies.\<close>

lemma copy_val_ptr: "copy_val K = copy_ptr K (\<lambda>x h. Some (x, h))"
  by (intro ext) (simp add: copy_val_def copy_ptr_def list_update_append split: option.split)

lemma copy_all_flat: "copy_all (\<lambda>x h. Some (x, h)) xs h = Some (xs, h)"
  by (induction xs arbitrary: h) auto

lemma copy_slice_each: "copy_slice K = copy_each K (\<lambda>x h. Some (x, h))"
  by (intro ext) (simp add: copy_slice_def copy_each_def copy_all_flat list_update_append split: option.split)

lemma copier_val: "kind_ok K \<Longrightarrow> copier (rd_ptr K rd_flat) (copy_val K)"
  by (simp add: copy_val_ptr copier_ptr copier_flat)

lemma copier_slice: "kind_ok K \<Longrightarrow> copier (rd_slice K rd_flat) (copy_slice K)"
  by (simp add: copy_slice_each copier_each copier_flat)

lemma copy_entries_distinct: "distinct (map fst m) \<Longrightarrow> distinct (map fst (copy_entries es m))"
  by (induction es m rule: copy_entries.induct) (simp_all add: distinct_update)

lemma copy_entries_map:
  "distinct (map fst es) \<Longrightarrow> map_of (copy_entries es m) = map_of m ++ map_of es"
proof (induction es m rule: copy_entries.induct)
  case (2 key val es m)
  have "map_of es key = None"
    using "2.prems" by (simp add: map_of_eq_None_iff)
  then show ?case
    using 2 by (simp add: update_conv' fun_eq_iff map_add_def split: option.split)
qed simp

lemma copier_map:
  assumes K: "kind_ok K"
  shows "copier (rd_map K) (copy_map K)"
proof
  show "rd_map K (h @ k) m = Some v" if "rd_map K h m = Some v" for h m v k
    using that by (auto simp: rd_map_def bind_eq_Some_conv array_grow split: option.splits if_splits)
next
  fix h m v assume rd: "rd_map K h m = Some v"
  show "\<exists>y k. copy_map K m h = Some (y, h @ k) \<and> (\<forall>g. length g = length h \<longrightarrow> rd_map K (g @ k) y = Some v)"
  proof (cases m)
    case None
    then show ?thesis using rd by (auto simp: copy_map_def rd_map_def)
  next
    case (Some a)
    then obtain es where e: "array K h a = Some es" "distinct (map fst es)" "v = map_of es"
      using rd by (auto simp: rd_map_def bind_eq_Some_conv split: if_splits)
    have "rd_map K (g @ [kd_put K (copy_entries es [])]) (Some (length h)) = Some v" if "length g = length h" for g
      using array_new [OF K that, of _ "[]"] copy_entries_distinct [of "[]" es] copy_entries_map [OF e(2), of "[]"] e(3)
      by (simp add: rd_map_def)
    then show ?thesis
      using Some e(1) by (intro exI [of _ "Some (length h)"] exI [of _ "[kd_put K (copy_entries es [])]"]) (simp add: copy_map_def)
  qed
qed

section \<open>Structures\<close>

text \<open>One field after the other.\<close>

definition rd_pair :: "('c list \<Rightarrow> 'a \<Rightarrow> 'v option) \<Rightarrow> ('c list \<Rightarrow> 'b \<Rightarrow> 'w option) \<Rightarrow> 'c list \<Rightarrow> 'a \<times> 'b \<Rightarrow>
    ('v \<times> 'w) option" where
  "rd_pair r s h p = do { v \<leftarrow> r h (fst p); w \<leftarrow> s h (snd p); Some (v, w) }"

definition copy_pair :: "('a \<Rightarrow> 'c list \<Rightarrow> ('a \<times> 'c list) option) \<Rightarrow> ('b \<Rightarrow> 'c list \<Rightarrow> ('b \<times> 'c list) option) \<Rightarrow>
    'a \<times> 'b \<Rightarrow> 'c list \<Rightarrow> (('a \<times> 'b) \<times> 'c list) option" where
  "copy_pair f g p h = do { (x, h1) \<leftarrow> f (fst p) h; (y, h2) \<leftarrow> g (snd p) h1; Some ((x, y), h2) }"

lemma copier_pair:
  assumes "copier r f" and "copier s g"
  shows "copier (rd_pair r s) (copy_pair f g)"
proof
  show "rd_pair r s (h @ k) p = Some v" if "rd_pair r s h p = Some v" for h p v k
    using that copier.rd_grow [OF assms(1)] copier.rd_grow [OF assms(2)]
    by (auto simp: rd_pair_def bind_eq_Some_conv)
next
  fix h p v assume "rd_pair r s h p = Some v"
  then obtain a b where v: "r h (fst p) = Some a" "s h (snd p) = Some b" "v = (a, b)"
    by (auto simp: rd_pair_def bind_eq_Some_conv)
  obtain x k where x: "f (fst p) h = Some (x, h @ k)" "\<And>e. length e = length h \<Longrightarrow> r (e @ k) x = Some a"
    using copier.cp_fresh [OF assms(1) v(1)] by blast
  obtain y k' where y: "g (snd p) (h @ k) = Some (y, (h @ k) @ k')"
    "\<And>e. length e = length (h @ k) \<Longrightarrow> s (e @ k') y = Some b"
    using copier.cp_fresh [OF assms(2) copier.rd_grow [OF assms(2) v(2), of k]] by blast
  have "rd_pair r s (e @ k @ k') (x, y) = Some v" if "length e = length h" for e
    using copier.rd_grow [OF assms(1) x(2) [OF that], of k'] y(2) [of "e @ k"] that v(3) by (simp add: rd_pair_def)
  then show "\<exists>y k. copy_pair f g p h = Some (y, h @ k) \<and>
      (\<forall>e. length e = length h \<longrightarrow> rd_pair r s (e @ k) y = Some v)"
    using x(1) y(1) by (intro exI [of _ "(x, y)"] exI [of _ "k @ k'"]) (simp add: copy_pair_def)
qed

text \<open>
  A structure whose fields with references are \<open>get x\<close> and are replaced by \<open>put\<close>, and whose
  value \<open>mk\<close> builds from their values and from the flat fields.
\<close>

lemma copier_struct:
  assumes "copier rd cp"
    and "\<And>h x. R h x = map_option (mk x) (rd h (get x))"
    and "\<And>x h. C x h = map_option (\<lambda>(t, h1). (put x t, h1)) (cp (get x) h)"
    and "\<And>x t. get (put x t) = t" and "\<And>x t v. mk (put x t) v = mk x v"
  shows "copier R C"
proof
  show "R (h @ k) x = Some v" if "R h x = Some v" for h x v k
    using that copier.rd_grow [OF assms(1)] by (auto simp: assms(2))
next
  fix h x v assume "R h x = Some v"
  then obtain w where w: "rd h (get x) = Some w" "v = mk x w"
    by (auto simp: assms(2))
  obtain t k where "cp (get x) h = Some (t, h @ k)" "\<And>g. length g = length h \<Longrightarrow> rd (g @ k) t = Some w"
    using copier.cp_fresh [OF assms(1) w(1)] by blast
  then show "\<exists>y k. C x h = Some (y, h @ k) \<and> (\<forall>g. length g = length h \<longrightarrow> R (g @ k) y = Some v)"
    by (intro exI [of _ "put x t"] exI [of _ k]) (simp add: assms(2-5) w(2))
qed

text \<open>Both views of a structure, field by field and as a tuple of fields, are brought to one form.\<close>

lemma map_option_as_bind: "map_option f m = Option.bind m (\<lambda>x. Some (f x))"
  by (cases m) simp_all

lemmas copy_simps = rd_pair_def copy_pair_def Option.bind_assoc map_option_as_bind split_def

end
