(* ===== verification/Kube_Memory.thy ===== *)
theory Kube_Memory
  imports Kube_Types Copy_Lib
begin

text \<open>
  The custom resources of \<open>k8s/api/v1alpha1\<close> as they are in memory: records whose pointers, slices
  and maps refer to the cells of \<open>Copy_Lib\<close>, where \<open>Kube_Types\<close> has the values. \<open>ObjectMeta\<close>,
  \<open>ListMeta\<close> and \<open>Condition\<close> belong to the Kubernetes library: their memory is of a type \<open>'x\<close>.
\<close>

section \<open>Resources in memory\<close>

text \<open>Structs without references are the records of \<open>Kube_Types\<close>.\<close>

record TypeMeta =
  ty_Kind :: string
  ty_APIVersion :: string

record HBackoffSpec =
  hb_MultiplierMilli :: int32
  hb_MaxDelay :: ptr

record HHealthCheckSpec =
  hh_Type :: string
  hh_Address :: string
  hh_Interval :: ptr
  hh_Timeout :: ptr
  hh_StartupTimeout :: ptr

record HRestartPolicySpec =
  hr_Policy :: string
  hr_Delay :: ptr
  hr_MaxAttempts :: int32
  hr_Backoff :: ptr

record HSSHSpec =
  hssh_User :: string
  hssh_Host :: string
  hssh_Port :: int32
  hssh_IdentityKeyRef :: ptr
  hssh_IdentityKeySecretRef :: ptr
  hssh_LocalForwards :: slice
  hssh_Options :: mapref

record HKubectlSpec =
  hkc_KubeconfigRef :: ptr
  hkc_KubeconfigSecretRef :: ptr
  hkc_Context :: string
  hkc_Namespace :: string
  hkc_Resource :: string
  hkc_Forwards :: slice
  hkc_APIServer :: string
  hkc_InsecureSkipTLSVerify :: bool

record HTunnelSpec =
  ht_DependsOn :: slice
  ht_SSH :: ptr
  ht_Kubectl :: ptr
  ht_Health :: ptr
  ht_Restart :: ptr
  ht_StartupTimeout :: ptr
  ht_ShutdownTimeout :: ptr
  ht_NodeSelector :: mapref
  ht_Expose :: ptr

record HTunnelStatus =
  hts_Phase :: TunnelPhase
  hts_Node :: string
  hts_ResolvedForwards :: slice
  hts_ServiceRef :: ptr
  hts_ObservedGeneration :: int64
  hts_Conditions :: slice
  hts_LastError :: string

record HTunnelGroupMember =
  hgm_Name :: string
  hgm_DependsOn :: slice
  hgm_SSH :: ptr
  hgm_Kubectl :: ptr
  hgm_Health :: ptr
  hgm_Restart :: ptr
  hgm_StartupTimeout :: ptr
  hgm_ShutdownTimeout :: ptr

record HTunnelGroupSpec =
  hgs_NodeSelector :: mapref
  hgs_Tunnels :: slice
  hgs_Expose :: slice

record HTunnelGroupStatus =
  hgst_Phase :: TunnelPhase
  hgst_Node :: string
  hgst_Members :: slice
  hgst_ObservedGeneration :: int64
  hgst_Conditions :: slice
  hgst_LastError :: string

record HTunnelKeySource =
  hsrc_SecretRef :: ptr

record HTunnelKeySpec =
  htks_Type :: TunnelKeyType
  htks_Source :: HTunnelKeySource
  htks_NodeSelector :: mapref

record HTunnelKeyStatus =
  htkst_Phase :: TunnelKeyPhase
  htkst_InstalledNodes :: slice
  htkst_Fingerprint :: string
  htkst_ObservedGeneration :: int64
  htkst_Conditions :: slice
  htkst_LastError :: string

record 'x HTunnel =
  htn_TypeMeta :: TypeMeta
  htn_ObjectMeta :: 'x
  htn_Spec :: HTunnelSpec
  htn_Status :: HTunnelStatus

record 'x HTunnelGroup =
  htg_TypeMeta :: TypeMeta
  htg_ObjectMeta :: 'x
  htg_Spec :: HTunnelGroupSpec
  htg_Status :: HTunnelGroupStatus

record 'x HTunnelKey =
  htk_TypeMeta :: TypeMeta
  htk_ObjectMeta :: 'x
  htk_Spec :: HTunnelKeySpec
  htk_Status :: HTunnelKeyStatus

record 'x HTunnelList =
  htl_TypeMeta :: TypeMeta
  htl_ListMeta :: 'x
  htl_Items :: slice

record 'x HTunnelGroupList =
  htgl_TypeMeta :: TypeMeta
  htgl_ListMeta :: 'x
  htgl_Items :: slice

record 'x HTunnelKeyList =
  htkl_TypeMeta :: TypeMeta
  htkl_ListMeta :: 'x
  htkl_Items :: slice

text \<open>All types of cells. \<open>C_Lib\<close> holds conditions and whatever the library allocates itself.\<close>

datatype 'x cell =
    C_Duration "duration list"
  | C_String "string list"
  | C_MapEntry "(string \<times> string) list"
  | C_SecretKeyRef "SecretKeyRef list"
  | C_LocalObjectRef "LocalObjectRef list"
  | C_SSHForward "KSSHForward list"
  | C_KubectlForward "KKubectlForward list"
  | C_ExposeSpec "ExposeSpec list"
  | C_ResolvedForward "KResolvedForward list"
  | C_TunnelGroupExpose "TunnelGroupExpose list"
  | C_TunnelGroupMemberStatus "TunnelGroupMemberStatus list"
  | C_BackoffSpec "HBackoffSpec list"
  | C_HealthCheckSpec "HHealthCheckSpec list"
  | C_RestartPolicySpec "HRestartPolicySpec list"
  | C_SSHSpec "HSSHSpec list"
  | C_KubectlSpec "HKubectlSpec list"
  | C_TunnelSpec "HTunnelSpec list"
  | C_TunnelStatus "HTunnelStatus list"
  | C_TunnelGroupMember "HTunnelGroupMember list"
  | C_TunnelGroupSpec "HTunnelGroupSpec list"
  | C_TunnelGroupStatus "HTunnelGroupStatus list"
  | C_TunnelKeySource "HTunnelKeySource list"
  | C_TunnelKeySpec "HTunnelKeySpec list"
  | C_TunnelKeyStatus "HTunnelKeyStatus list"
  | C_Tunnel "('x HTunnel) list"
  | C_TunnelGroup "('x HTunnelGroup) list"
  | C_TunnelKey "('x HTunnelKey) list"
  | C_TunnelList "('x HTunnelList) list"
  | C_TunnelGroupList "('x HTunnelGroupList) list"
  | C_TunnelKeyList "('x HTunnelKeyList) list"
  | C_Lib "'x list"

type_synonym 'x heap = "'x cell list"

section \<open>Types of cells\<close>

definition kDuration :: "('x cell, duration) kind" where
  "kDuration = \<lparr>kd_put = C_Duration, kd_get = (\<lambda>c. case c of C_Duration xs \<Rightarrow> Some xs | _ \<Rightarrow> None)\<rparr>"

lemma kDuration_ok [simp]: "kind_ok kDuration"
  by (simp add: kind_ok_def kDuration_def)

definition kString :: "('x cell, string) kind" where
  "kString = \<lparr>kd_put = C_String, kd_get = (\<lambda>c. case c of C_String xs \<Rightarrow> Some xs | _ \<Rightarrow> None)\<rparr>"

lemma kString_ok [simp]: "kind_ok kString"
  by (simp add: kind_ok_def kString_def)

definition kMapEntry :: "('x cell, (string \<times> string)) kind" where
  "kMapEntry = \<lparr>kd_put = C_MapEntry, kd_get = (\<lambda>c. case c of C_MapEntry xs \<Rightarrow> Some xs | _ \<Rightarrow> None)\<rparr>"

lemma kMapEntry_ok [simp]: "kind_ok kMapEntry"
  by (simp add: kind_ok_def kMapEntry_def)

definition kSecretKeyRef :: "('x cell, SecretKeyRef) kind" where
  "kSecretKeyRef = \<lparr>kd_put = C_SecretKeyRef, kd_get = (\<lambda>c. case c of C_SecretKeyRef xs \<Rightarrow> Some xs | _ \<Rightarrow> None)\<rparr>"

lemma kSecretKeyRef_ok [simp]: "kind_ok kSecretKeyRef"
  by (simp add: kind_ok_def kSecretKeyRef_def)

definition kLocalObjectRef :: "('x cell, LocalObjectRef) kind" where
  "kLocalObjectRef = \<lparr>kd_put = C_LocalObjectRef, kd_get = (\<lambda>c. case c of C_LocalObjectRef xs \<Rightarrow> Some xs | _ \<Rightarrow> None)\<rparr>"

lemma kLocalObjectRef_ok [simp]: "kind_ok kLocalObjectRef"
  by (simp add: kind_ok_def kLocalObjectRef_def)

definition kSSHForward :: "('x cell, KSSHForward) kind" where
  "kSSHForward = \<lparr>kd_put = C_SSHForward, kd_get = (\<lambda>c. case c of C_SSHForward xs \<Rightarrow> Some xs | _ \<Rightarrow> None)\<rparr>"

lemma kSSHForward_ok [simp]: "kind_ok kSSHForward"
  by (simp add: kind_ok_def kSSHForward_def)

definition kKubectlForward :: "('x cell, KKubectlForward) kind" where
  "kKubectlForward = \<lparr>kd_put = C_KubectlForward, kd_get = (\<lambda>c. case c of C_KubectlForward xs \<Rightarrow> Some xs | _ \<Rightarrow> None)\<rparr>"

lemma kKubectlForward_ok [simp]: "kind_ok kKubectlForward"
  by (simp add: kind_ok_def kKubectlForward_def)

definition kExposeSpec :: "('x cell, ExposeSpec) kind" where
  "kExposeSpec = \<lparr>kd_put = C_ExposeSpec, kd_get = (\<lambda>c. case c of C_ExposeSpec xs \<Rightarrow> Some xs | _ \<Rightarrow> None)\<rparr>"

lemma kExposeSpec_ok [simp]: "kind_ok kExposeSpec"
  by (simp add: kind_ok_def kExposeSpec_def)

definition kResolvedForward :: "('x cell, KResolvedForward) kind" where
  "kResolvedForward = \<lparr>kd_put = C_ResolvedForward, kd_get = (\<lambda>c. case c of C_ResolvedForward xs \<Rightarrow> Some xs | _ \<Rightarrow> None)\<rparr>"

lemma kResolvedForward_ok [simp]: "kind_ok kResolvedForward"
  by (simp add: kind_ok_def kResolvedForward_def)

definition kTunnelGroupExpose :: "('x cell, TunnelGroupExpose) kind" where
  "kTunnelGroupExpose = \<lparr>kd_put = C_TunnelGroupExpose, kd_get = (\<lambda>c. case c of C_TunnelGroupExpose xs \<Rightarrow> Some xs | _ \<Rightarrow> None)\<rparr>"

lemma kTunnelGroupExpose_ok [simp]: "kind_ok kTunnelGroupExpose"
  by (simp add: kind_ok_def kTunnelGroupExpose_def)

definition kTunnelGroupMemberStatus :: "('x cell, TunnelGroupMemberStatus) kind" where
  "kTunnelGroupMemberStatus = \<lparr>kd_put = C_TunnelGroupMemberStatus, kd_get = (\<lambda>c. case c of C_TunnelGroupMemberStatus xs \<Rightarrow> Some xs | _ \<Rightarrow> None)\<rparr>"

lemma kTunnelGroupMemberStatus_ok [simp]: "kind_ok kTunnelGroupMemberStatus"
  by (simp add: kind_ok_def kTunnelGroupMemberStatus_def)

definition kBackoffSpec :: "('x cell, HBackoffSpec) kind" where
  "kBackoffSpec = \<lparr>kd_put = C_BackoffSpec, kd_get = (\<lambda>c. case c of C_BackoffSpec xs \<Rightarrow> Some xs | _ \<Rightarrow> None)\<rparr>"

lemma kBackoffSpec_ok [simp]: "kind_ok kBackoffSpec"
  by (simp add: kind_ok_def kBackoffSpec_def)

definition kHealthCheckSpec :: "('x cell, HHealthCheckSpec) kind" where
  "kHealthCheckSpec = \<lparr>kd_put = C_HealthCheckSpec, kd_get = (\<lambda>c. case c of C_HealthCheckSpec xs \<Rightarrow> Some xs | _ \<Rightarrow> None)\<rparr>"

lemma kHealthCheckSpec_ok [simp]: "kind_ok kHealthCheckSpec"
  by (simp add: kind_ok_def kHealthCheckSpec_def)

definition kRestartPolicySpec :: "('x cell, HRestartPolicySpec) kind" where
  "kRestartPolicySpec = \<lparr>kd_put = C_RestartPolicySpec, kd_get = (\<lambda>c. case c of C_RestartPolicySpec xs \<Rightarrow> Some xs | _ \<Rightarrow> None)\<rparr>"

lemma kRestartPolicySpec_ok [simp]: "kind_ok kRestartPolicySpec"
  by (simp add: kind_ok_def kRestartPolicySpec_def)

definition kSSHSpec :: "('x cell, HSSHSpec) kind" where
  "kSSHSpec = \<lparr>kd_put = C_SSHSpec, kd_get = (\<lambda>c. case c of C_SSHSpec xs \<Rightarrow> Some xs | _ \<Rightarrow> None)\<rparr>"

lemma kSSHSpec_ok [simp]: "kind_ok kSSHSpec"
  by (simp add: kind_ok_def kSSHSpec_def)

definition kKubectlSpec :: "('x cell, HKubectlSpec) kind" where
  "kKubectlSpec = \<lparr>kd_put = C_KubectlSpec, kd_get = (\<lambda>c. case c of C_KubectlSpec xs \<Rightarrow> Some xs | _ \<Rightarrow> None)\<rparr>"

lemma kKubectlSpec_ok [simp]: "kind_ok kKubectlSpec"
  by (simp add: kind_ok_def kKubectlSpec_def)

definition kTunnelSpec :: "('x cell, HTunnelSpec) kind" where
  "kTunnelSpec = \<lparr>kd_put = C_TunnelSpec, kd_get = (\<lambda>c. case c of C_TunnelSpec xs \<Rightarrow> Some xs | _ \<Rightarrow> None)\<rparr>"

lemma kTunnelSpec_ok [simp]: "kind_ok kTunnelSpec"
  by (simp add: kind_ok_def kTunnelSpec_def)

definition kTunnelStatus :: "('x cell, HTunnelStatus) kind" where
  "kTunnelStatus = \<lparr>kd_put = C_TunnelStatus, kd_get = (\<lambda>c. case c of C_TunnelStatus xs \<Rightarrow> Some xs | _ \<Rightarrow> None)\<rparr>"

lemma kTunnelStatus_ok [simp]: "kind_ok kTunnelStatus"
  by (simp add: kind_ok_def kTunnelStatus_def)

definition kTunnelGroupMember :: "('x cell, HTunnelGroupMember) kind" where
  "kTunnelGroupMember = \<lparr>kd_put = C_TunnelGroupMember, kd_get = (\<lambda>c. case c of C_TunnelGroupMember xs \<Rightarrow> Some xs | _ \<Rightarrow> None)\<rparr>"

lemma kTunnelGroupMember_ok [simp]: "kind_ok kTunnelGroupMember"
  by (simp add: kind_ok_def kTunnelGroupMember_def)

definition kTunnelGroupSpec :: "('x cell, HTunnelGroupSpec) kind" where
  "kTunnelGroupSpec = \<lparr>kd_put = C_TunnelGroupSpec, kd_get = (\<lambda>c. case c of C_TunnelGroupSpec xs \<Rightarrow> Some xs | _ \<Rightarrow> None)\<rparr>"

lemma kTunnelGroupSpec_ok [simp]: "kind_ok kTunnelGroupSpec"
  by (simp add: kind_ok_def kTunnelGroupSpec_def)

definition kTunnelGroupStatus :: "('x cell, HTunnelGroupStatus) kind" where
  "kTunnelGroupStatus = \<lparr>kd_put = C_TunnelGroupStatus, kd_get = (\<lambda>c. case c of C_TunnelGroupStatus xs \<Rightarrow> Some xs | _ \<Rightarrow> None)\<rparr>"

lemma kTunnelGroupStatus_ok [simp]: "kind_ok kTunnelGroupStatus"
  by (simp add: kind_ok_def kTunnelGroupStatus_def)

definition kTunnelKeySource :: "('x cell, HTunnelKeySource) kind" where
  "kTunnelKeySource = \<lparr>kd_put = C_TunnelKeySource, kd_get = (\<lambda>c. case c of C_TunnelKeySource xs \<Rightarrow> Some xs | _ \<Rightarrow> None)\<rparr>"

lemma kTunnelKeySource_ok [simp]: "kind_ok kTunnelKeySource"
  by (simp add: kind_ok_def kTunnelKeySource_def)

definition kTunnelKeySpec :: "('x cell, HTunnelKeySpec) kind" where
  "kTunnelKeySpec = \<lparr>kd_put = C_TunnelKeySpec, kd_get = (\<lambda>c. case c of C_TunnelKeySpec xs \<Rightarrow> Some xs | _ \<Rightarrow> None)\<rparr>"

lemma kTunnelKeySpec_ok [simp]: "kind_ok kTunnelKeySpec"
  by (simp add: kind_ok_def kTunnelKeySpec_def)

definition kTunnelKeyStatus :: "('x cell, HTunnelKeyStatus) kind" where
  "kTunnelKeyStatus = \<lparr>kd_put = C_TunnelKeyStatus, kd_get = (\<lambda>c. case c of C_TunnelKeyStatus xs \<Rightarrow> Some xs | _ \<Rightarrow> None)\<rparr>"

lemma kTunnelKeyStatus_ok [simp]: "kind_ok kTunnelKeyStatus"
  by (simp add: kind_ok_def kTunnelKeyStatus_def)

definition kTunnel :: "('x cell, 'x HTunnel) kind" where
  "kTunnel = \<lparr>kd_put = C_Tunnel, kd_get = (\<lambda>c. case c of C_Tunnel xs \<Rightarrow> Some xs | _ \<Rightarrow> None)\<rparr>"

lemma kTunnel_ok [simp]: "kind_ok kTunnel"
  by (simp add: kind_ok_def kTunnel_def)

definition kTunnelGroup :: "('x cell, 'x HTunnelGroup) kind" where
  "kTunnelGroup = \<lparr>kd_put = C_TunnelGroup, kd_get = (\<lambda>c. case c of C_TunnelGroup xs \<Rightarrow> Some xs | _ \<Rightarrow> None)\<rparr>"

lemma kTunnelGroup_ok [simp]: "kind_ok kTunnelGroup"
  by (simp add: kind_ok_def kTunnelGroup_def)

definition kTunnelKey :: "('x cell, 'x HTunnelKey) kind" where
  "kTunnelKey = \<lparr>kd_put = C_TunnelKey, kd_get = (\<lambda>c. case c of C_TunnelKey xs \<Rightarrow> Some xs | _ \<Rightarrow> None)\<rparr>"

lemma kTunnelKey_ok [simp]: "kind_ok kTunnelKey"
  by (simp add: kind_ok_def kTunnelKey_def)

definition kTunnelList :: "('x cell, 'x HTunnelList) kind" where
  "kTunnelList = \<lparr>kd_put = C_TunnelList, kd_get = (\<lambda>c. case c of C_TunnelList xs \<Rightarrow> Some xs | _ \<Rightarrow> None)\<rparr>"

lemma kTunnelList_ok [simp]: "kind_ok kTunnelList"
  by (simp add: kind_ok_def kTunnelList_def)

definition kTunnelGroupList :: "('x cell, 'x HTunnelGroupList) kind" where
  "kTunnelGroupList = \<lparr>kd_put = C_TunnelGroupList, kd_get = (\<lambda>c. case c of C_TunnelGroupList xs \<Rightarrow> Some xs | _ \<Rightarrow> None)\<rparr>"

lemma kTunnelGroupList_ok [simp]: "kind_ok kTunnelGroupList"
  by (simp add: kind_ok_def kTunnelGroupList_def)

definition kTunnelKeyList :: "('x cell, 'x HTunnelKeyList) kind" where
  "kTunnelKeyList = \<lparr>kd_put = C_TunnelKeyList, kd_get = (\<lambda>c. case c of C_TunnelKeyList xs \<Rightarrow> Some xs | _ \<Rightarrow> None)\<rparr>"

lemma kTunnelKeyList_ok [simp]: "kind_ok kTunnelKeyList"
  by (simp add: kind_ok_def kTunnelKeyList_def)

definition kCondition :: "('x cell, 'x) kind" where
  "kCondition = \<lparr>kd_put = C_Lib, kd_get = (\<lambda>c. case c of C_Lib xs \<Rightarrow> Some xs | _ \<Rightarrow> None)\<rparr>"

lemma kCondition_ok [simp]: "kind_ok kCondition"
  by (simp add: kind_ok_def kCondition_def)

end
