(* ===== verification/Kube_Copies.thy ===== *)
theory Kube_Copies
  imports Kube_Memory
begin

text \<open>
  \<open>k8s/api/v1alpha1/zz_generated.deepcopy.go\<close>: the deep copies of the custom resources.
  \<open>DeepCopyInto\<close> is a function from \<open>*in\<close> to what \<open>*out\<close> holds in the end, for distinct objects;
  the statement \<open>*out = *in\<close> is the record \<open>x\<close> that the result updates. \<open>rd_T\<close> reads the value of
  a resource, a record of \<open>Kube_Types\<close> (with the type and the conditions beside it where that
  record leaves them out); a nil slice or map reads as an empty one. How the Kubernetes library
  reads and copies its own types is a parameter.
\<close>

section \<open>What the library copies\<close>

record ('x, 'v) k8s_lib =
  lib_rd_meta :: "'x heap \<Rightarrow> 'x \<Rightarrow> ObjectMeta option"
  lib_rd_list :: "'x heap \<Rightarrow> 'x \<Rightarrow> 'v option"
  lib_rd_Condition :: "'x heap \<Rightarrow> 'x \<Rightarrow> Condition option"
  lib_cp_meta :: "'x \<Rightarrow> 'x heap \<Rightarrow> ('x \<times> 'x heap) option"
  lib_cp_list :: "'x \<Rightarrow> 'x heap \<Rightarrow> ('x \<times> 'x heap) option"
  lib_cp_Condition :: "'x \<Rightarrow> 'x heap \<Rightarrow> ('x \<times> 'x heap) option"

text \<open>The library documents its own \<open>DeepCopyInto\<close> as deep copies.\<close>

definition lib_ok :: "('x, 'v) k8s_lib \<Rightarrow> bool" where
  "lib_ok L \<longleftrightarrow> copier (lib_rd_meta L) (lib_cp_meta L) \<and> copier (lib_rd_list L) (lib_cp_list L) \<and>
    copier (lib_rd_Condition L) (lib_cp_Condition L)"

lemma lib_okD:
  assumes "lib_ok L"
  shows "copier (lib_rd_meta L) (lib_cp_meta L)" and "copier (lib_rd_list L) (lib_cp_list L)"
    and "copier (lib_rd_Condition L) (lib_cp_Condition L)"
  using assms by (simp_all add: lib_ok_def)

text \<open>A \<open>runtime.Object\<close> holds a pointer to one of the six types; the nil interface is \<open>None\<close>.\<close>

datatype object =
    TunnelObj ptr | TunnelGroupObj ptr | TunnelKeyObj ptr
  | TunnelListObj ptr | TunnelGroupListObj ptr | TunnelKeyListObj ptr

section \<open>Structs without references\<close>

definition SecretKeyRef_DeepCopyInto :: "SecretKeyRef \<Rightarrow> 'x heap \<Rightarrow> (SecretKeyRef \<times> 'x heap) option" where
  "SecretKeyRef_DeepCopyInto x h = Some (x, h)"

definition SecretKeyRef_DeepCopy :: "ptr \<Rightarrow> 'x heap \<Rightarrow> (ptr \<times> 'x heap) option" where
  "SecretKeyRef_DeepCopy = copy_ptr kSecretKeyRef SecretKeyRef_DeepCopyInto"

interpretation SecretKeyRef: copier "rd_ptr kSecretKeyRef rd_flat" SecretKeyRef_DeepCopy
  unfolding SecretKeyRef_DeepCopy_def by (rule copier_ptr) (simp_all add: copier_flat SecretKeyRef_DeepCopyInto_def [abs_def])

definition LocalObjectRef_DeepCopyInto :: "LocalObjectRef \<Rightarrow> 'x heap \<Rightarrow> (LocalObjectRef \<times> 'x heap) option" where
  "LocalObjectRef_DeepCopyInto x h = Some (x, h)"

definition LocalObjectRef_DeepCopy :: "ptr \<Rightarrow> 'x heap \<Rightarrow> (ptr \<times> 'x heap) option" where
  "LocalObjectRef_DeepCopy = copy_ptr kLocalObjectRef LocalObjectRef_DeepCopyInto"

interpretation LocalObjectRef: copier "rd_ptr kLocalObjectRef rd_flat" LocalObjectRef_DeepCopy
  unfolding LocalObjectRef_DeepCopy_def by (rule copier_ptr) (simp_all add: copier_flat LocalObjectRef_DeepCopyInto_def [abs_def])

definition SSHForward_DeepCopyInto :: "KSSHForward \<Rightarrow> 'x heap \<Rightarrow> (KSSHForward \<times> 'x heap) option" where
  "SSHForward_DeepCopyInto x h = Some (x, h)"

definition SSHForward_DeepCopy :: "ptr \<Rightarrow> 'x heap \<Rightarrow> (ptr \<times> 'x heap) option" where
  "SSHForward_DeepCopy = copy_ptr kSSHForward SSHForward_DeepCopyInto"

interpretation SSHForward: copier "rd_ptr kSSHForward rd_flat" SSHForward_DeepCopy
  unfolding SSHForward_DeepCopy_def by (rule copier_ptr) (simp_all add: copier_flat SSHForward_DeepCopyInto_def [abs_def])

definition KubectlForward_DeepCopyInto :: "KKubectlForward \<Rightarrow> 'x heap \<Rightarrow> (KKubectlForward \<times> 'x heap) option" where
  "KubectlForward_DeepCopyInto x h = Some (x, h)"

definition KubectlForward_DeepCopy :: "ptr \<Rightarrow> 'x heap \<Rightarrow> (ptr \<times> 'x heap) option" where
  "KubectlForward_DeepCopy = copy_ptr kKubectlForward KubectlForward_DeepCopyInto"

interpretation KubectlForward: copier "rd_ptr kKubectlForward rd_flat" KubectlForward_DeepCopy
  unfolding KubectlForward_DeepCopy_def by (rule copier_ptr) (simp_all add: copier_flat KubectlForward_DeepCopyInto_def [abs_def])

definition ExposeSpec_DeepCopyInto :: "ExposeSpec \<Rightarrow> 'x heap \<Rightarrow> (ExposeSpec \<times> 'x heap) option" where
  "ExposeSpec_DeepCopyInto x h = Some (x, h)"

definition ExposeSpec_DeepCopy :: "ptr \<Rightarrow> 'x heap \<Rightarrow> (ptr \<times> 'x heap) option" where
  "ExposeSpec_DeepCopy = copy_ptr kExposeSpec ExposeSpec_DeepCopyInto"

interpretation ExposeSpec: copier "rd_ptr kExposeSpec rd_flat" ExposeSpec_DeepCopy
  unfolding ExposeSpec_DeepCopy_def by (rule copier_ptr) (simp_all add: copier_flat ExposeSpec_DeepCopyInto_def [abs_def])

definition ResolvedForward_DeepCopyInto :: "KResolvedForward \<Rightarrow> 'x heap \<Rightarrow> (KResolvedForward \<times> 'x heap) option" where
  "ResolvedForward_DeepCopyInto x h = Some (x, h)"

definition ResolvedForward_DeepCopy :: "ptr \<Rightarrow> 'x heap \<Rightarrow> (ptr \<times> 'x heap) option" where
  "ResolvedForward_DeepCopy = copy_ptr kResolvedForward ResolvedForward_DeepCopyInto"

interpretation ResolvedForward: copier "rd_ptr kResolvedForward rd_flat" ResolvedForward_DeepCopy
  unfolding ResolvedForward_DeepCopy_def by (rule copier_ptr) (simp_all add: copier_flat ResolvedForward_DeepCopyInto_def [abs_def])

definition TunnelGroupExpose_DeepCopyInto :: "TunnelGroupExpose \<Rightarrow> 'x heap \<Rightarrow> (TunnelGroupExpose \<times> 'x heap) option" where
  "TunnelGroupExpose_DeepCopyInto x h = Some (x, h)"

definition TunnelGroupExpose_DeepCopy :: "ptr \<Rightarrow> 'x heap \<Rightarrow> (ptr \<times> 'x heap) option" where
  "TunnelGroupExpose_DeepCopy = copy_ptr kTunnelGroupExpose TunnelGroupExpose_DeepCopyInto"

interpretation TunnelGroupExpose: copier "rd_ptr kTunnelGroupExpose rd_flat" TunnelGroupExpose_DeepCopy
  unfolding TunnelGroupExpose_DeepCopy_def by (rule copier_ptr) (simp_all add: copier_flat TunnelGroupExpose_DeepCopyInto_def [abs_def])

definition TunnelGroupMemberStatus_DeepCopyInto :: "TunnelGroupMemberStatus \<Rightarrow> 'x heap \<Rightarrow> (TunnelGroupMemberStatus \<times> 'x heap) option" where
  "TunnelGroupMemberStatus_DeepCopyInto x h = Some (x, h)"

definition TunnelGroupMemberStatus_DeepCopy :: "ptr \<Rightarrow> 'x heap \<Rightarrow> (ptr \<times> 'x heap) option" where
  "TunnelGroupMemberStatus_DeepCopy = copy_ptr kTunnelGroupMemberStatus TunnelGroupMemberStatus_DeepCopyInto"

interpretation TunnelGroupMemberStatus: copier "rd_ptr kTunnelGroupMemberStatus rd_flat" TunnelGroupMemberStatus_DeepCopy
  unfolding TunnelGroupMemberStatus_DeepCopy_def by (rule copier_ptr) (simp_all add: copier_flat TunnelGroupMemberStatus_DeepCopyInto_def [abs_def])

section \<open>Structs with references\<close>

definition rd_BackoffSpec :: "'x heap \<Rightarrow> HBackoffSpec \<Rightarrow> KBackoffSpec option" where
  "rd_BackoffSpec h x = do {
    v_MaxDelay \<leftarrow> rd_ptr kDuration rd_flat h (hb_MaxDelay x);
    Some \<lparr>kb_MultiplierMilli = hb_MultiplierMilli x, kb_MaxDelay = v_MaxDelay\<rparr> }"

definition BackoffSpec_DeepCopyInto :: "HBackoffSpec \<Rightarrow> 'x heap \<Rightarrow> (HBackoffSpec \<times> 'x heap) option" where
  "BackoffSpec_DeepCopyInto x h = do {
    (y_MaxDelay, h) \<leftarrow> copy_val kDuration (hb_MaxDelay x) h;
    Some (x\<lparr>hb_MaxDelay := y_MaxDelay\<rparr>, h) }"

definition BackoffSpec_DeepCopy :: "ptr \<Rightarrow> 'x heap \<Rightarrow> (ptr \<times> 'x heap) option" where
  "BackoffSpec_DeepCopy = copy_ptr kBackoffSpec BackoffSpec_DeepCopyInto"

lemma copier_BackoffSpec:
  "copier rd_BackoffSpec BackoffSpec_DeepCopyInto"
  by (rule copier_struct [where
        get = "\<lambda>x. hb_MaxDelay x"
        and put = "\<lambda>x y_MaxDelay. x\<lparr>hb_MaxDelay := y_MaxDelay\<rparr>"
        and mk = "\<lambda>x v_MaxDelay. \<lparr>kb_MultiplierMilli = hb_MultiplierMilli x, kb_MaxDelay =
          v_MaxDelay\<rparr>",
        OF copier_val [OF kDuration_ok]])
    (auto simp: rd_BackoffSpec_def BackoffSpec_DeepCopyInto_def copy_simps)

interpretation BackoffSpec: copier "rd_ptr kBackoffSpec rd_BackoffSpec" BackoffSpec_DeepCopy
  unfolding BackoffSpec_DeepCopy_def by (rule copier_ptr [OF kBackoffSpec_ok copier_BackoffSpec])

definition rd_HealthCheckSpec :: "'x heap \<Rightarrow> HHealthCheckSpec \<Rightarrow> KHealthCheckSpec option" where
  "rd_HealthCheckSpec h x = do {
    v_Interval \<leftarrow> rd_ptr kDuration rd_flat h (hh_Interval x);
    v_Timeout \<leftarrow> rd_ptr kDuration rd_flat h (hh_Timeout x);
    v_StartupTimeout \<leftarrow> rd_ptr kDuration rd_flat h (hh_StartupTimeout x);
    Some \<lparr>kh_Type = hh_Type x, kh_Address = hh_Address x, kh_Interval = v_Interval, kh_Timeout =
      v_Timeout, kh_StartupTimeout = v_StartupTimeout\<rparr> }"

definition HealthCheckSpec_DeepCopyInto :: "HHealthCheckSpec \<Rightarrow> 'x heap \<Rightarrow> (HHealthCheckSpec \<times> 'x heap) option" where
  "HealthCheckSpec_DeepCopyInto x h = do {
    (y_Interval, h) \<leftarrow> copy_val kDuration (hh_Interval x) h;
    (y_Timeout, h) \<leftarrow> copy_val kDuration (hh_Timeout x) h;
    (y_StartupTimeout, h) \<leftarrow> copy_val kDuration (hh_StartupTimeout x) h;
    Some (x\<lparr>hh_Interval := y_Interval, hh_Timeout := y_Timeout, hh_StartupTimeout :=
      y_StartupTimeout\<rparr>, h) }"

definition HealthCheckSpec_DeepCopy :: "ptr \<Rightarrow> 'x heap \<Rightarrow> (ptr \<times> 'x heap) option" where
  "HealthCheckSpec_DeepCopy = copy_ptr kHealthCheckSpec HealthCheckSpec_DeepCopyInto"

lemma copier_HealthCheckSpec:
  "copier rd_HealthCheckSpec HealthCheckSpec_DeepCopyInto"
  by (rule copier_struct [where
        get = "\<lambda>x. (hh_Interval x, hh_Timeout x, hh_StartupTimeout x)"
        and put = "\<lambda>x (y_Interval, y_Timeout, y_StartupTimeout). x\<lparr>hh_Interval := y_Interval,
          hh_Timeout := y_Timeout, hh_StartupTimeout := y_StartupTimeout\<rparr>"
        and mk = "\<lambda>x (v_Interval, v_Timeout, v_StartupTimeout). \<lparr>kh_Type = hh_Type x, kh_Address
          = hh_Address x, kh_Interval = v_Interval, kh_Timeout = v_Timeout, kh_StartupTimeout =
          v_StartupTimeout\<rparr>",
        OF copier_pair [OF copier_val [OF kDuration_ok] copier_pair [OF copier_val [OF kDuration_ok] copier_val
          [OF kDuration_ok]]]])
    (auto simp: rd_HealthCheckSpec_def HealthCheckSpec_DeepCopyInto_def copy_simps)

interpretation HealthCheckSpec: copier "rd_ptr kHealthCheckSpec rd_HealthCheckSpec" HealthCheckSpec_DeepCopy
  unfolding HealthCheckSpec_DeepCopy_def by (rule copier_ptr [OF kHealthCheckSpec_ok copier_HealthCheckSpec])

definition rd_RestartPolicySpec :: "'x heap \<Rightarrow> HRestartPolicySpec \<Rightarrow> KRestartPolicySpec option" where
  "rd_RestartPolicySpec h x = do {
    v_Delay \<leftarrow> rd_ptr kDuration rd_flat h (hr_Delay x);
    v_Backoff \<leftarrow> rd_ptr kBackoffSpec rd_BackoffSpec h (hr_Backoff x);
    Some \<lparr>kr_Policy = hr_Policy x, kr_Delay = v_Delay, kr_MaxAttempts = hr_MaxAttempts x, kr_Backoff =
      v_Backoff\<rparr> }"

definition RestartPolicySpec_DeepCopyInto :: "HRestartPolicySpec \<Rightarrow> 'x heap \<Rightarrow> (HRestartPolicySpec \<times> 'x heap) option" where
  "RestartPolicySpec_DeepCopyInto x h = do {
    (y_Delay, h) \<leftarrow> copy_val kDuration (hr_Delay x) h;
    (y_Backoff, h) \<leftarrow> copy_ptr kBackoffSpec BackoffSpec_DeepCopyInto (hr_Backoff x) h;
    Some (x\<lparr>hr_Delay := y_Delay, hr_Backoff := y_Backoff\<rparr>, h) }"

definition RestartPolicySpec_DeepCopy :: "ptr \<Rightarrow> 'x heap \<Rightarrow> (ptr \<times> 'x heap) option" where
  "RestartPolicySpec_DeepCopy = copy_ptr kRestartPolicySpec RestartPolicySpec_DeepCopyInto"

lemma copier_RestartPolicySpec:
  "copier rd_RestartPolicySpec RestartPolicySpec_DeepCopyInto"
  by (rule copier_struct [where
        get = "\<lambda>x. (hr_Delay x, hr_Backoff x)"
        and put = "\<lambda>x (y_Delay, y_Backoff). x\<lparr>hr_Delay := y_Delay, hr_Backoff :=
          y_Backoff\<rparr>"
        and mk = "\<lambda>x (v_Delay, v_Backoff). \<lparr>kr_Policy = hr_Policy x, kr_Delay = v_Delay,
          kr_MaxAttempts = hr_MaxAttempts x, kr_Backoff = v_Backoff\<rparr>",
        OF copier_pair [OF copier_val [OF kDuration_ok] copier_ptr [OF kBackoffSpec_ok copier_BackoffSpec]]])
    (auto simp: rd_RestartPolicySpec_def RestartPolicySpec_DeepCopyInto_def copy_simps)

interpretation RestartPolicySpec: copier "rd_ptr kRestartPolicySpec rd_RestartPolicySpec" RestartPolicySpec_DeepCopy
  unfolding RestartPolicySpec_DeepCopy_def by (rule copier_ptr [OF kRestartPolicySpec_ok copier_RestartPolicySpec])

definition rd_SSHSpec :: "'x heap \<Rightarrow> HSSHSpec \<Rightarrow> KSSHSpec option" where
  "rd_SSHSpec h x = do {
    v_IdentityKeyRef \<leftarrow> rd_ptr kLocalObjectRef rd_flat h (hssh_IdentityKeyRef x);
    v_IdentityKeySecretRef \<leftarrow> rd_ptr kSecretKeyRef rd_flat h (hssh_IdentityKeySecretRef x);
    v_LocalForwards \<leftarrow> rd_slice kSSHForward rd_flat h (hssh_LocalForwards x);
    v_Options \<leftarrow> rd_map kMapEntry h (hssh_Options x);
    Some \<lparr>kssh_User = hssh_User x, kssh_Host = hssh_Host x, kssh_Port = hssh_Port x, kssh_IdentityKeyRef
      = v_IdentityKeyRef, kssh_IdentityKeySecretRef = v_IdentityKeySecretRef, kssh_LocalForwards =
      v_LocalForwards, kssh_Options = v_Options\<rparr> }"

definition SSHSpec_DeepCopyInto :: "HSSHSpec \<Rightarrow> 'x heap \<Rightarrow> (HSSHSpec \<times> 'x heap) option" where
  "SSHSpec_DeepCopyInto x h = do {
    (y_IdentityKeyRef, h) \<leftarrow> copy_val kLocalObjectRef (hssh_IdentityKeyRef x) h;
    (y_IdentityKeySecretRef, h) \<leftarrow> copy_val kSecretKeyRef (hssh_IdentityKeySecretRef x) h;
    (y_LocalForwards, h) \<leftarrow> copy_slice kSSHForward (hssh_LocalForwards x) h;
    (y_Options, h) \<leftarrow> copy_map kMapEntry (hssh_Options x) h;
    Some (x\<lparr>hssh_IdentityKeyRef := y_IdentityKeyRef, hssh_IdentityKeySecretRef := y_IdentityKeySecretRef,
      hssh_LocalForwards := y_LocalForwards, hssh_Options := y_Options\<rparr>, h) }"

definition SSHSpec_DeepCopy :: "ptr \<Rightarrow> 'x heap \<Rightarrow> (ptr \<times> 'x heap) option" where
  "SSHSpec_DeepCopy = copy_ptr kSSHSpec SSHSpec_DeepCopyInto"

lemma copier_SSHSpec:
  "copier rd_SSHSpec SSHSpec_DeepCopyInto"
  by (rule copier_struct [where
        get = "\<lambda>x. (hssh_IdentityKeyRef x, hssh_IdentityKeySecretRef x, hssh_LocalForwards x,
          hssh_Options x)"
        and put = "\<lambda>x (y_IdentityKeyRef, y_IdentityKeySecretRef, y_LocalForwards, y_Options).
          x\<lparr>hssh_IdentityKeyRef := y_IdentityKeyRef, hssh_IdentityKeySecretRef := y_IdentityKeySecretRef,
          hssh_LocalForwards := y_LocalForwards, hssh_Options := y_Options\<rparr>"
        and mk = "\<lambda>x (v_IdentityKeyRef, v_IdentityKeySecretRef, v_LocalForwards, v_Options).
          \<lparr>kssh_User = hssh_User x, kssh_Host = hssh_Host x, kssh_Port = hssh_Port x, kssh_IdentityKeyRef
          = v_IdentityKeyRef, kssh_IdentityKeySecretRef = v_IdentityKeySecretRef, kssh_LocalForwards =
          v_LocalForwards, kssh_Options = v_Options\<rparr>",
        OF copier_pair [OF copier_val [OF kLocalObjectRef_ok] copier_pair [OF copier_val [OF kSecretKeyRef_ok]
          copier_pair [OF copier_slice [OF kSSHForward_ok] copier_map [OF kMapEntry_ok]]]]])
    (auto simp: rd_SSHSpec_def SSHSpec_DeepCopyInto_def copy_simps)

interpretation SSHSpec: copier "rd_ptr kSSHSpec rd_SSHSpec" SSHSpec_DeepCopy
  unfolding SSHSpec_DeepCopy_def by (rule copier_ptr [OF kSSHSpec_ok copier_SSHSpec])

definition rd_KubectlSpec :: "'x heap \<Rightarrow> HKubectlSpec \<Rightarrow> KKubectlSpec option" where
  "rd_KubectlSpec h x = do {
    v_KubeconfigRef \<leftarrow> rd_ptr kLocalObjectRef rd_flat h (hkc_KubeconfigRef x);
    v_KubeconfigSecretRef \<leftarrow> rd_ptr kSecretKeyRef rd_flat h (hkc_KubeconfigSecretRef x);
    v_Forwards \<leftarrow> rd_slice kKubectlForward rd_flat h (hkc_Forwards x);
    Some \<lparr>kkc_KubeconfigRef = v_KubeconfigRef, kkc_KubeconfigSecretRef = v_KubeconfigSecretRef,
      kkc_Context = hkc_Context x, kkc_Namespace = hkc_Namespace x, kkc_Resource = hkc_Resource x, kkc_Forwards
      = v_Forwards, kkc_APIServer = hkc_APIServer x, kkc_InsecureSkipTLSVerify = hkc_InsecureSkipTLSVerify
      x\<rparr> }"

definition KubectlSpec_DeepCopyInto :: "HKubectlSpec \<Rightarrow> 'x heap \<Rightarrow> (HKubectlSpec \<times> 'x heap) option" where
  "KubectlSpec_DeepCopyInto x h = do {
    (y_KubeconfigRef, h) \<leftarrow> copy_val kLocalObjectRef (hkc_KubeconfigRef x) h;
    (y_KubeconfigSecretRef, h) \<leftarrow> copy_val kSecretKeyRef (hkc_KubeconfigSecretRef x) h;
    (y_Forwards, h) \<leftarrow> copy_slice kKubectlForward (hkc_Forwards x) h;
    Some (x\<lparr>hkc_KubeconfigRef := y_KubeconfigRef, hkc_KubeconfigSecretRef := y_KubeconfigSecretRef,
      hkc_Forwards := y_Forwards\<rparr>, h) }"

definition KubectlSpec_DeepCopy :: "ptr \<Rightarrow> 'x heap \<Rightarrow> (ptr \<times> 'x heap) option" where
  "KubectlSpec_DeepCopy = copy_ptr kKubectlSpec KubectlSpec_DeepCopyInto"

lemma copier_KubectlSpec:
  "copier rd_KubectlSpec KubectlSpec_DeepCopyInto"
  by (rule copier_struct [where
        get = "\<lambda>x. (hkc_KubeconfigRef x, hkc_KubeconfigSecretRef x, hkc_Forwards x)"
        and put = "\<lambda>x (y_KubeconfigRef, y_KubeconfigSecretRef, y_Forwards). x\<lparr>hkc_KubeconfigRef
          := y_KubeconfigRef, hkc_KubeconfigSecretRef := y_KubeconfigSecretRef, hkc_Forwards :=
          y_Forwards\<rparr>"
        and mk = "\<lambda>x (v_KubeconfigRef, v_KubeconfigSecretRef, v_Forwards). \<lparr>kkc_KubeconfigRef =
          v_KubeconfigRef, kkc_KubeconfigSecretRef = v_KubeconfigSecretRef, kkc_Context = hkc_Context x,
          kkc_Namespace = hkc_Namespace x, kkc_Resource = hkc_Resource x, kkc_Forwards = v_Forwards,
          kkc_APIServer = hkc_APIServer x, kkc_InsecureSkipTLSVerify = hkc_InsecureSkipTLSVerify x\<rparr>",
        OF copier_pair [OF copier_val [OF kLocalObjectRef_ok] copier_pair [OF copier_val [OF kSecretKeyRef_ok]
          copier_slice [OF kKubectlForward_ok]]]])
    (auto simp: rd_KubectlSpec_def KubectlSpec_DeepCopyInto_def copy_simps)

interpretation KubectlSpec: copier "rd_ptr kKubectlSpec rd_KubectlSpec" KubectlSpec_DeepCopy
  unfolding KubectlSpec_DeepCopy_def by (rule copier_ptr [OF kKubectlSpec_ok copier_KubectlSpec])

definition rd_TunnelSpec :: "'x heap \<Rightarrow> HTunnelSpec \<Rightarrow> KTunnelSpec option" where
  "rd_TunnelSpec h x = do {
    v_DependsOn \<leftarrow> rd_slice kString rd_flat h (ht_DependsOn x);
    v_SSH \<leftarrow> rd_ptr kSSHSpec rd_SSHSpec h (ht_SSH x);
    v_Kubectl \<leftarrow> rd_ptr kKubectlSpec rd_KubectlSpec h (ht_Kubectl x);
    v_Health \<leftarrow> rd_ptr kHealthCheckSpec rd_HealthCheckSpec h (ht_Health x);
    v_Restart \<leftarrow> rd_ptr kRestartPolicySpec rd_RestartPolicySpec h (ht_Restart x);
    v_StartupTimeout \<leftarrow> rd_ptr kDuration rd_flat h (ht_StartupTimeout x);
    v_ShutdownTimeout \<leftarrow> rd_ptr kDuration rd_flat h (ht_ShutdownTimeout x);
    v_NodeSelector \<leftarrow> rd_map kMapEntry h (ht_NodeSelector x);
    v_Expose \<leftarrow> rd_ptr kExposeSpec rd_flat h (ht_Expose x);
    Some \<lparr>kt_DependsOn = v_DependsOn, kt_SSH = v_SSH, kt_Kubectl = v_Kubectl, kt_Health = v_Health,
      kt_Restart = v_Restart, kt_StartupTimeout = v_StartupTimeout, kt_ShutdownTimeout = v_ShutdownTimeout,
      kt_NodeSelector = v_NodeSelector, kt_Expose = v_Expose\<rparr> }"

definition TunnelSpec_DeepCopyInto :: "HTunnelSpec \<Rightarrow> 'x heap \<Rightarrow> (HTunnelSpec \<times> 'x heap) option" where
  "TunnelSpec_DeepCopyInto x h = do {
    (y_DependsOn, h) \<leftarrow> copy_slice kString (ht_DependsOn x) h;
    (y_SSH, h) \<leftarrow> copy_ptr kSSHSpec SSHSpec_DeepCopyInto (ht_SSH x) h;
    (y_Kubectl, h) \<leftarrow> copy_ptr kKubectlSpec KubectlSpec_DeepCopyInto (ht_Kubectl x) h;
    (y_Health, h) \<leftarrow> copy_ptr kHealthCheckSpec HealthCheckSpec_DeepCopyInto (ht_Health x) h;
    (y_Restart, h) \<leftarrow> copy_ptr kRestartPolicySpec RestartPolicySpec_DeepCopyInto (ht_Restart x) h;
    (y_StartupTimeout, h) \<leftarrow> copy_val kDuration (ht_StartupTimeout x) h;
    (y_ShutdownTimeout, h) \<leftarrow> copy_val kDuration (ht_ShutdownTimeout x) h;
    (y_NodeSelector, h) \<leftarrow> copy_map kMapEntry (ht_NodeSelector x) h;
    (y_Expose, h) \<leftarrow> copy_val kExposeSpec (ht_Expose x) h;
    Some (x\<lparr>ht_DependsOn := y_DependsOn, ht_SSH := y_SSH, ht_Kubectl := y_Kubectl, ht_Health := y_Health,
      ht_Restart := y_Restart, ht_StartupTimeout := y_StartupTimeout, ht_ShutdownTimeout := y_ShutdownTimeout,
      ht_NodeSelector := y_NodeSelector, ht_Expose := y_Expose\<rparr>, h) }"

definition TunnelSpec_DeepCopy :: "ptr \<Rightarrow> 'x heap \<Rightarrow> (ptr \<times> 'x heap) option" where
  "TunnelSpec_DeepCopy = copy_ptr kTunnelSpec TunnelSpec_DeepCopyInto"

lemma copier_TunnelSpec:
  "copier rd_TunnelSpec TunnelSpec_DeepCopyInto"
  by (rule copier_struct [where
        get = "\<lambda>x. (ht_DependsOn x, ht_SSH x, ht_Kubectl x, ht_Health x, ht_Restart x, ht_StartupTimeout
          x, ht_ShutdownTimeout x, ht_NodeSelector x, ht_Expose x)"
        and put = "\<lambda>x (y_DependsOn, y_SSH, y_Kubectl, y_Health, y_Restart, y_StartupTimeout,
          y_ShutdownTimeout, y_NodeSelector, y_Expose). x\<lparr>ht_DependsOn := y_DependsOn, ht_SSH := y_SSH,
          ht_Kubectl := y_Kubectl, ht_Health := y_Health, ht_Restart := y_Restart, ht_StartupTimeout :=
          y_StartupTimeout, ht_ShutdownTimeout := y_ShutdownTimeout, ht_NodeSelector := y_NodeSelector,
          ht_Expose := y_Expose\<rparr>"
        and mk = "\<lambda>x (v_DependsOn, v_SSH, v_Kubectl, v_Health, v_Restart, v_StartupTimeout,
          v_ShutdownTimeout, v_NodeSelector, v_Expose). \<lparr>kt_DependsOn = v_DependsOn, kt_SSH = v_SSH,
          kt_Kubectl = v_Kubectl, kt_Health = v_Health, kt_Restart = v_Restart, kt_StartupTimeout =
          v_StartupTimeout, kt_ShutdownTimeout = v_ShutdownTimeout, kt_NodeSelector = v_NodeSelector, kt_Expose
          = v_Expose\<rparr>",
        OF copier_pair [OF copier_slice [OF kString_ok] copier_pair [OF copier_ptr [OF kSSHSpec_ok
          copier_SSHSpec] copier_pair [OF copier_ptr [OF kKubectlSpec_ok copier_KubectlSpec] copier_pair [OF
          copier_ptr [OF kHealthCheckSpec_ok copier_HealthCheckSpec] copier_pair [OF copier_ptr [OF
          kRestartPolicySpec_ok copier_RestartPolicySpec] copier_pair [OF copier_val [OF kDuration_ok]
          copier_pair [OF copier_val [OF kDuration_ok] copier_pair [OF copier_map [OF kMapEntry_ok] copier_val
          [OF kExposeSpec_ok]]]]]]]]]])
    (auto simp: rd_TunnelSpec_def TunnelSpec_DeepCopyInto_def copy_simps)

interpretation TunnelSpec: copier "rd_ptr kTunnelSpec rd_TunnelSpec" TunnelSpec_DeepCopy
  unfolding TunnelSpec_DeepCopy_def by (rule copier_ptr [OF kTunnelSpec_ok copier_TunnelSpec])

definition rd_TunnelStatus :: "('x, 'v) k8s_lib \<Rightarrow> 'x heap \<Rightarrow> HTunnelStatus \<Rightarrow> KTunnelStatus option" where
  "rd_TunnelStatus L h x = do {
    v_ResolvedForwards \<leftarrow> rd_slice kResolvedForward rd_flat h (hts_ResolvedForwards x);
    v_ServiceRef \<leftarrow> rd_ptr kLocalObjectRef rd_flat h (hts_ServiceRef x);
    v_Conditions \<leftarrow> rd_slice kCondition (lib_rd_Condition L) h (hts_Conditions x);
    Some \<lparr>kts_Phase = hts_Phase x, kts_Node = hts_Node x, kts_ResolvedForwards = v_ResolvedForwards,
      kts_ServiceRef = v_ServiceRef, kts_ObservedGeneration = hts_ObservedGeneration x, kts_Conditions =
      v_Conditions, kts_LastError = hts_LastError x\<rparr> }"

definition TunnelStatus_DeepCopyInto :: "('x, 'v) k8s_lib \<Rightarrow> HTunnelStatus \<Rightarrow> 'x heap \<Rightarrow> (HTunnelStatus \<times> 'x heap) option" where
  "TunnelStatus_DeepCopyInto L x h = do {
    (y_ResolvedForwards, h) \<leftarrow> copy_slice kResolvedForward (hts_ResolvedForwards x) h;
    (y_ServiceRef, h) \<leftarrow> copy_val kLocalObjectRef (hts_ServiceRef x) h;
    (y_Conditions, h) \<leftarrow> copy_each kCondition (lib_cp_Condition L) (hts_Conditions x) h;
    Some (x\<lparr>hts_ResolvedForwards := y_ResolvedForwards, hts_ServiceRef := y_ServiceRef, hts_Conditions :=
      y_Conditions\<rparr>, h) }"

definition TunnelStatus_DeepCopy :: "('x, 'v) k8s_lib \<Rightarrow> ptr \<Rightarrow> 'x heap \<Rightarrow> (ptr \<times> 'x heap) option" where
  "TunnelStatus_DeepCopy L = copy_ptr kTunnelStatus (TunnelStatus_DeepCopyInto L)"

lemma copier_TunnelStatus:
  assumes "lib_ok L"
  shows "copier (rd_TunnelStatus L) (TunnelStatus_DeepCopyInto L)"
  by (rule copier_struct [where
        get = "\<lambda>x. (hts_ResolvedForwards x, hts_ServiceRef x, hts_Conditions x)"
        and put = "\<lambda>x (y_ResolvedForwards, y_ServiceRef, y_Conditions). x\<lparr>hts_ResolvedForwards :=
          y_ResolvedForwards, hts_ServiceRef := y_ServiceRef, hts_Conditions := y_Conditions\<rparr>"
        and mk = "\<lambda>x (v_ResolvedForwards, v_ServiceRef, v_Conditions). \<lparr>kts_Phase = hts_Phase x,
          kts_Node = hts_Node x, kts_ResolvedForwards = v_ResolvedForwards, kts_ServiceRef = v_ServiceRef,
          kts_ObservedGeneration = hts_ObservedGeneration x, kts_Conditions = v_Conditions, kts_LastError =
          hts_LastError x\<rparr>",
        OF copier_pair [OF copier_slice [OF kResolvedForward_ok] copier_pair [OF copier_val [OF
          kLocalObjectRef_ok] copier_each [OF kCondition_ok lib_okD(3) [OF assms]]]]])
    (auto simp: rd_TunnelStatus_def TunnelStatus_DeepCopyInto_def copy_simps)

lemma TunnelStatus_DeepCopy_copier: "lib_ok L \<Longrightarrow> copier (rd_ptr kTunnelStatus (rd_TunnelStatus L)) (TunnelStatus_DeepCopy L)"
  unfolding TunnelStatus_DeepCopy_def by (rule copier_ptr [OF kTunnelStatus_ok copier_TunnelStatus])

definition rd_TunnelGroupMember :: "'x heap \<Rightarrow> HTunnelGroupMember \<Rightarrow> TunnelGroupMember option" where
  "rd_TunnelGroupMember h x = do {
    v_DependsOn \<leftarrow> rd_slice kString rd_flat h (hgm_DependsOn x);
    v_SSH \<leftarrow> rd_ptr kSSHSpec rd_SSHSpec h (hgm_SSH x);
    v_Kubectl \<leftarrow> rd_ptr kKubectlSpec rd_KubectlSpec h (hgm_Kubectl x);
    v_Health \<leftarrow> rd_ptr kHealthCheckSpec rd_HealthCheckSpec h (hgm_Health x);
    v_Restart \<leftarrow> rd_ptr kRestartPolicySpec rd_RestartPolicySpec h (hgm_Restart x);
    v_StartupTimeout \<leftarrow> rd_ptr kDuration rd_flat h (hgm_StartupTimeout x);
    v_ShutdownTimeout \<leftarrow> rd_ptr kDuration rd_flat h (hgm_ShutdownTimeout x);
    Some \<lparr>gm_Name = hgm_Name x, gm_DependsOn = v_DependsOn, gm_SSH = v_SSH, gm_Kubectl = v_Kubectl,
      gm_Health = v_Health, gm_Restart = v_Restart, gm_StartupTimeout = v_StartupTimeout, gm_ShutdownTimeout =
      v_ShutdownTimeout\<rparr> }"

definition TunnelGroupMember_DeepCopyInto :: "HTunnelGroupMember \<Rightarrow> 'x heap \<Rightarrow> (HTunnelGroupMember \<times> 'x heap) option" where
  "TunnelGroupMember_DeepCopyInto x h = do {
    (y_DependsOn, h) \<leftarrow> copy_slice kString (hgm_DependsOn x) h;
    (y_SSH, h) \<leftarrow> copy_ptr kSSHSpec SSHSpec_DeepCopyInto (hgm_SSH x) h;
    (y_Kubectl, h) \<leftarrow> copy_ptr kKubectlSpec KubectlSpec_DeepCopyInto (hgm_Kubectl x) h;
    (y_Health, h) \<leftarrow> copy_ptr kHealthCheckSpec HealthCheckSpec_DeepCopyInto (hgm_Health x) h;
    (y_Restart, h) \<leftarrow> copy_ptr kRestartPolicySpec RestartPolicySpec_DeepCopyInto (hgm_Restart x) h;
    (y_StartupTimeout, h) \<leftarrow> copy_val kDuration (hgm_StartupTimeout x) h;
    (y_ShutdownTimeout, h) \<leftarrow> copy_val kDuration (hgm_ShutdownTimeout x) h;
    Some (x\<lparr>hgm_DependsOn := y_DependsOn, hgm_SSH := y_SSH, hgm_Kubectl := y_Kubectl, hgm_Health :=
      y_Health, hgm_Restart := y_Restart, hgm_StartupTimeout := y_StartupTimeout, hgm_ShutdownTimeout :=
      y_ShutdownTimeout\<rparr>, h) }"

definition TunnelGroupMember_DeepCopy :: "ptr \<Rightarrow> 'x heap \<Rightarrow> (ptr \<times> 'x heap) option" where
  "TunnelGroupMember_DeepCopy = copy_ptr kTunnelGroupMember TunnelGroupMember_DeepCopyInto"

lemma copier_TunnelGroupMember:
  "copier rd_TunnelGroupMember TunnelGroupMember_DeepCopyInto"
  by (rule copier_struct [where
        get = "\<lambda>x. (hgm_DependsOn x, hgm_SSH x, hgm_Kubectl x, hgm_Health x, hgm_Restart x,
          hgm_StartupTimeout x, hgm_ShutdownTimeout x)"
        and put = "\<lambda>x (y_DependsOn, y_SSH, y_Kubectl, y_Health, y_Restart, y_StartupTimeout,
          y_ShutdownTimeout). x\<lparr>hgm_DependsOn := y_DependsOn, hgm_SSH := y_SSH, hgm_Kubectl := y_Kubectl,
          hgm_Health := y_Health, hgm_Restart := y_Restart, hgm_StartupTimeout := y_StartupTimeout,
          hgm_ShutdownTimeout := y_ShutdownTimeout\<rparr>"
        and mk = "\<lambda>x (v_DependsOn, v_SSH, v_Kubectl, v_Health, v_Restart, v_StartupTimeout,
          v_ShutdownTimeout). \<lparr>gm_Name = hgm_Name x, gm_DependsOn = v_DependsOn, gm_SSH = v_SSH,
          gm_Kubectl = v_Kubectl, gm_Health = v_Health, gm_Restart = v_Restart, gm_StartupTimeout =
          v_StartupTimeout, gm_ShutdownTimeout = v_ShutdownTimeout\<rparr>",
        OF copier_pair [OF copier_slice [OF kString_ok] copier_pair [OF copier_ptr [OF kSSHSpec_ok
          copier_SSHSpec] copier_pair [OF copier_ptr [OF kKubectlSpec_ok copier_KubectlSpec] copier_pair [OF
          copier_ptr [OF kHealthCheckSpec_ok copier_HealthCheckSpec] copier_pair [OF copier_ptr [OF
          kRestartPolicySpec_ok copier_RestartPolicySpec] copier_pair [OF copier_val [OF kDuration_ok]
          copier_val [OF kDuration_ok]]]]]]]])
    (auto simp: rd_TunnelGroupMember_def TunnelGroupMember_DeepCopyInto_def copy_simps)

interpretation TunnelGroupMember: copier "rd_ptr kTunnelGroupMember rd_TunnelGroupMember" TunnelGroupMember_DeepCopy
  unfolding TunnelGroupMember_DeepCopy_def by (rule copier_ptr [OF kTunnelGroupMember_ok copier_TunnelGroupMember])

definition rd_TunnelGroupSpec :: "'x heap \<Rightarrow> HTunnelGroupSpec \<Rightarrow> TunnelGroupSpec option" where
  "rd_TunnelGroupSpec h x = do {
    v_NodeSelector \<leftarrow> rd_map kMapEntry h (hgs_NodeSelector x);
    v_Tunnels \<leftarrow> rd_slice kTunnelGroupMember rd_TunnelGroupMember h (hgs_Tunnels x);
    v_Expose \<leftarrow> rd_slice kTunnelGroupExpose rd_flat h (hgs_Expose x);
    Some \<lparr>gs_NodeSelector = v_NodeSelector, gs_Tunnels = v_Tunnels, gs_Expose = v_Expose\<rparr> }"

definition TunnelGroupSpec_DeepCopyInto :: "HTunnelGroupSpec \<Rightarrow> 'x heap \<Rightarrow> (HTunnelGroupSpec \<times> 'x heap) option" where
  "TunnelGroupSpec_DeepCopyInto x h = do {
    (y_NodeSelector, h) \<leftarrow> copy_map kMapEntry (hgs_NodeSelector x) h;
    (y_Tunnels, h) \<leftarrow> copy_each kTunnelGroupMember TunnelGroupMember_DeepCopyInto (hgs_Tunnels x) h;
    (y_Expose, h) \<leftarrow> copy_slice kTunnelGroupExpose (hgs_Expose x) h;
    Some (x\<lparr>hgs_NodeSelector := y_NodeSelector, hgs_Tunnels := y_Tunnels, hgs_Expose := y_Expose\<rparr>,
      h) }"

definition TunnelGroupSpec_DeepCopy :: "ptr \<Rightarrow> 'x heap \<Rightarrow> (ptr \<times> 'x heap) option" where
  "TunnelGroupSpec_DeepCopy = copy_ptr kTunnelGroupSpec TunnelGroupSpec_DeepCopyInto"

lemma copier_TunnelGroupSpec:
  "copier rd_TunnelGroupSpec TunnelGroupSpec_DeepCopyInto"
  by (rule copier_struct [where
        get = "\<lambda>x. (hgs_NodeSelector x, hgs_Tunnels x, hgs_Expose x)"
        and put = "\<lambda>x (y_NodeSelector, y_Tunnels, y_Expose). x\<lparr>hgs_NodeSelector :=
          y_NodeSelector, hgs_Tunnels := y_Tunnels, hgs_Expose := y_Expose\<rparr>"
        and mk = "\<lambda>x (v_NodeSelector, v_Tunnels, v_Expose). \<lparr>gs_NodeSelector = v_NodeSelector,
          gs_Tunnels = v_Tunnels, gs_Expose = v_Expose\<rparr>",
        OF copier_pair [OF copier_map [OF kMapEntry_ok] copier_pair [OF copier_each [OF kTunnelGroupMember_ok
          copier_TunnelGroupMember] copier_slice [OF kTunnelGroupExpose_ok]]]])
    (auto simp: rd_TunnelGroupSpec_def TunnelGroupSpec_DeepCopyInto_def copy_simps)

interpretation TunnelGroupSpec: copier "rd_ptr kTunnelGroupSpec rd_TunnelGroupSpec" TunnelGroupSpec_DeepCopy
  unfolding TunnelGroupSpec_DeepCopy_def by (rule copier_ptr [OF kTunnelGroupSpec_ok copier_TunnelGroupSpec])

definition rd_TunnelGroupStatus :: "('x, 'v) k8s_lib \<Rightarrow> 'x heap \<Rightarrow> HTunnelGroupStatus \<Rightarrow> (TunnelGroupStatus \<times> Condition list) option" where
  "rd_TunnelGroupStatus L h x = do {
    v_Members \<leftarrow> rd_slice kTunnelGroupMemberStatus rd_flat h (hgst_Members x);
    v_Conditions \<leftarrow> rd_slice kCondition (lib_rd_Condition L) h (hgst_Conditions x);
    Some (\<lparr>gst_Phase = hgst_Phase x, gst_Node = hgst_Node x, gst_Members = v_Members,
      gst_ObservedGeneration = hgst_ObservedGeneration x, gst_LastError = hgst_LastError x\<rparr>,
      v_Conditions) }"

definition TunnelGroupStatus_DeepCopyInto :: "('x, 'v) k8s_lib \<Rightarrow> HTunnelGroupStatus \<Rightarrow> 'x heap \<Rightarrow> (HTunnelGroupStatus \<times> 'x heap) option" where
  "TunnelGroupStatus_DeepCopyInto L x h = do {
    (y_Members, h) \<leftarrow> copy_slice kTunnelGroupMemberStatus (hgst_Members x) h;
    (y_Conditions, h) \<leftarrow> copy_each kCondition (lib_cp_Condition L) (hgst_Conditions x) h;
    Some (x\<lparr>hgst_Members := y_Members, hgst_Conditions := y_Conditions\<rparr>, h) }"

definition TunnelGroupStatus_DeepCopy :: "('x, 'v) k8s_lib \<Rightarrow> ptr \<Rightarrow> 'x heap \<Rightarrow> (ptr \<times> 'x heap) option" where
  "TunnelGroupStatus_DeepCopy L = copy_ptr kTunnelGroupStatus (TunnelGroupStatus_DeepCopyInto L)"

lemma copier_TunnelGroupStatus:
  assumes "lib_ok L"
  shows "copier (rd_TunnelGroupStatus L) (TunnelGroupStatus_DeepCopyInto L)"
  by (rule copier_struct [where
        get = "\<lambda>x. (hgst_Members x, hgst_Conditions x)"
        and put = "\<lambda>x (y_Members, y_Conditions). x\<lparr>hgst_Members := y_Members, hgst_Conditions :=
          y_Conditions\<rparr>"
        and mk = "\<lambda>x (v_Members, v_Conditions). (\<lparr>gst_Phase = hgst_Phase x, gst_Node = hgst_Node
          x, gst_Members = v_Members, gst_ObservedGeneration = hgst_ObservedGeneration x, gst_LastError =
          hgst_LastError x\<rparr>, v_Conditions)",
        OF copier_pair [OF copier_slice [OF kTunnelGroupMemberStatus_ok] copier_each [OF kCondition_ok
          lib_okD(3) [OF assms]]]])
    (auto simp: rd_TunnelGroupStatus_def TunnelGroupStatus_DeepCopyInto_def copy_simps)

lemma TunnelGroupStatus_DeepCopy_copier: "lib_ok L \<Longrightarrow> copier (rd_ptr kTunnelGroupStatus (rd_TunnelGroupStatus L)) (TunnelGroupStatus_DeepCopy L)"
  unfolding TunnelGroupStatus_DeepCopy_def by (rule copier_ptr [OF kTunnelGroupStatus_ok copier_TunnelGroupStatus])

definition rd_TunnelKeySource :: "'x heap \<Rightarrow> HTunnelKeySource \<Rightarrow> TunnelKeySource option" where
  "rd_TunnelKeySource h x = do {
    v_SecretRef \<leftarrow> rd_ptr kSecretKeyRef rd_flat h (hsrc_SecretRef x);
    Some \<lparr>src_SecretRef = v_SecretRef\<rparr> }"

definition TunnelKeySource_DeepCopyInto :: "HTunnelKeySource \<Rightarrow> 'x heap \<Rightarrow> (HTunnelKeySource \<times> 'x heap) option" where
  "TunnelKeySource_DeepCopyInto x h = do {
    (y_SecretRef, h) \<leftarrow> copy_val kSecretKeyRef (hsrc_SecretRef x) h;
    Some (x\<lparr>hsrc_SecretRef := y_SecretRef\<rparr>, h) }"

definition TunnelKeySource_DeepCopy :: "ptr \<Rightarrow> 'x heap \<Rightarrow> (ptr \<times> 'x heap) option" where
  "TunnelKeySource_DeepCopy = copy_ptr kTunnelKeySource TunnelKeySource_DeepCopyInto"

lemma copier_TunnelKeySource:
  "copier rd_TunnelKeySource TunnelKeySource_DeepCopyInto"
  by (rule copier_struct [where
        get = "\<lambda>x. hsrc_SecretRef x"
        and put = "\<lambda>x y_SecretRef. x\<lparr>hsrc_SecretRef := y_SecretRef\<rparr>"
        and mk = "\<lambda>x v_SecretRef. \<lparr>src_SecretRef = v_SecretRef\<rparr>",
        OF copier_val [OF kSecretKeyRef_ok]])
    (auto simp: rd_TunnelKeySource_def TunnelKeySource_DeepCopyInto_def copy_simps)

interpretation TunnelKeySource: copier "rd_ptr kTunnelKeySource rd_TunnelKeySource" TunnelKeySource_DeepCopy
  unfolding TunnelKeySource_DeepCopy_def by (rule copier_ptr [OF kTunnelKeySource_ok copier_TunnelKeySource])

definition rd_TunnelKeySpec :: "'x heap \<Rightarrow> HTunnelKeySpec \<Rightarrow> TunnelKeySpec option" where
  "rd_TunnelKeySpec h x = do {
    v_Source \<leftarrow> rd_TunnelKeySource h (htks_Source x);
    v_NodeSelector \<leftarrow> rd_map kMapEntry h (htks_NodeSelector x);
    Some \<lparr>tks_Type = htks_Type x, tks_Source = v_Source, tks_NodeSelector = v_NodeSelector\<rparr> }"

definition TunnelKeySpec_DeepCopyInto :: "HTunnelKeySpec \<Rightarrow> 'x heap \<Rightarrow> (HTunnelKeySpec \<times> 'x heap) option" where
  "TunnelKeySpec_DeepCopyInto x h = do {
    (y_Source, h) \<leftarrow> TunnelKeySource_DeepCopyInto (htks_Source x) h;
    (y_NodeSelector, h) \<leftarrow> copy_map kMapEntry (htks_NodeSelector x) h;
    Some (x\<lparr>htks_Source := y_Source, htks_NodeSelector := y_NodeSelector\<rparr>, h) }"

definition TunnelKeySpec_DeepCopy :: "ptr \<Rightarrow> 'x heap \<Rightarrow> (ptr \<times> 'x heap) option" where
  "TunnelKeySpec_DeepCopy = copy_ptr kTunnelKeySpec TunnelKeySpec_DeepCopyInto"

lemma copier_TunnelKeySpec:
  "copier rd_TunnelKeySpec TunnelKeySpec_DeepCopyInto"
  by (rule copier_struct [where
        get = "\<lambda>x. (htks_Source x, htks_NodeSelector x)"
        and put = "\<lambda>x (y_Source, y_NodeSelector). x\<lparr>htks_Source := y_Source, htks_NodeSelector :=
          y_NodeSelector\<rparr>"
        and mk = "\<lambda>x (v_Source, v_NodeSelector). \<lparr>tks_Type = htks_Type x, tks_Source = v_Source,
          tks_NodeSelector = v_NodeSelector\<rparr>",
        OF copier_pair [OF copier_TunnelKeySource copier_map [OF kMapEntry_ok]]])
    (auto simp: rd_TunnelKeySpec_def TunnelKeySpec_DeepCopyInto_def copy_simps)

interpretation TunnelKeySpec: copier "rd_ptr kTunnelKeySpec rd_TunnelKeySpec" TunnelKeySpec_DeepCopy
  unfolding TunnelKeySpec_DeepCopy_def by (rule copier_ptr [OF kTunnelKeySpec_ok copier_TunnelKeySpec])

definition rd_TunnelKeyStatus :: "('x, 'v) k8s_lib \<Rightarrow> 'x heap \<Rightarrow> HTunnelKeyStatus \<Rightarrow> (TunnelKeyStatus \<times> Condition list) option" where
  "rd_TunnelKeyStatus L h x = do {
    v_InstalledNodes \<leftarrow> rd_slice kString rd_flat h (htkst_InstalledNodes x);
    v_Conditions \<leftarrow> rd_slice kCondition (lib_rd_Condition L) h (htkst_Conditions x);
    Some (\<lparr>tkst_Phase = htkst_Phase x, tkst_InstalledNodes = v_InstalledNodes, tkst_Fingerprint =
      htkst_Fingerprint x, tkst_ObservedGeneration = htkst_ObservedGeneration x, tkst_LastError =
      htkst_LastError x\<rparr>, v_Conditions) }"

definition TunnelKeyStatus_DeepCopyInto :: "('x, 'v) k8s_lib \<Rightarrow> HTunnelKeyStatus \<Rightarrow> 'x heap \<Rightarrow> (HTunnelKeyStatus \<times> 'x heap) option" where
  "TunnelKeyStatus_DeepCopyInto L x h = do {
    (y_InstalledNodes, h) \<leftarrow> copy_slice kString (htkst_InstalledNodes x) h;
    (y_Conditions, h) \<leftarrow> copy_each kCondition (lib_cp_Condition L) (htkst_Conditions x) h;
    Some (x\<lparr>htkst_InstalledNodes := y_InstalledNodes, htkst_Conditions := y_Conditions\<rparr>, h) }"

definition TunnelKeyStatus_DeepCopy :: "('x, 'v) k8s_lib \<Rightarrow> ptr \<Rightarrow> 'x heap \<Rightarrow> (ptr \<times> 'x heap) option" where
  "TunnelKeyStatus_DeepCopy L = copy_ptr kTunnelKeyStatus (TunnelKeyStatus_DeepCopyInto L)"

lemma copier_TunnelKeyStatus:
  assumes "lib_ok L"
  shows "copier (rd_TunnelKeyStatus L) (TunnelKeyStatus_DeepCopyInto L)"
  by (rule copier_struct [where
        get = "\<lambda>x. (htkst_InstalledNodes x, htkst_Conditions x)"
        and put = "\<lambda>x (y_InstalledNodes, y_Conditions). x\<lparr>htkst_InstalledNodes :=
          y_InstalledNodes, htkst_Conditions := y_Conditions\<rparr>"
        and mk = "\<lambda>x (v_InstalledNodes, v_Conditions). (\<lparr>tkst_Phase = htkst_Phase x,
          tkst_InstalledNodes = v_InstalledNodes, tkst_Fingerprint = htkst_Fingerprint x,
          tkst_ObservedGeneration = htkst_ObservedGeneration x, tkst_LastError = htkst_LastError x\<rparr>,
          v_Conditions)",
        OF copier_pair [OF copier_slice [OF kString_ok] copier_each [OF kCondition_ok lib_okD(3) [OF assms]]]])
    (auto simp: rd_TunnelKeyStatus_def TunnelKeyStatus_DeepCopyInto_def copy_simps)

lemma TunnelKeyStatus_DeepCopy_copier: "lib_ok L \<Longrightarrow> copier (rd_ptr kTunnelKeyStatus (rd_TunnelKeyStatus L)) (TunnelKeyStatus_DeepCopy L)"
  unfolding TunnelKeyStatus_DeepCopy_def by (rule copier_ptr [OF kTunnelKeyStatus_ok copier_TunnelKeyStatus])

section \<open>Objects and lists\<close>

definition rd_Tunnel :: "('x, 'v) k8s_lib \<Rightarrow> 'x heap \<Rightarrow> 'x HTunnel \<Rightarrow> (TypeMeta \<times> Tunnel) option" where
  "rd_Tunnel L h x = do {
    v_ObjectMeta \<leftarrow> lib_rd_meta L h (htn_ObjectMeta x);
    v_Spec \<leftarrow> rd_TunnelSpec h (htn_Spec x);
    v_Status \<leftarrow> rd_TunnelStatus L h (htn_Status x);
    Some (htn_TypeMeta x, \<lparr>tn_Meta = v_ObjectMeta, tn_Spec = v_Spec, tn_Status = v_Status\<rparr>) }"

definition Tunnel_DeepCopyInto :: "('x, 'v) k8s_lib \<Rightarrow> 'x HTunnel \<Rightarrow> 'x heap \<Rightarrow> ('x HTunnel \<times> 'x heap) option" where
  "Tunnel_DeepCopyInto L x h = do {
    (y_ObjectMeta, h) \<leftarrow> lib_cp_meta L (htn_ObjectMeta x) h;
    (y_Spec, h) \<leftarrow> TunnelSpec_DeepCopyInto (htn_Spec x) h;
    (y_Status, h) \<leftarrow> TunnelStatus_DeepCopyInto L (htn_Status x) h;
    Some (x\<lparr>htn_ObjectMeta := y_ObjectMeta, htn_Spec := y_Spec, htn_Status := y_Status\<rparr>, h) }"

definition Tunnel_DeepCopy :: "('x, 'v) k8s_lib \<Rightarrow> ptr \<Rightarrow> 'x heap \<Rightarrow> (ptr \<times> 'x heap) option" where
  "Tunnel_DeepCopy L = copy_ptr kTunnel (Tunnel_DeepCopyInto L)"

definition Tunnel_DeepCopyObject :: "('x, 'v) k8s_lib \<Rightarrow> ptr \<Rightarrow> 'x heap \<Rightarrow> (object option \<times> 'x heap) option" where
  "Tunnel_DeepCopyObject L p h = do {
    (c, h) \<leftarrow> Tunnel_DeepCopy L p h;
    Some (if c \<noteq> None then Some (TunnelObj c) else None, h) }"

lemma copier_Tunnel:
  assumes "lib_ok L"
  shows "copier (rd_Tunnel L) (Tunnel_DeepCopyInto L)"
  by (rule copier_struct [where
        get = "\<lambda>x. (htn_ObjectMeta x, htn_Spec x, htn_Status x)"
        and put = "\<lambda>x (y_ObjectMeta, y_Spec, y_Status). x\<lparr>htn_ObjectMeta := y_ObjectMeta,
          htn_Spec := y_Spec, htn_Status := y_Status\<rparr>"
        and mk = "\<lambda>x (v_ObjectMeta, v_Spec, v_Status). (htn_TypeMeta x, \<lparr>tn_Meta = v_ObjectMeta,
          tn_Spec = v_Spec, tn_Status = v_Status\<rparr>)",
        OF copier_pair [OF lib_okD(1) [OF assms] copier_pair [OF copier_TunnelSpec copier_TunnelStatus [OF
          assms]]]])
    (auto simp: rd_Tunnel_def Tunnel_DeepCopyInto_def copy_simps)

definition rd_TunnelGroup :: "('x, 'v) k8s_lib \<Rightarrow> 'x heap \<Rightarrow> 'x HTunnelGroup \<Rightarrow> (TypeMeta \<times> Condition list \<times> TunnelGroup) option" where
  "rd_TunnelGroup L h x = do {
    v_ObjectMeta \<leftarrow> lib_rd_meta L h (htg_ObjectMeta x);
    v_Spec \<leftarrow> rd_TunnelGroupSpec h (htg_Spec x);
    v_Status \<leftarrow> rd_TunnelGroupStatus L h (htg_Status x);
    Some (htg_TypeMeta x, snd v_Status, \<lparr>tg_Meta = v_ObjectMeta, tg_Spec = v_Spec, tg_Status = fst
      v_Status\<rparr>) }"

definition TunnelGroup_DeepCopyInto :: "('x, 'v) k8s_lib \<Rightarrow> 'x HTunnelGroup \<Rightarrow> 'x heap \<Rightarrow> ('x HTunnelGroup \<times> 'x heap) option" where
  "TunnelGroup_DeepCopyInto L x h = do {
    (y_ObjectMeta, h) \<leftarrow> lib_cp_meta L (htg_ObjectMeta x) h;
    (y_Spec, h) \<leftarrow> TunnelGroupSpec_DeepCopyInto (htg_Spec x) h;
    (y_Status, h) \<leftarrow> TunnelGroupStatus_DeepCopyInto L (htg_Status x) h;
    Some (x\<lparr>htg_ObjectMeta := y_ObjectMeta, htg_Spec := y_Spec, htg_Status := y_Status\<rparr>, h) }"

definition TunnelGroup_DeepCopy :: "('x, 'v) k8s_lib \<Rightarrow> ptr \<Rightarrow> 'x heap \<Rightarrow> (ptr \<times> 'x heap) option" where
  "TunnelGroup_DeepCopy L = copy_ptr kTunnelGroup (TunnelGroup_DeepCopyInto L)"

definition TunnelGroup_DeepCopyObject :: "('x, 'v) k8s_lib \<Rightarrow> ptr \<Rightarrow> 'x heap \<Rightarrow> (object option \<times> 'x heap) option" where
  "TunnelGroup_DeepCopyObject L p h = do {
    (c, h) \<leftarrow> TunnelGroup_DeepCopy L p h;
    Some (if c \<noteq> None then Some (TunnelGroupObj c) else None, h) }"

lemma copier_TunnelGroup:
  assumes "lib_ok L"
  shows "copier (rd_TunnelGroup L) (TunnelGroup_DeepCopyInto L)"
  by (rule copier_struct [where
        get = "\<lambda>x. (htg_ObjectMeta x, htg_Spec x, htg_Status x)"
        and put = "\<lambda>x (y_ObjectMeta, y_Spec, y_Status). x\<lparr>htg_ObjectMeta := y_ObjectMeta,
          htg_Spec := y_Spec, htg_Status := y_Status\<rparr>"
        and mk = "\<lambda>x (v_ObjectMeta, v_Spec, v_Status). (htg_TypeMeta x, snd v_Status, \<lparr>tg_Meta =
          v_ObjectMeta, tg_Spec = v_Spec, tg_Status = fst v_Status\<rparr>)",
        OF copier_pair [OF lib_okD(1) [OF assms] copier_pair [OF copier_TunnelGroupSpec copier_TunnelGroupStatus
          [OF assms]]]])
    (auto simp: rd_TunnelGroup_def TunnelGroup_DeepCopyInto_def copy_simps)

definition rd_TunnelKey :: "('x, 'v) k8s_lib \<Rightarrow> 'x heap \<Rightarrow> 'x HTunnelKey \<Rightarrow> (TypeMeta \<times> Condition list \<times> TunnelKey) option" where
  "rd_TunnelKey L h x = do {
    v_ObjectMeta \<leftarrow> lib_rd_meta L h (htk_ObjectMeta x);
    v_Spec \<leftarrow> rd_TunnelKeySpec h (htk_Spec x);
    v_Status \<leftarrow> rd_TunnelKeyStatus L h (htk_Status x);
    Some (htk_TypeMeta x, snd v_Status, \<lparr>tk_Meta = v_ObjectMeta, tk_Spec = v_Spec, tk_Status = fst
      v_Status\<rparr>) }"

definition TunnelKey_DeepCopyInto :: "('x, 'v) k8s_lib \<Rightarrow> 'x HTunnelKey \<Rightarrow> 'x heap \<Rightarrow> ('x HTunnelKey \<times> 'x heap) option" where
  "TunnelKey_DeepCopyInto L x h = do {
    (y_ObjectMeta, h) \<leftarrow> lib_cp_meta L (htk_ObjectMeta x) h;
    (y_Spec, h) \<leftarrow> TunnelKeySpec_DeepCopyInto (htk_Spec x) h;
    (y_Status, h) \<leftarrow> TunnelKeyStatus_DeepCopyInto L (htk_Status x) h;
    Some (x\<lparr>htk_ObjectMeta := y_ObjectMeta, htk_Spec := y_Spec, htk_Status := y_Status\<rparr>, h) }"

definition TunnelKey_DeepCopy :: "('x, 'v) k8s_lib \<Rightarrow> ptr \<Rightarrow> 'x heap \<Rightarrow> (ptr \<times> 'x heap) option" where
  "TunnelKey_DeepCopy L = copy_ptr kTunnelKey (TunnelKey_DeepCopyInto L)"

definition TunnelKey_DeepCopyObject :: "('x, 'v) k8s_lib \<Rightarrow> ptr \<Rightarrow> 'x heap \<Rightarrow> (object option \<times> 'x heap) option" where
  "TunnelKey_DeepCopyObject L p h = do {
    (c, h) \<leftarrow> TunnelKey_DeepCopy L p h;
    Some (if c \<noteq> None then Some (TunnelKeyObj c) else None, h) }"

lemma copier_TunnelKey:
  assumes "lib_ok L"
  shows "copier (rd_TunnelKey L) (TunnelKey_DeepCopyInto L)"
  by (rule copier_struct [where
        get = "\<lambda>x. (htk_ObjectMeta x, htk_Spec x, htk_Status x)"
        and put = "\<lambda>x (y_ObjectMeta, y_Spec, y_Status). x\<lparr>htk_ObjectMeta := y_ObjectMeta,
          htk_Spec := y_Spec, htk_Status := y_Status\<rparr>"
        and mk = "\<lambda>x (v_ObjectMeta, v_Spec, v_Status). (htk_TypeMeta x, snd v_Status, \<lparr>tk_Meta =
          v_ObjectMeta, tk_Spec = v_Spec, tk_Status = fst v_Status\<rparr>)",
        OF copier_pair [OF lib_okD(1) [OF assms] copier_pair [OF copier_TunnelKeySpec copier_TunnelKeyStatus [OF
          assms]]]])
    (auto simp: rd_TunnelKey_def TunnelKey_DeepCopyInto_def copy_simps)

definition rd_TunnelList :: "('x, 'v) k8s_lib \<Rightarrow> 'x heap \<Rightarrow> 'x HTunnelList \<Rightarrow> (TypeMeta \<times> 'v \<times> (TypeMeta \<times> Tunnel) list) option" where
  "rd_TunnelList L h x = do {
    v_ListMeta \<leftarrow> lib_rd_list L h (htl_ListMeta x);
    v_Items \<leftarrow> rd_slice kTunnel (rd_Tunnel L) h (htl_Items x);
    Some (htl_TypeMeta x, v_ListMeta, v_Items) }"

definition TunnelList_DeepCopyInto :: "('x, 'v) k8s_lib \<Rightarrow> 'x HTunnelList \<Rightarrow> 'x heap \<Rightarrow> ('x HTunnelList \<times> 'x heap) option" where
  "TunnelList_DeepCopyInto L x h = do {
    (y_ListMeta, h) \<leftarrow> lib_cp_list L (htl_ListMeta x) h;
    (y_Items, h) \<leftarrow> copy_each kTunnel (Tunnel_DeepCopyInto L) (htl_Items x) h;
    Some (x\<lparr>htl_ListMeta := y_ListMeta, htl_Items := y_Items\<rparr>, h) }"

definition TunnelList_DeepCopy :: "('x, 'v) k8s_lib \<Rightarrow> ptr \<Rightarrow> 'x heap \<Rightarrow> (ptr \<times> 'x heap) option" where
  "TunnelList_DeepCopy L = copy_ptr kTunnelList (TunnelList_DeepCopyInto L)"

definition TunnelList_DeepCopyObject :: "('x, 'v) k8s_lib \<Rightarrow> ptr \<Rightarrow> 'x heap \<Rightarrow> (object option \<times> 'x heap) option" where
  "TunnelList_DeepCopyObject L p h = do {
    (c, h) \<leftarrow> TunnelList_DeepCopy L p h;
    Some (if c \<noteq> None then Some (TunnelListObj c) else None, h) }"

lemma copier_TunnelList:
  assumes "lib_ok L"
  shows "copier (rd_TunnelList L) (TunnelList_DeepCopyInto L)"
  by (rule copier_struct [where
        get = "\<lambda>x. (htl_ListMeta x, htl_Items x)"
        and put = "\<lambda>x (y_ListMeta, y_Items). x\<lparr>htl_ListMeta := y_ListMeta, htl_Items :=
          y_Items\<rparr>"
        and mk = "\<lambda>x (v_ListMeta, v_Items). (htl_TypeMeta x, v_ListMeta, v_Items)",
        OF copier_pair [OF lib_okD(2) [OF assms] copier_each [OF kTunnel_ok copier_Tunnel [OF assms]]]])
    (auto simp: rd_TunnelList_def TunnelList_DeepCopyInto_def copy_simps)

definition rd_TunnelGroupList :: "('x, 'v) k8s_lib \<Rightarrow> 'x heap \<Rightarrow> 'x HTunnelGroupList \<Rightarrow> (TypeMeta \<times> 'v \<times> (TypeMeta \<times> Condition list \<times> TunnelGroup) list) option" where
  "rd_TunnelGroupList L h x = do {
    v_ListMeta \<leftarrow> lib_rd_list L h (htgl_ListMeta x);
    v_Items \<leftarrow> rd_slice kTunnelGroup (rd_TunnelGroup L) h (htgl_Items x);
    Some (htgl_TypeMeta x, v_ListMeta, v_Items) }"

definition TunnelGroupList_DeepCopyInto :: "('x, 'v) k8s_lib \<Rightarrow> 'x HTunnelGroupList \<Rightarrow> 'x heap \<Rightarrow> ('x HTunnelGroupList \<times> 'x heap) option" where
  "TunnelGroupList_DeepCopyInto L x h = do {
    (y_ListMeta, h) \<leftarrow> lib_cp_list L (htgl_ListMeta x) h;
    (y_Items, h) \<leftarrow> copy_each kTunnelGroup (TunnelGroup_DeepCopyInto L) (htgl_Items x) h;
    Some (x\<lparr>htgl_ListMeta := y_ListMeta, htgl_Items := y_Items\<rparr>, h) }"

definition TunnelGroupList_DeepCopy :: "('x, 'v) k8s_lib \<Rightarrow> ptr \<Rightarrow> 'x heap \<Rightarrow> (ptr \<times> 'x heap) option" where
  "TunnelGroupList_DeepCopy L = copy_ptr kTunnelGroupList (TunnelGroupList_DeepCopyInto L)"

definition TunnelGroupList_DeepCopyObject :: "('x, 'v) k8s_lib \<Rightarrow> ptr \<Rightarrow> 'x heap \<Rightarrow> (object option \<times> 'x heap) option" where
  "TunnelGroupList_DeepCopyObject L p h = do {
    (c, h) \<leftarrow> TunnelGroupList_DeepCopy L p h;
    Some (if c \<noteq> None then Some (TunnelGroupListObj c) else None, h) }"

lemma copier_TunnelGroupList:
  assumes "lib_ok L"
  shows "copier (rd_TunnelGroupList L) (TunnelGroupList_DeepCopyInto L)"
  by (rule copier_struct [where
        get = "\<lambda>x. (htgl_ListMeta x, htgl_Items x)"
        and put = "\<lambda>x (y_ListMeta, y_Items). x\<lparr>htgl_ListMeta := y_ListMeta, htgl_Items :=
          y_Items\<rparr>"
        and mk = "\<lambda>x (v_ListMeta, v_Items). (htgl_TypeMeta x, v_ListMeta, v_Items)",
        OF copier_pair [OF lib_okD(2) [OF assms] copier_each [OF kTunnelGroup_ok copier_TunnelGroup [OF
          assms]]]])
    (auto simp: rd_TunnelGroupList_def TunnelGroupList_DeepCopyInto_def copy_simps)

definition rd_TunnelKeyList :: "('x, 'v) k8s_lib \<Rightarrow> 'x heap \<Rightarrow> 'x HTunnelKeyList \<Rightarrow> (TypeMeta \<times> 'v \<times> (TypeMeta \<times> Condition list \<times> TunnelKey) list) option" where
  "rd_TunnelKeyList L h x = do {
    v_ListMeta \<leftarrow> lib_rd_list L h (htkl_ListMeta x);
    v_Items \<leftarrow> rd_slice kTunnelKey (rd_TunnelKey L) h (htkl_Items x);
    Some (htkl_TypeMeta x, v_ListMeta, v_Items) }"

definition TunnelKeyList_DeepCopyInto :: "('x, 'v) k8s_lib \<Rightarrow> 'x HTunnelKeyList \<Rightarrow> 'x heap \<Rightarrow> ('x HTunnelKeyList \<times> 'x heap) option" where
  "TunnelKeyList_DeepCopyInto L x h = do {
    (y_ListMeta, h) \<leftarrow> lib_cp_list L (htkl_ListMeta x) h;
    (y_Items, h) \<leftarrow> copy_each kTunnelKey (TunnelKey_DeepCopyInto L) (htkl_Items x) h;
    Some (x\<lparr>htkl_ListMeta := y_ListMeta, htkl_Items := y_Items\<rparr>, h) }"

definition TunnelKeyList_DeepCopy :: "('x, 'v) k8s_lib \<Rightarrow> ptr \<Rightarrow> 'x heap \<Rightarrow> (ptr \<times> 'x heap) option" where
  "TunnelKeyList_DeepCopy L = copy_ptr kTunnelKeyList (TunnelKeyList_DeepCopyInto L)"

definition TunnelKeyList_DeepCopyObject :: "('x, 'v) k8s_lib \<Rightarrow> ptr \<Rightarrow> 'x heap \<Rightarrow> (object option \<times> 'x heap) option" where
  "TunnelKeyList_DeepCopyObject L p h = do {
    (c, h) \<leftarrow> TunnelKeyList_DeepCopy L p h;
    Some (if c \<noteq> None then Some (TunnelKeyListObj c) else None, h) }"

lemma copier_TunnelKeyList:
  assumes "lib_ok L"
  shows "copier (rd_TunnelKeyList L) (TunnelKeyList_DeepCopyInto L)"
  by (rule copier_struct [where
        get = "\<lambda>x. (htkl_ListMeta x, htkl_Items x)"
        and put = "\<lambda>x (y_ListMeta, y_Items). x\<lparr>htkl_ListMeta := y_ListMeta, htkl_Items :=
          y_Items\<rparr>"
        and mk = "\<lambda>x (v_ListMeta, v_Items). (htkl_TypeMeta x, v_ListMeta, v_Items)",
        OF copier_pair [OF lib_okD(2) [OF assms] copier_each [OF kTunnelKey_ok copier_TunnelKey [OF assms]]]])
    (auto simp: rd_TunnelKeyList_def TunnelKeyList_DeepCopyInto_def copy_simps)

section \<open>Every object\<close>

text \<open>The value of an object; a nil pointer in it has the value \<open>None\<close>.\<close>

datatype 'v object_value =
    TunnelV "(TypeMeta \<times> Tunnel) option"
  | TunnelGroupV "(TypeMeta \<times> Condition list \<times> TunnelGroup) option"
  | TunnelKeyV "(TypeMeta \<times> Condition list \<times> TunnelKey) option"
  | TunnelListV "(TypeMeta \<times> 'v \<times> (TypeMeta \<times> Tunnel) list) option"
  | TunnelGroupListV "(TypeMeta \<times> 'v \<times> (TypeMeta \<times> Condition list \<times> TunnelGroup) list) option"
  | TunnelKeyListV "(TypeMeta \<times> 'v \<times> (TypeMeta \<times> Condition list \<times> TunnelKey) list) option"

fun rd_object :: "('x, 'v) k8s_lib \<Rightarrow> 'x heap \<Rightarrow> object \<Rightarrow> 'v object_value option" where
  "rd_object L h (TunnelObj p) = map_option TunnelV (rd_ptr kTunnel (rd_Tunnel L) h p)"
| "rd_object L h (TunnelGroupObj p) = map_option TunnelGroupV (rd_ptr kTunnelGroup (rd_TunnelGroup L) h p)"
| "rd_object L h (TunnelKeyObj p) = map_option TunnelKeyV (rd_ptr kTunnelKey (rd_TunnelKey L) h p)"
| "rd_object L h (TunnelListObj p) = map_option TunnelListV (rd_ptr kTunnelList (rd_TunnelList L) h p)"
| "rd_object L h (TunnelGroupListObj p) = map_option TunnelGroupListV (rd_ptr kTunnelGroupList (rd_TunnelGroupList L) h p)"
| "rd_object L h (TunnelKeyListObj p) = map_option TunnelKeyListV (rd_ptr kTunnelKeyList (rd_TunnelKeyList L) h p)"

text \<open>The pointer in the interface, and the call of the method through it.\<close>

fun object_ptr :: "object \<Rightarrow> ptr" where
  "object_ptr (TunnelObj p) = p"
| "object_ptr (TunnelGroupObj p) = p"
| "object_ptr (TunnelKeyObj p) = p"
| "object_ptr (TunnelListObj p) = p"
| "object_ptr (TunnelGroupListObj p) = p"
| "object_ptr (TunnelKeyListObj p) = p"

fun DeepCopyObject :: "('x, 'v) k8s_lib \<Rightarrow> object \<Rightarrow> 'x heap \<Rightarrow> (object option \<times> 'x heap) option" where
  "DeepCopyObject L (TunnelObj p) h = Tunnel_DeepCopyObject L p h"
| "DeepCopyObject L (TunnelGroupObj p) h = TunnelGroup_DeepCopyObject L p h"
| "DeepCopyObject L (TunnelKeyObj p) h = TunnelKey_DeepCopyObject L p h"
| "DeepCopyObject L (TunnelListObj p) h = TunnelList_DeepCopyObject L p h"
| "DeepCopyObject L (TunnelGroupListObj p) h = TunnelGroupList_DeepCopyObject L p h"
| "DeepCopyObject L (TunnelKeyListObj p) h = TunnelKeyList_DeepCopyObject L p h"

lemma copy_ptr_nil: "copy_ptr K into None h = Some (None, h)"
  by (simp add: copy_ptr_def)

lemmas DeepCopy_defs = Tunnel_DeepCopy_def TunnelGroup_DeepCopy_def TunnelKey_DeepCopy_def
  TunnelList_DeepCopy_def TunnelGroupList_DeepCopy_def TunnelKeyList_DeepCopy_def

lemmas DeepCopyObject_defs = Tunnel_DeepCopyObject_def TunnelGroup_DeepCopyObject_def TunnelKey_DeepCopyObject_def
  TunnelList_DeepCopyObject_def TunnelGroupList_DeepCopyObject_def TunnelKeyList_DeepCopyObject_def

lemma DeepCopyObject_nil: "object_ptr ob = None \<Longrightarrow> DeepCopyObject L ob h = Some (None, h)"
  by (cases ob) (simp_all add: DeepCopyObject_defs DeepCopy_defs copy_ptr_nil)

text \<open>A pointer that is not nil is copied to one that is not nil.\<close>

lemma copy_ptr_isolated:
  assumes "kind_ok K" and "copier rd into" and "rd_ptr K rd h p = Some v" and "p \<noteq> None"
  shows "\<exists>c k. copy_ptr K into p h = Some (c, h @ k) \<and> c \<noteq> None \<and>
    (\<forall>g. length g = length h \<longrightarrow> rd_ptr K rd (g @ k) c = Some v) \<and> (\<forall>k'. rd_ptr K rd (h @ k') p = Some v)"
proof -
  note cp = copier_ptr [OF assms(1,2)]
  obtain c k where c: "copy_ptr K into p h = Some (c, h @ k)"
    "\<forall>g. length g = length h \<longrightarrow> rd_ptr K rd (g @ k) c = Some v" "\<forall>k'. rd_ptr K rd (h @ k') p = Some v"
    using copier.isolated [OF cp assms(3)] by blast
  moreover have "v \<noteq> None"
    using assms(3,4) by (auto simp: rd_ptr_def bind_eq_Some_conv)
  then have "c \<noteq> None"
    using c(2) [rule_format, OF refl] by (cases c) (simp_all add: rd_ptr_def)
  ultimately show ?thesis by blast
qed

lemma object_copy:
  assumes "kind_ok K" and "copier rd into" and "\<And>h p. RD h (Obj p) = map_option V (rd_ptr K rd h p)"
    and "RD h (Obj p) = Some v" and "p \<noteq> None"
    and "C (Obj p) h = do { (c, h) \<leftarrow> copy_ptr K into p h; Some (if c \<noteq> None then Some (Obj c) else None, h) }"
  shows "\<exists>c k. C (Obj p) h = Some (Some c, h @ k) \<and> (\<forall>g. length g = length h \<longrightarrow> RD (g @ k) c = Some v) \<and>
    (\<forall>k'. RD (h @ k') (Obj p) = Some v)"
proof -
  obtain w where w: "rd_ptr K rd h p = Some w" "V w = v"
    using assms(3,4) by auto
  obtain c k where "copy_ptr K into p h = Some (c, h @ k)" "c \<noteq> None"
    "\<forall>g. length g = length h \<longrightarrow> rd_ptr K rd (g @ k) c = Some w" "\<forall>k'. rd_ptr K rd (h @ k') p = Some w"
    using copy_ptr_isolated [OF assms(1,2) w(1) assms(5)] by (elim exE conjE)
  then show ?thesis
    using w(2) by (intro exI [of _ "Obj c"] exI [of _ k]) (simp add: assms(3,6))
qed

lemma DeepCopyObject_copies:
  assumes "lib_ok L" and "rd_object L h ob = Some v" and "object_ptr ob \<noteq> None"
  shows "\<exists>c k. DeepCopyObject L ob h = Some (Some c, h @ k) \<and>
    (\<forall>g. length g = length h \<longrightarrow> rd_object L (g @ k) c = Some v) \<and> (\<forall>k'. rd_object L (h @ k') ob = Some v)"
proof (cases ob)
  case (TunnelObj p)
  show ?thesis
    unfolding TunnelObj
    by (rule object_copy [where Obj = TunnelObj, OF kTunnel_ok copier_Tunnel [OF assms(1)]])
      (use assms(2,3) TunnelObj in \<open>simp_all add: Tunnel_DeepCopyObject_def Tunnel_DeepCopy_def\<close>)
next
  case (TunnelGroupObj p)
  show ?thesis
    unfolding TunnelGroupObj
    by (rule object_copy [where Obj = TunnelGroupObj, OF kTunnelGroup_ok copier_TunnelGroup [OF assms(1)]])
      (use assms(2,3) TunnelGroupObj in \<open>simp_all add: TunnelGroup_DeepCopyObject_def TunnelGroup_DeepCopy_def\<close>)
next
  case (TunnelKeyObj p)
  show ?thesis
    unfolding TunnelKeyObj
    by (rule object_copy [where Obj = TunnelKeyObj, OF kTunnelKey_ok copier_TunnelKey [OF assms(1)]])
      (use assms(2,3) TunnelKeyObj in \<open>simp_all add: TunnelKey_DeepCopyObject_def TunnelKey_DeepCopy_def\<close>)
next
  case (TunnelListObj p)
  show ?thesis
    unfolding TunnelListObj
    by (rule object_copy [where Obj = TunnelListObj, OF kTunnelList_ok copier_TunnelList [OF assms(1)]])
      (use assms(2,3) TunnelListObj in \<open>simp_all add: TunnelList_DeepCopyObject_def TunnelList_DeepCopy_def\<close>)
next
  case (TunnelGroupListObj p)
  show ?thesis
    unfolding TunnelGroupListObj
    by (rule object_copy [where Obj = TunnelGroupListObj, OF kTunnelGroupList_ok copier_TunnelGroupList [OF assms(1)]])
      (use assms(2,3) TunnelGroupListObj in \<open>simp_all add: TunnelGroupList_DeepCopyObject_def TunnelGroupList_DeepCopy_def\<close>)
next
  case (TunnelKeyListObj p)
  show ?thesis
    unfolding TunnelKeyListObj
    by (rule object_copy [where Obj = TunnelKeyListObj, OF kTunnelKeyList_ok copier_TunnelKeyList [OF assms(1)]])
      (use assms(2,3) TunnelKeyListObj in \<open>simp_all add: TunnelKeyList_DeepCopyObject_def TunnelKeyList_DeepCopy_def\<close>)
qed

text \<open>
  C39: The deep copy of a resource is isolated from it. For each of the six kinds of objects
  (tunnels, groups, keys and their lists), \<open>DeepCopyObject\<close> of a nil pointer is the nil
  interface. Of any other object it is an object of the same kind and value: type, metadata,
  spec and status down to every optional setting, forward, option, selector and condition. It is made
  of new cells alone and writes no old one; whatever is written to the old cells later, the
  copy keeps that value, and whatever is written to the new ones, the original does. The
  library's own deep copies, of metadata and conditions, are assumed to do the same.
\<close>

theorem DeepCopyObject_isolated:
  assumes "lib_ok L" and "rd_object L h ob = Some v"
  shows "if object_ptr ob = None then DeepCopyObject L ob h = Some (None, h)
    else \<exists>c k. DeepCopyObject L ob h = Some (Some c, h @ k) \<and>
      (\<forall>g. length g = length h \<longrightarrow> rd_object L (g @ k) c = Some v) \<and> (\<forall>k'. rd_object L (h @ k') ob = Some v)"
proof (cases "object_ptr ob = None")
  case True
  then show ?thesis by (simp add: DeepCopyObject_nil)
next
  case False
  show ?thesis
    unfolding if_not_P [OF False] by (rule DeepCopyObject_copies [OF assms False])
qed

text \<open>An instance: a library whose metadata is a name with a map of labels, and a tunnel in memory.\<close>

record demo_meta =
  dm_Name :: string
  dm_Labels :: mapref

definition demo_rd_meta :: "demo_meta heap \<Rightarrow> demo_meta \<Rightarrow> ObjectMeta option" where
  "demo_rd_meta h x = do {
    labels \<leftarrow> rd_map kMapEntry h (dm_Labels x);
    Some \<lparr>om_Name = dm_Name x, om_Namespace = '''', om_Generation = 1, om_Labels = labels, om_Owner = None\<rparr> }"

definition demo_cp_meta :: "demo_meta \<Rightarrow> demo_meta heap \<Rightarrow> (demo_meta \<times> demo_meta heap) option" where
  "demo_cp_meta x h = do { (l, h) \<leftarrow> copy_map kMapEntry (dm_Labels x) h; Some (x\<lparr>dm_Labels := l\<rparr>, h) }"

definition demo_lib :: "(demo_meta, string) k8s_lib" where
  "demo_lib = \<lparr>lib_rd_meta = demo_rd_meta, lib_rd_list = (\<lambda>h x. Some (dm_Name x)),
    lib_rd_Condition = (\<lambda>h x. Some \<lparr>cd_Type = dm_Name x, cd_Status = ''True'', cd_Reason = '''', cd_Message = '''',
      cd_LastTransitionTime = 0, cd_ObservedGeneration = 1\<rparr>),
    lib_cp_meta = demo_cp_meta, lib_cp_list = (\<lambda>x h. Some (x, h)), lib_cp_Condition = (\<lambda>x h. Some (x, h))\<rparr>"

lemma demo_lib_ok: "lib_ok demo_lib"
proof -
  have "copier demo_rd_meta demo_cp_meta"
    by (rule copier_struct [where get = dm_Labels and put = "\<lambda>x l. x\<lparr>dm_Labels := l\<rparr>"
          and mk = "\<lambda>x l. \<lparr>om_Name = dm_Name x, om_Namespace = '''', om_Generation = 1, om_Labels = l, om_Owner = None\<rparr>",
          OF copier_map [OF kMapEntry_ok]])
      (auto simp: demo_rd_meta_def demo_cp_meta_def copy_simps)
  then show ?thesis
    by (auto simp: lib_ok_def demo_lib_def copier_def)
qed

definition demo_heap :: "demo_meta heap" where
  "demo_heap =
    [C_Tunnel [\<lparr>htn_TypeMeta = \<lparr>ty_Kind = ''Tunnel'', ty_APIVersion = ''v1alpha1''\<rparr>,
       htn_ObjectMeta = \<lparr>dm_Name = ''db'', dm_Labels = Some 1\<rparr>,
       htn_Spec = \<lparr>ht_DependsOn = None, ht_SSH = Some (2, 0), ht_Kubectl = None, ht_Health = None, ht_Restart = None,
         ht_StartupTimeout = None, ht_ShutdownTimeout = None, ht_NodeSelector = Some 3, ht_Expose = None\<rparr>,
       htn_Status = \<lparr>hts_Phase = PhaseHealthy, hts_Node = ''node-1'', hts_ResolvedForwards = None,
         hts_ServiceRef = None, hts_ObservedGeneration = 1, hts_Conditions = Some (6, 0, 1), hts_LastError = ''''\<rparr>\<rparr>],
     C_MapEntry [(''app'', ''db'')],
     C_SSHSpec [\<lparr>hssh_User = ''u'', hssh_Host = ''h'', hssh_Port = 22, hssh_IdentityKeyRef = None,
       hssh_IdentityKeySecretRef = None, hssh_LocalForwards = Some (4, 1, 1), hssh_Options = Some 5\<rparr>],
     C_MapEntry [(''zone'', ''a''), (''disk'', ''ssd'')],
     C_SSHForward [\<lparr>ksf_ListenAddress = '''', ksf_ListenPort = 1, ksf_TargetHost = ''t'', ksf_TargetPort = 2\<rparr>,
       \<lparr>ksf_ListenAddress = '''', ksf_ListenPort = 3, ksf_TargetHost = ''t'', ksf_TargetPort = 4\<rparr>],
     C_MapEntry [(''Compression'', ''yes'')],
     C_Lib [\<lparr>dm_Name = ''Ready'', dm_Labels = None\<rparr>]]"

lemma demo_heap_reads: "\<exists>v. rd_object demo_lib demo_heap (TunnelObj (Some (0, 0))) = Some v"
  by (simp add: demo_heap_def demo_lib_def demo_rd_meta_def rd_ptr_def rd_slice_def rd_map_def load_def elements_def
      array_def rd_flat_def rd_Tunnel_def rd_TunnelSpec_def rd_TunnelStatus_def rd_SSHSpec_def
      kTunnel_def kMapEntry_def kSSHSpec_def kSSHForward_def kCondition_def)

lemma DeepCopyObject_isolated_witness:
  "\<exists>v c k. rd_object demo_lib demo_heap (TunnelObj (Some (0, 0))) = Some v \<and>
    DeepCopyObject demo_lib (TunnelObj (Some (0, 0))) demo_heap = Some (Some c, demo_heap @ k) \<and>
    (\<forall>g. length g = length demo_heap \<longrightarrow> rd_object demo_lib (g @ k) c = Some v)"
proof -
  obtain v where v: "rd_object demo_lib demo_heap (TunnelObj (Some (0, 0))) = Some v"
    using demo_heap_reads by (elim exE)
  show ?thesis
    using v DeepCopyObject_isolated [OF demo_lib_ok v] by auto
qed


end
