(* ===== verification/Settings.thy ===== *)
theory Settings
  imports Client_Calls
begin

text \<open>
  \<open>cmd/tunneld/cmd/root.go\<close> and \<open>cmd/tunnelctl/cmd/root.go\<close>: from the command line, the
  environment and the settings file to the arguments of the commands. The viper library is a
  parameter; the locale \<open>viper_library\<close> states what its documentation says: a setting is the
  flag given on the command line, else the environment variable, else the value in the file,
  else the default of the flag.
\<close>

section \<open>The library\<close>

text \<open>A flag of the command line, as the parser has left it.\<close>

record pflag =
  pf_default :: string
  pf_given :: "string option"

definition pf_value :: "pflag \<Rightarrow> string" where
  "pf_value f = (case pf_given f of Some s \<Rightarrow> s | None \<Rightarrow> pf_default f)"

text \<open>
  Settings of the type \<open>'v\<close>. What a file contains as settings and the environment (empty where
  a variable is not set) are arguments.
\<close>

record 'v viper_ops =
  vp_New :: 'v
  vp_BindPFlag :: "'v \<Rightarrow> string \<Rightarrow> pflag \<Rightarrow> 'v"
  vp_SetConfigFile :: "'v \<Rightarrow> string \<Rightarrow> 'v"
  vp_AutomaticEnv :: "'v \<Rightarrow> 'v"
  vp_ReadInConfig :: "'v \<Rightarrow> (string \<Rightarrow> err + (string \<rightharpoonup> string)) \<Rightarrow> err option \<times> 'v"
  vp_ConfigFileUsed :: "'v \<Rightarrow> string"
  vp_GetString :: "'v \<Rightarrow> (string \<Rightarrow> string) \<Rightarrow> string \<Rightarrow> string"
  vp_GetBool :: "'v \<Rightarrow> (string \<Rightarrow> string) \<Rightarrow> string \<Rightarrow> bool"

text \<open>What the settings are known by.\<close>

record settings_view =
  vw_flags :: "string \<rightharpoonup> pflag"
  vw_env :: bool
  vw_file :: string
  vw_values :: "string \<rightharpoonup> string"

definition upper_char :: "char \<Rightarrow> char" where
  "upper_char c = (if of_char c \<ge> (97::nat) \<and> of_char c \<le> (122::nat) then char_of (of_char c - 32 :: nat) else c)"

definition setting :: "settings_view \<Rightarrow> (string \<Rightarrow> string) \<Rightarrow> string \<Rightarrow> string" where
  "setting s env k =
    (let f = vw_flags s k; e = (if vw_env s then env (map upper_char k) else []) in
     case Option.bind f pf_given of Some x \<Rightarrow> x
     | None \<Rightarrow> if e \<noteq> [] then e
       else (case vw_values s k of Some x \<Rightarrow> x
       | None \<Rightarrow> (case f of Some g \<Rightarrow> pf_default g | None \<Rightarrow> [])))"

definition true_texts :: "string list" where
  "true_texts = [''1'', ''t'', ''T'', ''true'', ''TRUE'', ''True'']"

section \<open>The programs\<close>

definition DefaultSocketPath :: string where
  "DefaultSocketPath = ''/run/tunneld/tunneld.sock''"

definition DefaultKeyDir :: string where
  "DefaultKeyDir = ''/var/lib/tunneld/keys''"

definition DefaultTunnelsDir :: string where
  "DefaultTunnelsDir = ''/etc/tunneld/tunnels.d''"

definition DefaultConfigFile :: string where
  "DefaultConfigFile = ''tunnels.yaml''"

text \<open>
  \<open>init\<close> declares and binds the flags; viper looks at a bound flag when it is asked for the
  setting, so the flag is taken as the parser leaves it. \<open>given\<close> is the parsed command line.
\<close>

definition root_flag :: "(string \<rightharpoonup> string) \<Rightarrow> string \<Rightarrow> string \<Rightarrow> pflag" where
  "root_flag given name dflt = \<lparr>pf_default = dflt, pf_given = given name\<rparr>"

definition daemon_root_init :: "'v viper_ops \<Rightarrow> (string \<rightharpoonup> string) \<Rightarrow> 'v \<Rightarrow> 'v" where
  "daemon_root_init V given v =
    (let v = vp_BindPFlag V v ''config'' (root_flag given ''config'' DefaultConfigFile);
         v = vp_BindPFlag V v ''socket'' (root_flag given ''socket'' DefaultSocketPath);
         v = vp_BindPFlag V v ''key-dir'' (root_flag given ''key-dir'' DefaultKeyDir)
     in vp_BindPFlag V v ''tunnels-dir'' (root_flag given ''tunnels-dir'' DefaultTunnelsDir))"

definition run_init :: "'v viper_ops \<Rightarrow> (string \<rightharpoonup> string) \<Rightarrow> 'v \<Rightarrow> 'v" where
  "run_init V given v = vp_BindPFlag V v ''no-config'' (root_flag given ''no-config'' ''false'')"

text \<open>\<open>initConfig\<close>, with the lines it prints.\<close>

definition daemon_initConfig :: "'v viper_ops \<Rightarrow> string \<Rightarrow> (string \<Rightarrow> err + (string \<rightharpoonup> string)) \<Rightarrow> 'v \<Rightarrow>
    string list \<times> 'v" where
  "daemon_initConfig V cfgFile files v =
    (let v1 = vp_AutomaticEnv V (if cfgFile \<noteq> [] then vp_SetConfigFile V v cfgFile else v) in
     case vp_ReadInConfig V v1 files of
       (None, v2) \<Rightarrow> ([''Using config file: '' @ vp_ConfigFileUsed V v2], v2)
     | (Some e, v2) \<Rightarrow> ([], v2))"

definition daemon_settings :: "'v viper_ops \<Rightarrow> (string \<rightharpoonup> string) \<Rightarrow> (string \<Rightarrow> err + (string \<rightharpoonup> string)) \<Rightarrow>
    string list \<times> 'v" where
  "daemon_settings V given files =
    daemon_initConfig V (pf_value (root_flag given ''config'' DefaultConfigFile)) files
      (run_init V given (daemon_root_init V given (vp_New V)))"

text \<open>The \<open>Run\<close> functions of the three commands.\<close>

definition runCmd :: "'w os \<Rightarrow> duration_ops \<Rightarrow> yaml_ops \<Rightarrow> ('g, 'i) graph_ops \<Rightarrow> config_visits \<Rightarrow>
    (string \<Rightarrow> (string \<times> string) list) \<Rightarrow> err option \<Rightarrow> 'v viper_ops \<Rightarrow> 'v \<Rightarrow> (string \<Rightarrow> string) \<Rightarrow> 'w \<Rightarrow>
    (err + ('w, 'g, 'i) Supervisor) go" where
  "runCmd S D Y G v opts listen V s env w =
    run_daemon S D Y G v opts listen (vp_GetString V s env ''config'') (vp_GetString V s env ''socket'')
      (vp_GetString V s env ''key-dir'') (vp_GetString V s env ''tunnels-dir'') (vp_GetBool V s env ''no-config'') w"

definition validateCmd :: "'w os \<Rightarrow> duration_ops \<Rightarrow> yaml_ops \<Rightarrow> ('g, 'i) graph_ops \<Rightarrow> config_visits \<Rightarrow>
    'v viper_ops \<Rightarrow> 'v \<Rightarrow> (string \<Rightarrow> string) \<Rightarrow> 'w \<Rightarrow> err option go" where
  "validateCmd S D Y G v V s env w = validate_cmd S D Y G v (vp_GetString V s env ''config'') w"

definition planCmd :: "'w os \<Rightarrow> duration_ops \<Rightarrow> yaml_ops \<Rightarrow> ('g, 'i) graph_ops \<Rightarrow> config_visits \<Rightarrow>
    'v viper_ops \<Rightarrow> 'v \<Rightarrow> (string \<Rightarrow> string) \<Rightarrow> 'w \<Rightarrow> (err + string list) go" where
  "planCmd S D Y G v V s env w = plan_cmd S D Y G v (vp_GetString V s env ''config'') w"

text \<open>The client has one flag and reads no file.\<close>

definition client_root_init :: "'v viper_ops \<Rightarrow> (string \<rightharpoonup> string) \<Rightarrow> 'v \<Rightarrow> 'v" where
  "client_root_init V given v = vp_BindPFlag V v ''socket'' (root_flag given ''socket'' DefaultSocketPath)"

definition client_initConfig :: "'v viper_ops \<Rightarrow> 'v \<Rightarrow> 'v" where
  "client_initConfig V v = vp_AutomaticEnv V v"

definition client_settings :: "'v viper_ops \<Rightarrow> (string \<rightharpoonup> string) \<Rightarrow> 'v" where
  "client_settings V given = client_initConfig V (client_root_init V given (vp_New V))"

text \<open>
  The connection to a target comes from the gRPC library, the dialler gets the path itself. The
  client gives up where it cannot connect; the completions only return the error. They wait for
  the connection, which \<open>block\<close> says.
\<close>

definition getClient :: "(bool \<Rightarrow> string \<Rightarrow> string \<Rightarrow> err + 'c) \<Rightarrow> 'v viper_ops \<Rightarrow> 'v \<Rightarrow> (string \<Rightarrow> string) \<Rightarrow> err + 'c" where
  "getClient dial V s env =
    (let p = vp_GetString V s env ''socket'' in
     case dial False (''unix://'' @ p) p of Inl e \<Rightarrow> Inl (''did not connect: '' @ e) | Inr c \<Rightarrow> Inr c)"

definition getSilentClient :: "(bool \<Rightarrow> string \<Rightarrow> string \<Rightarrow> err + 'c) \<Rightarrow> 'v viper_ops \<Rightarrow> 'v \<Rightarrow> (string \<Rightarrow> string) \<Rightarrow> err + 'c" where
  "getSilentClient dial V s env = (let p = vp_GetString V s env ''socket'' in dial True (''unix://'' @ p) p)"

definition getSilentKeyClient :: "(bool \<Rightarrow> string \<Rightarrow> string \<Rightarrow> err + 'c) \<Rightarrow> 'v viper_ops \<Rightarrow> 'v \<Rightarrow> (string \<Rightarrow> string) \<Rightarrow> err + 'c" where
  "getSilentKeyClient dial V s env = (let p = vp_GetString V s env ''socket'' in dial True (''unix://'' @ p) p)"

text \<open>\<open>Execute\<close> of either program: what it prints, and the status it exits with.\<close>

definition daemon_Execute :: "err option \<Rightarrow> string list \<times> nat" where
  "daemon_Execute r = (case r of None \<Rightarrow> ([], 0) | Some e \<Rightarrow> ([e], 1))"

definition client_Execute :: "err option \<Rightarrow> string list \<times> nat" where
  "client_Execute r = (case r of None \<Rightarrow> ([], 0) | Some e \<Rightarrow> ([e], 1))"

section \<open>What the settings are\<close>

text \<open>The flags of the daemon.\<close>

definition daemon_flags :: "(string \<rightharpoonup> string) \<Rightarrow> string \<rightharpoonup> pflag" where
  "daemon_flags given = [''config'' \<mapsto> root_flag given ''config'' DefaultConfigFile,
     ''socket'' \<mapsto> root_flag given ''socket'' DefaultSocketPath, ''key-dir'' \<mapsto> root_flag given ''key-dir'' DefaultKeyDir,
     ''tunnels-dir'' \<mapsto> root_flag given ''tunnels-dir'' DefaultTunnelsDir,
     ''no-config'' \<mapsto> root_flag given ''no-config'' ''false'']"

locale viper_library =
  fixes V :: "'v viper_ops" and view :: "'v \<Rightarrow> settings_view"
  assumes view_New: "view (vp_New V) = \<lparr>vw_flags = Map.empty, vw_env = False, vw_file = [], vw_values = Map.empty\<rparr>"
    and view_BindPFlag: "view (vp_BindPFlag V v k f) = (view v)\<lparr>vw_flags := (vw_flags (view v))(k \<mapsto> f)\<rparr>"
    and view_SetConfigFile: "view (vp_SetConfigFile V v p) = (view v)\<lparr>vw_file := p\<rparr>"
    and view_AutomaticEnv: "view (vp_AutomaticEnv V v) = (view v)\<lparr>vw_env := True\<rparr>"
    and read_error: "vw_file (view v) \<noteq> [] \<Longrightarrow> files (vw_file (view v)) = Inl e \<Longrightarrow>
      \<exists>v'. vp_ReadInConfig V v files = (Some e, v') \<and> view v' = view v"
    and read_values: "vw_file (view v) \<noteq> [] \<Longrightarrow> files (vw_file (view v)) = Inr m \<Longrightarrow>
      \<exists>v'. vp_ReadInConfig V v files = (None, v') \<and> view v' = (view v)\<lparr>vw_values := m\<rparr>"
    and file_used: "vp_ConfigFileUsed V v = vw_file (view v)"
    and GetString: "vp_GetString V v env k = setting (view v) env k"
    and GetBool: "vp_GetBool V v env k \<longleftrightarrow> setting (view v) env k \<in> set true_texts"
begin

lemmas views = view_New view_BindPFlag view_SetConfigFile view_AutomaticEnv

lemma client_view:
  "view (client_settings V given) = \<lparr>vw_flags = [''socket'' \<mapsto> root_flag given ''socket'' DefaultSocketPath],
    vw_env = True, vw_file = [], vw_values = Map.empty\<rparr>"
  by (simp add: client_settings_def client_initConfig_def client_root_init_def views)

text \<open>The values are those of the file named on the command line, or its default, when it can be read.\<close>

lemma daemon_view:
  assumes "p = pf_value (root_flag given ''config'' DefaultConfigFile)" and "p \<noteq> []"
  shows "daemon_settings V given files = (case files p of Inl e \<Rightarrow> [] | Inr m \<Rightarrow> [''Using config file: '' @ p],
      snd (daemon_settings V given files))"
    and "view (snd (daemon_settings V given files)) = \<lparr>vw_flags = daemon_flags given, vw_env = True, vw_file = p,
      vw_values = (case files p of Inl e \<Rightarrow> Map.empty | Inr m \<Rightarrow> m)\<rparr>"
proof -
  let ?v = "vp_AutomaticEnv V (vp_SetConfigFile V (run_init V given (daemon_root_init V given (vp_New V))) p)"
  have v: "view ?v = \<lparr>vw_flags = daemon_flags given, vw_env = True, vw_file = p, vw_values = Map.empty\<rparr>"
    by (simp add: run_init_def daemon_root_init_def views daemon_flags_def Let_def)
  show "daemon_settings V given files = (case files p of Inl e \<Rightarrow> [] | Inr m \<Rightarrow> [''Using config file: '' @ p],
      snd (daemon_settings V given files))"
    and "view (snd (daemon_settings V given files)) = \<lparr>vw_flags = daemon_flags given, vw_env = True, vw_file = p,
      vw_values = (case files p of Inl e \<Rightarrow> Map.empty | Inr m \<Rightarrow> m)\<rparr>"
    using read_error [of ?v files] read_values [of ?v files] assms(2)
    unfolding daemon_settings_def daemon_initConfig_def assms(1) [symmetric] v
    by (cases "files p"; auto simp: v file_used)+
qed

text \<open>Client and daemon meet on the same socket when the settings file names none.\<close>

lemma sockets_agree:
  assumes "given ''config'' \<noteq> Some []" and "given' ''socket'' = given ''socket''"
    and "\<forall>m. files (pf_value (root_flag given ''config'' DefaultConfigFile)) = Inr m \<longrightarrow> m ''socket'' = None"
  shows "vp_GetString V (client_settings V given') env ''socket'' =
    vp_GetString V (snd (daemon_settings V given files)) env ''socket''"
proof -
  have "pf_value (root_flag given ''config'' DefaultConfigFile) \<noteq> []"
    using assms(1) by (auto simp: pf_value_def root_flag_def DefaultConfigFile_def split: option.split)
  from daemon_view(2) [OF refl this, of files] show ?thesis
    using assms(2,3)
    by (auto simp: GetString client_view setting_def daemon_flags_def root_flag_def Let_def split: sum.split option.split)
qed

text \<open>
  The file that \<open>initConfig\<close> reads and reports is the one of the command line, but the tunnels
  come from the setting \<open>config\<close>: a variable \<open>CONFIG\<close> in the environment, or a key \<open>config\<close> in
  the file, makes the commands load another file than the one reported.
\<close>

lemma config_redirected:
  assumes "given ''config'' = None" and "files DefaultConfigFile = Inr m"
    and "p = env ''CONFIG'' \<and> p \<noteq> [] \<or> env ''CONFIG'' = [] \<and> m ''config'' = Some p"
  shows "fst (daemon_settings V given files) = [''Using config file: '' @ DefaultConfigFile] \<and>
    planCmd S D Y G v V (snd (daemon_settings V given files)) env w = plan_cmd S D Y G v p w"
proof -
  have f: "pf_value (root_flag given ''config'' DefaultConfigFile) = DefaultConfigFile" "DefaultConfigFile \<noteq> []"
    using assms(1) by (simp_all add: pf_value_def root_flag_def DefaultConfigFile_def)
  have u: "map upper_char ''config'' = ''CONFIG''"
    by code_simp
  have "vp_GetString V (snd (daemon_settings V given files)) env ''config'' = p"
    using daemon_view(2) [OF f(1) [symmetric] f(2), of files] assms
    by (auto simp: GetString setting_def daemon_flags_def root_flag_def Let_def u simp del: list.map)
  then show ?thesis
    using arg_cong [OF daemon_view(1) [OF f(1) [symmetric] f(2), of files], of fst] assms(2) by (simp add: planCmd_def)
qed

end

text \<open>An instance that keeps just the view.\<close>

definition view_ops :: "settings_view viper_ops" where
  "view_ops = \<lparr>vp_New = \<lparr>vw_flags = Map.empty, vw_env = False, vw_file = [], vw_values = Map.empty\<rparr>,
    vp_BindPFlag = (\<lambda>v k f. v\<lparr>vw_flags := (vw_flags v)(k \<mapsto> f)\<rparr>),
    vp_SetConfigFile = (\<lambda>v p. v\<lparr>vw_file := p\<rparr>),
    vp_AutomaticEnv = (\<lambda>v. v\<lparr>vw_env := True\<rparr>),
    vp_ReadInConfig = (\<lambda>v files. case files (vw_file v) of Inl e \<Rightarrow> (Some e, v) | Inr m \<Rightarrow> (None, v\<lparr>vw_values := m\<rparr>)),
    vp_ConfigFileUsed = vw_file, vp_GetString = setting,
    vp_GetBool = (\<lambda>v env k. setting v env k \<in> set true_texts)\<rparr>"

interpretation viper: viper_library view_ops "\<lambda>v. v"
  by unfold_locales (simp_all add: view_ops_def)

end
