(* ===== verification/Spec2Isabelle.thy ===== *)
theory Spec2Isabelle
  imports Desired_State Answers Peer_Auth Cluster_Flow Entry_Points Client_Cmd Client_Calls
    Concurrent_Start Kube_Copies Settings
begin

text \<open>
  A verification library for tunneld, a daemon that keeps SSH and \<open>kubectl port-forward\<close>
  tunnels alive, its command line client, and the controller and node agent that drive it from
  Kubernetes.

  \<^bold>\<open>The program.\<close> A configuration file or a client names tunnels. Each has a spec: a type, the
  forwards, the tunnels it depends on, a health check and a restart policy. The planner orders
  the specs by their dependencies. The supervisor has a registry of processes, one per tunnel;
  a process builds a command line, resolves dynamic ports, runs the child and hears of its exit
  through a goroutine that waits for it. For every start the supervisor runs a monitor that
  polls the health of the tunnel, and on a failure stops the dependents and restarts the tunnel
  after a delay. Two gRPC services offer the supervisor to clients over a unix socket. In a
  cluster the controller chooses a node for each Tunnel resource and exposes it as a Service,
  and the agent of that node translates the resource and pushes it to the daemon there.

  \<^bold>\<open>How it is modelled.\<close> A struct is a record, a tagged union a datatype, \<open>int32\<close> and \<open>int64\<close>
  words of their width (conversions and products wrap), a pointer an option, an error a string
  in the left of a sum, and a panic the value \<open>Panic\<close> of the type \<open>go\<close>. A Go map is a partial
  map, and every loop over one takes the list of its entries in the order in which they are
  visited; the theorems hold for each such list (\<open>enumerates\<close>). The supervisor refers to its
  processes through a heap of indices, because monitors and the registry share them. What runs
  concurrently in the code is a transition relation whose steps are the critical sections:
  \<open>sv_step\<close> for the supervisor and \<open>child_step\<close> and \<open>receive\<close> for a process. Locks themselves
  are not modelled: a method that holds the lock throughout is one step. \<open>Process.Start\<close>, which
  releases it in the middle, is one step as well, except in \<open>Concurrent_Start\<close>, which takes its
  halves apart. The memory of Go is modelled where copies are the point, in \<open>Copy_Lib\<close>.

  \<^bold>\<open>Code that is not in the repository\<close> is a parameter: the operating system (\<open>os\<close>, over an
  arbitrary type of worlds), the graph library (\<open>graph_ops\<close>, its contract is the locale
  \<open>graph_library\<close>), the YAML library (\<open>yaml_ops\<close>), protobuf durations (\<open>duration_ops\<close>), the
  delay of the exponential backoff, which uses floating point (\<open>scale\<close>), the network dial of a
  health check, \<open>proto.Equal\<close> and the Kubernetes API (\<open>kube\<close>, locale \<open>kube_client\<close>). Each is instantiated for the witnesses: \<open>mem_os\<close>,
  \<open>adj_ops\<close> (an adjacency list, verified against the contract), \<open>demo_yaml\<close>,
  \<open>demo_durations\<close>, \<open>mem_kube\<close>.
\<close>

text \<open>
  \<^bold>\<open>The theories.\<close>

  \<^item> \<open>Prelude\<close>, \<open>Go_Std\<close>, \<open>Map_Order\<close>: integers, errors and panics, iteration over maps, loops
    that stop at the first error; decimal numbers, quoting, \<open>net.JoinHostPort\<close>,
    \<open>filepath.Join\<close>, \<open>Clean\<close> and \<open>Base\<close>; the order of the names as one order of visits.
  \<^item> \<open>Pb_Types\<close>, \<open>Api_Types\<close> (\<open>pkg/api/v1\<close>, \<open>internal/constants\<close>): the messages, their getters,
    the constants. \<open>Os\<close>: the system calls.
  \<^item> \<open>Ports\<close>, \<open>Tunnel_Specs\<close> (\<open>internal/tunnel\<close>): resolution of dynamic ports, the addresses a
    spec claims, the Spec interface as the locale \<open>spec_interface\<close> with its two implementations
    and their command lines.
  \<^item> \<open>Graph_Lib\<close>, \<open>Planner\<close> (\<open>internal/dependency\<close>): the contract of the graph library and an
    implementation; the planner, what a plan is, and that the graph it builds represents the
    dependencies.
  \<^item> \<open>Config\<close> (\<open>internal/config\<close>): configuration files, their translation and validation.
    \<open>Health_Check\<close> (\<open>internal/health\<close>).
  \<^item> \<open>Process\<close> (\<open>internal/daemon/process.go\<close>): \<open>Start\<close>, the child and its waiting goroutine,
    \<open>Stop\<close>, queries; the invariant of reachable processes.
  \<^item> \<open>Supervisor\<close>, \<open>Supervisor_Inv\<close>, \<open>Supervisor_Props\<close>, \<open>Races\<close> (\<open>internal/daemon/supervisor.go\<close>):
    every method and the states of a monitor; the transition system and its invariant; what
    each operation does on every branch; four interleavings that end in a wrong state.
    \<open>Concurrent_Start\<close>: two callers of \<open>Start\<close> at once.
    \<open>Recovery\<close>: the way of a tunnel from the death of its child to the next healthy run;
    \<open>Stays_Down\<close>: what the daemon does without a call, and that this never starts a tunnel that
    has been told to stop and of which no restart is pending. \<open>Desired_State\<close>: an abstract
    registry of specs and wishes, which the calls and the steps of the supervisor refine.
  \<^item> \<open>Api_Server\<close>, \<open>Api_Props\<close> (\<open>internal/api/grpc_server.go\<close>, \<open>key_server.go\<close>): the handlers;
    every call is a sequence of supervisor steps, so all invariants hold behind the services.
    \<open>Answers\<close>: the port mappings as an invariant of processes, and what every answer about
    tunnels contains.
    \<open>Peer_Auth\<close> (\<open>internal/api/creds.go\<close>, \<open>polkit.go\<close>): process ids and start times of peers.
  \<^item> \<open>Daemon_Cmd\<close> (\<open>cmd/tunneld/cmd\<close>): \<open>run\<close>, \<open>validate\<close>, \<open>plan\<close>. \<open>Client_Cmd\<close>, \<open>Client_Calls\<close>
    (\<open>cmd/tunnelctl/cmd\<close>): the client's commands; the locale \<open>load_contract\<close> states what
    \<open>load\<close> needs of the daemon. \<open>Settings\<close> (\<open>root.go\<close> of both programs): from flags, environment
    and settings file to the arguments of the commands; viper as the locale \<open>viper_library\<close>.
  \<^item> \<open>Kube_Types\<close>, \<open>Kube_Client\<close> (\<open>k8s/api/v1alpha1\<close>): resources and the API as a locale, with a
    cluster in memory. \<open>Kube_Scheduler\<close>, \<open>Kube_Tunnel\<close>, \<open>Kube_Group\<close> (\<open>k8s/controllers\<close>): node
    choice, Services and Endpoints, the three reconcilers.
  \<^item> \<open>Copy_Lib\<close>, \<open>Kube_Memory\<close>, \<open>Kube_Copies\<close> (\<open>k8s/api/v1alpha1/zz_generated.deepcopy.go\<close>): a heap
    of cells with pointers, slices and maps; what a deep copy is, as the locale \<open>copier\<close>, and that
    every form of copying the generator emits is one; the resources in memory and every deep
    copy of the package.
  \<^item> \<open>Kube_Agent\<close>, \<open>Agent_Props\<close> (\<open>k8s/agent\<close>): translation, key material, reconciliation.
    \<open>Entry_Points\<close> (\<open>cmd/tunneld-agent\<close>, \<open>cmd/tunneld-controller\<close>, the \<open>SetupWithManager\<close>
    functions): the two programs, what they register and watch.
  \<^item> \<open>Server_Calls\<close>, \<open>Agent_Server\<close>: the daemon as its clients see it, the states in which no
    handler can panic (\<open>sv_good\<close>), and the locale \<open>daemon_contract\<close> in which the agent is
    verified once, interpreted on the modelled handlers. \<open>Cluster_Flow\<close>: the controller, the
    agents and a daemon together.
\<close>

text \<open>
  \<^bold>\<open>What is shown.\<close> \<^emph>\<open>Planning\<close>: a plan starts every tunnel once and after its dependencies, and
  exactly the acyclic, complete sets of specs have one; the dependents of a tunnel are the
  transitive ones. \<^emph>\<open>Registry\<close>: the supervisor refines an abstract registry, and in every reachable state the registry, the planner and the
  processes agree and no two registered tunnels claim the same address; adding, removing,
  running and failing do what they promise on every branch, including the branches where the
  promise is weak (a removed tunnel that others need, a rejected update). \<^emph>\<open>Processes\<close>: what
  \<open>Start\<close> leaves behind when it fails, that \<open>Stop\<close> signals, waits and kills, that every exit is
  reported once, and that a tunnel whose child has died runs again when its policy and the
  system let it, while its dependents stay down. \<^emph>\<open>Bounds\<close>: restarts up to the maximum of the policy, timeouts up to their
  overflow, \<open>Wait\<close> within two ticks for every second. \<^emph>\<open>Configuration\<close>: validation decides a
  declarative predicate whatever the order of the visits, translation and its inverse agree,
  \<open>validate\<close> predicts whether \<open>run\<close> starts, and \<open>load\<close> registers everything in a file that
  validates. \<^emph>\<open>Services\<close>: every handler refines the supervisor; \<open>Create\<close>, \<open>Update\<close>, \<open>Status\<close>,
  \<open>WatchStatus\<close>, \<open>Wait\<close>, \<open>Logs\<close> and the keys; every answer is well-typed, and \<open>status\<close> shows what it says. \<^emph>\<open>Cluster\<close>:
  node choice, the Service of a tunnel, groups and their phase; a successful reconciliation
  of the agent leaves exactly the translated spec in the daemon and touches no other tunnel, so a new
  resource reaches exactly one daemon; a deep copy of a resource shares no memory with it.

  \<^bold>\<open>Hypotheses.\<close> A theorem about the planner assumes \<open>graph_library\<close> (documented behaviour of the
  library: vertices keep their indices, \<open>Connect\<close> adds one edge, the topological sort fails
  exactly on a cycle); one about the controllers assumes \<open>kube_client\<close> (a read after an accepted
  write gives what was written); one about deep copies that the library's own copies
  are deep (\<open>lib_ok\<close>). \<open>disk_works\<close> says that directories and files can be made. No theorem uses
  fuel: all loops over events are structural in the list of events, which may be
  of any length, and the search of the adjacency list is proved to terminate.

  \<^bold>\<open>Not modelled.\<close> Generated code of protoc (\<open>*.pb.go\<close> beyond the structs and getters, and the
  gRPC stubs), which works by reflection; how cobra parses a command line, whose outcome is an
  input of \<open>Settings\<close>; log output; the memory model of Go and the locks; the network beyond one
  dial per health check. Files are read and written whole, and permissions are only passed on.
\<close>

end
